(* ===== verification/Gateway_Prelude.thy ===== *)
theory Gateway_Prelude
  imports Main
begin

text \<open>
  Shared vocabulary of the development: Go's \<open>error\<close> values (sentinels, wrapping with \<open>%w\<close>,
  \<open>errors.Is\<close>), \<open>context.Context\<close> as far as the gateway inspects it, time and durations in
  nanoseconds, the string helpers of the standard library the sources call, and the generic
  lemmas the components share. Go strings are byte sequences and are modelled as
  \<^typ>\<open>string\<close>, whose characters are bytes.
\<close>

named_theorems contract_simps \<open>laws of the port contracts in rewriting form\<close>
named_theorems world_simps \<open>access and update rules of the world record\<close>

section \<open>Time\<close>

text \<open>Instants (\<open>time.Time\<close>, UTC) and \<open>time.Duration\<close> are nanosecond counts.\<close>

type_synonym time = int
type_synonym duration = int

abbreviation millisecond :: duration where "millisecond \<equiv> 1000000"
abbreviation second :: duration where "second \<equiv> 1000000000"
abbreviation minute :: duration where "minute \<equiv> 60000000000"
abbreviation hour :: duration where "hour \<equiv> 3600000000000"

text \<open>The zero \<open>time.Time\<close>: 1 January of year 1.\<close>

definition zero_time :: time where
  "zero_time = - 62135596800 * second"

section \<open>Errors\<close>

datatype sentinel =
    ErrNotFound | ErrDuplicate | ErrInvalidPayload | ErrInvalidSignature | ErrQueueFull
  | ErrRateLimited | ErrDuplicateScan | ErrUnknownJobType | ErrNonRetryable
  | ErrInvalidToken
  | redis_Nil | context_Canceled | context_DeadlineExceeded | pgx_ErrNoRows

text \<open>
  An error value: a sentinel, an opaque error of a library (\<open>errors.New\<close>), a field-level
  \<open>ValidationError\<close>, or \<open>fmt.Errorf\<close> with one \<open>%w\<close>: the text before it, the
  wrapped error and the text after it.
\<close>

datatype goerr =
    Sentinel sentinel
  | ErrorString string
  | ValidationError string string
  | Wrap string goerr string

fun errors_Is :: "goerr \<Rightarrow> sentinel \<Rightarrow> bool" where
  "errors_Is (Sentinel s) t = (s = t)"
| "errors_Is (ErrorString m) t = False"
| "errors_Is (ValidationError f m) t = False"
| "errors_Is (Wrap pre e post) t = errors_Is e t"

fun sentinel_text :: "sentinel \<Rightarrow> string" where
  "sentinel_text ErrNotFound = ''resource not found''"
| "sentinel_text ErrDuplicate = ''duplicate resource''"
| "sentinel_text ErrInvalidPayload = ''invalid payload''"
| "sentinel_text ErrInvalidSignature = ''invalid signature''"
| "sentinel_text ErrQueueFull = ''queue is full (backpressure)''"
| "sentinel_text ErrRateLimited = ''rate limit exceeded''"
| "sentinel_text ErrDuplicateScan = ''duplicate qr scan''"
| "sentinel_text ErrUnknownJobType = ''unknown job type''"
| "sentinel_text ErrNonRetryable = ''non-retryable error''"
| "sentinel_text ErrInvalidToken = ''invalid token''"
| "sentinel_text redis_Nil = ''redis: nil''"
| "sentinel_text context_Canceled = ''context canceled''"
| "sentinel_text context_DeadlineExceeded = ''context deadline exceeded''"
| "sentinel_text pgx_ErrNoRows = ''no rows in result set''"

text \<open>
  \<open>%q\<close> on a string: double quotes around it, Go escapes inside. Bytes outside ASCII are
  kept as they are.
\<close>

definition hex_digit :: "nat \<Rightarrow> char" where
  "hex_digit n = (if n < 10 then char_of (48 + n) else char_of (87 + n))"

definition quote_char :: "char \<Rightarrow> string" where
  "quote_char c =
     (let n = of_char c :: nat in
      if n = 34 then [char_of (92::nat), char_of (34::nat)]
      else if n = 92 then [char_of (92::nat), char_of (92::nat)]
      else if n = 7 then char_of (92::nat) # ''a''
      else if n = 8 then char_of (92::nat) # ''b''
      else if n = 12 then char_of (92::nat) # ''f''
      else if n = 10 then char_of (92::nat) # ''n''
      else if n = 13 then char_of (92::nat) # ''r''
      else if n = 9 then char_of (92::nat) # ''t''
      else if n = 11 then char_of (92::nat) # ''v''
      else if n < 32 \<or> n = 127
      then char_of (92::nat) # CHR ''x'' # hex_digit (n div 16) # [hex_digit (n mod 16)]
      else [c])"

definition strconv_Quote :: "string \<Rightarrow> string" where
  "strconv_Quote s = char_of (34::nat) # concat (map quote_char s) @ [char_of (34::nat)]"

fun Error :: "goerr \<Rightarrow> string" where
  "Error (Sentinel s) = sentinel_text s"
| "Error (ErrorString m) = m"
| "Error (ValidationError f m) = ''validation failed on '' @ strconv_Quote f @ '': '' @ m"
| "Error (Wrap pre e post) = pre @ Error e @ post"

definition NewValidationError :: "string \<Rightarrow> string \<Rightarrow> goerr" where
  "NewValidationError field message = ValidationError field message"

section \<open>Contexts\<close>

text \<open>
  A \<open>context.Context\<close> matters to the gateway through \<open>ctx.Err()\<close>: \<^const>\<open>None\<close> while it
  is live, otherwise the reason it ended. \<open>context.Background()\<close> never ends.
\<close>

datatype ctx_err = Canceled | DeadlineExceeded
type_synonym ctx = "ctx_err option"

abbreviation (input) context_Background :: ctx where "context_Background \<equiv> None"

fun ctx_error :: "ctx_err \<Rightarrow> goerr" where
  "ctx_error Canceled = Sentinel context_Canceled"
| "ctx_error DeadlineExceeded = Sentinel context_DeadlineExceeded"

lemma ctx_error_Is [simp]:
  "errors_Is (ctx_error e) redis_Nil = False"
  "errors_Is (ctx_error e) context_Canceled = (e = Canceled)"
  "errors_Is (ctx_error e) context_DeadlineExceeded = (e = DeadlineExceeded)"
  by (cases e; simp)+

lemma not_Canceled [simp]: "e \<noteq> Canceled \<longleftrightarrow> e = DeadlineExceeded"
  by (cases e) simp_all

section \<open>Strings\<close>

definition strings_HasPrefix :: "string \<Rightarrow> string \<Rightarrow> bool" where
  "strings_HasPrefix s p = (take (length p) s = p)"

definition strings_TrimPrefix :: "string \<Rightarrow> string \<Rightarrow> string" where
  "strings_TrimPrefix s p = (if strings_HasPrefix s p then drop (length p) s else s)"

lemma HasPrefix_iff: "strings_HasPrefix s p \<longleftrightarrow> (\<exists>t. s = p @ t)"
  by (auto simp: strings_HasPrefix_def) (metis append_take_drop_id)

lemma TrimPrefix_append [simp]: "strings_TrimPrefix (p @ s) p = s"
  by (simp add: strings_TrimPrefix_def strings_HasPrefix_def)

text \<open>Two keys built from prefixes that differ at some position differ.\<close>

lemma append_neq_prefix:
  assumes "length p \<le> length q" and "take (length p) q \<noteq> p"
  shows "p @ s \<noteq> q @ t"
proof
  assume "p @ s = q @ t"
  then have "take (length p) (p @ s) = take (length p) (q @ t)" by simp
  with assms show False by simp
qed

lemma append_separator_inj:
  assumes "c \<notin> set a" and "c \<notin> set b" and "a @ c # s = b @ c # t"
  shows "a = b \<and> s = t"
  using assms
proof (induction a arbitrary: b)
  case Nil
  then show ?case by (cases b) auto
next
  case (Cons x xs)
  then show ?case by (cases b) auto
qed

section \<open>Integers\<close>

text \<open>Decimal rendering (\<open>strconv.Itoa\<close>), also the form in which Redis keeps counters.\<close>

fun nat_dec :: "nat \<Rightarrow> string" where
  "nat_dec n = (if n < 10 then [char_of (48 + n)]
                else nat_dec (n div 10) @ [char_of (48 + n mod 10)])"

declare nat_dec.simps [simp del]

definition itoa :: "int \<Rightarrow> string" where
  "itoa n = (if n < 0 then CHR ''-'' # nat_dec (nat (- n)) else nat_dec (nat n))"

lemma nat_dec_nonempty [simp]: "nat_dec n \<noteq> []"
  by (subst nat_dec.simps) simp

lemma itoa_nonempty [simp]: "itoa n \<noteq> []"
  by (simp add: itoa_def)

text \<open>
  Go's \<open>int\<close> and \<open>int64\<close> are 64-bit; \<open>wrap64\<close> is the two's complement reading of an
  integer, used where the sources can leave the range.
\<close>

definition wrap64 :: "int \<Rightarrow> int" where
  "wrap64 n = (n + 2 ^ 63) mod 2 ^ 64 - 2 ^ 63"

text \<open>Go's integer division truncates towards zero, and the remainder has the sign of the dividend.\<close>

definition go_div :: "int \<Rightarrow> int \<Rightarrow> int" where
  "go_div a b = sgn a * sgn b * (\<bar>a\<bar> div \<bar>b\<bar>)"

definition go_mod :: "int \<Rightarrow> int \<Rightarrow> int" where
  "go_mod a b = a - b * go_div a b"

lemma go_div_nonneg: "0 \<le> a \<Longrightarrow> 0 < b \<Longrightarrow> go_div a b = a div b"
  by (cases "a = 0") (simp_all add: go_div_def)

lemma go_mod_nonneg: "0 \<le> a \<Longrightarrow> 0 < b \<Longrightarrow> go_mod a b = a mod b"
  by (simp add: go_mod_def go_div_nonneg minus_mult_div_eq_mod)

definition int64 :: "int \<Rightarrow> bool" where
  "int64 n \<longleftrightarrow> - (2 ^ 63) \<le> n \<and> n < 2 ^ 63"

definition int32 :: "int \<Rightarrow> bool" where
  "int32 n \<longleftrightarrow> - (2 ^ 31) \<le> n \<and> n < 2 ^ 31"

lemma go_div_small:
  assumes "\<bar>a\<bar> < b * c" "0 < (c :: int)"
  shows "\<bar>go_div a c\<bar> < b"
proof -
  have "c * (\<bar>a\<bar> div c) \<le> \<bar>a\<bar>" using assms(2) by (simp add: minus_mod_eq_mult_div [symmetric])
  then have "(\<bar>a\<bar> div c) * c < b * c" using assms(1) by (simp add: mult.commute)
  then have "\<bar>a\<bar> div c < b" using assms(2) by (simp add: mult_less_cancel_right)
  moreover have "0 \<le> \<bar>a\<bar> div c" using assms(2) by (simp add: pos_imp_zdiv_nonneg_iff)
  ultimately show ?thesis using assms(2) by (simp add: go_div_def abs_mult abs_sgn_eq)
qed

lemma wrap64_id: "- (2 ^ 63) \<le> n \<Longrightarrow> n < 2 ^ 63 \<Longrightarrow> wrap64 n = n"
  by (simp add: wrap64_def)

lemma wrap64_int32: "int32 n \<Longrightarrow> wrap64 n = n"
  by (rule wrap64_id) (simp_all add: int32_def)

lemma wrap64_add: "wrap64 (wrap64 a + b) = wrap64 (a + b)"
  by (simp add: wrap64_def mod_simps algebra_simps)

lemma wrap64_range: "- (2 ^ 63) \<le> wrap64 n \<and> wrap64 n < 2 ^ 63"
proof -
  have "0 \<le> (n + 2 ^ 63) mod 2 ^ 64" by simp
  moreover have "(n + 2 ^ 63) mod 2 ^ 64 < 2 ^ 64" by (rule pos_mod_bound) simp
  ultimately show ?thesis by (simp add: wrap64_def)
qed

end
