(* ===== verification/Domain.thy ===== *)
theory Domain
  imports Gateway_Prelude
begin

text \<open>
  The package \<open>internal/domain\<close>: job types, statuses and priorities (string enums, so that
  the default branches of the switches stay meaningful), the job envelope, the payloads, the
  stored entities and the metrics the services update.
\<close>

section \<open>Jobs (job.go)\<close>

type_synonym JobType = string
type_synonym JobStatus = string
type_synonym Priority = string

definition JobTypeRegistration :: JobType where "JobTypeRegistration = ''REGISTRATION''"
definition JobTypePaymentWebhook :: JobType where "JobTypePaymentWebhook = ''PAYMENT_WEBHOOK''"
definition JobTypeQRScan :: JobType where "JobTypeQRScan = ''QR_SCAN''"
definition JobTypeNotification :: JobType where "JobTypeNotification = ''NOTIFICATION''"

definition JobStatusQueued :: JobStatus where "JobStatusQueued = ''QUEUED''"
definition JobStatusProcessing :: JobStatus where "JobStatusProcessing = ''PROCESSING''"
definition JobStatusSuccess :: JobStatus where "JobStatusSuccess = ''SUCCESS''"
definition JobStatusFailed :: JobStatus where "JobStatusFailed = ''FAILED''"
definition JobStatusDeadLetter :: JobStatus where "JobStatusDeadLetter = ''DEAD_LETTER''"

definition PriorityLow :: Priority where "PriorityLow = ''LOW''"
definition PriorityMedium :: Priority where "PriorityMedium = ''MEDIUM''"
definition PriorityHigh :: Priority where "PriorityHigh = ''HIGH''"

lemmas jobtype_defs =
  JobTypeRegistration_def JobTypePaymentWebhook_def JobTypeQRScan_def JobTypeNotification_def
lemmas jobstatus_defs =
  JobStatusQueued_def JobStatusProcessing_def JobStatusSuccess_def JobStatusFailed_def
  JobStatusDeadLetter_def
lemmas priority_defs = PriorityLow_def PriorityMedium_def PriorityHigh_def

definition JobType_Valid :: "JobType \<Rightarrow> bool" where
  "JobType_Valid t =
     (if t = JobTypeRegistration \<or> t = JobTypePaymentWebhook \<or> t = JobTypeQRScan
         \<or> t = JobTypeNotification
      then True else False)"

definition PriorityForType :: "JobType \<Rightarrow> Priority" where
  "PriorityForType t =
     (if t = JobTypePaymentWebhook \<or> t = JobTypeQRScan then PriorityHigh
      else if t = JobTypeRegistration then PriorityMedium
      else if t = JobTypeNotification then PriorityLow
      else PriorityMedium)"

text \<open>
  The payload is a \<open>json.RawMessage\<close>: its bytes, with the empty string for the nil slice, which
  \<open>encoding/json\<close> writes as \<open>null\<close>. The program makes no empty slice that is not nil.
\<close>

record Job =
  job_ID :: string
  job_JobType :: JobType
  job_Payload :: string
  job_Status :: JobStatus
  job_RetryCount :: int
  job_MaxRetries :: int
  job_Priority :: Priority
  job_IdempotencyKey :: string
  job_TraceID :: string
  job_ErrorMessage :: string
  job_CreatedAt :: time
  job_UpdatedAt :: time
  job_ProcessedAt :: "time option"

text \<open>\<open>NewJob\<close>; the argument \<open>now\<close> is the value of \<open>time.Now().UTC()\<close> it reads.\<close>

definition NewJob ::
  "string \<Rightarrow> JobType \<Rightarrow> string \<Rightarrow> string \<Rightarrow> string \<Rightarrow> int \<Rightarrow> time \<Rightarrow> Job" where
  "NewJob jid t payload idempotencyKey traceID maxRetries now =
     \<lparr> job_ID = jid, job_JobType = t, job_Payload = payload, job_Status = JobStatusQueued,
       job_RetryCount = 0, job_MaxRetries = maxRetries, job_Priority = PriorityForType t,
       job_IdempotencyKey = idempotencyKey, job_TraceID = traceID, job_ErrorMessage = '''',
       job_CreatedAt = now, job_UpdatedAt = now, job_ProcessedAt = None \<rparr>"

definition CanRetry :: "Job \<Rightarrow> bool" where
  "CanRetry j = (job_RetryCount j < job_MaxRetries j)"

record JobAttempt =
  att_JobID :: string
  att_Attempt :: int
  att_Status :: JobStatus
  att_Error :: string
  att_DurationMS :: int
  att_CreatedAt :: time

text \<open>Go maps whose entries are summed or listed are association lists with distinct keys.\<close>

record JobStats =
  js_ByStatus :: "(JobStatus \<times> int) list"
  js_ByType :: "(JobType \<times> int) list"
  js_Total :: int
  js_DeadLetter :: int
  js_QueueDepths :: "(Priority \<times> int) list"
  js_GeneratedAt :: time

record JobFilter =
  jf_Status :: JobStatus
  jf_JobType :: JobType
  jf_Limit :: int
  jf_Offset :: int

section \<open>Payloads and stored entities (events.go)\<close>

record RegistrationPayload =
  rp_EventID :: string
  rp_AttendeeName :: string
  rp_Email :: string
  rp_Phone :: string
  rp_TicketType :: string

record PaymentWebhookPayload =
  pw_GatewayOrderID :: string
  pw_PaymentID :: string
  pw_PaymentStatus :: string
  pw_AmountCents :: int
  pw_Currency :: string

record QRScanPayload =
  qp_QRCode :: string
  qp_EventID :: string
  qp_GateID :: string
  qp_ScannedBy :: string

type_synonym NotificationChannel = string

definition ChannelEmail :: NotificationChannel where "ChannelEmail = ''EMAIL''"
definition ChannelSMS :: NotificationChannel where "ChannelSMS = ''SMS''"
definition ChannelPush :: NotificationChannel where "ChannelPush = ''PUSH''"

lemmas channel_defs = ChannelEmail_def ChannelSMS_def ChannelPush_def

definition NotificationChannel_Valid :: "NotificationChannel \<Rightarrow> bool" where
  "NotificationChannel_Valid c =
     (if c = ChannelEmail \<or> c = ChannelSMS \<or> c = ChannelPush then True else False)"

record NotificationPayload =
  np_Channel :: NotificationChannel
  np_Recipient :: string
  np_Template :: string
  np_Subject :: string
  np_Body :: string
  np_EventID :: string

record Registration =
  reg_ID :: string
  reg_JobID :: string
  reg_EventID :: string
  reg_AttendeeName :: string
  reg_Email :: string
  reg_Phone :: string
  reg_TicketType :: string
  reg_Status :: string
  reg_CreatedAt :: time

record PaymentEvent =
  pe_ID :: string
  pe_JobID :: string
  pe_GatewayOrderID :: string
  pe_PaymentID :: string
  pe_Status :: string
  pe_AmountCents :: int
  pe_Currency :: string
  pe_ProcessedAt :: "time option"
  pe_CreatedAt :: time

record QRScanEvent =
  qs_ID :: string
  qs_JobID :: string
  qs_QRCode :: string
  qs_EventID :: string
  qs_GateID :: string
  qs_ScannedBy :: string
  qs_CreatedAt :: time

record NotificationEvent =
  ne_ID :: string
  ne_JobID :: string
  ne_Channel :: string
  ne_Recipient :: string
  ne_Template :: string
  ne_Status :: string
  ne_Attempts :: int
  ne_SentAt :: "time option"
  ne_CreatedAt :: time

record AuditLog =
  al_EntityType :: string
  al_EntityID :: string
  al_Action :: string
  al_Detail :: string
  al_TraceID :: string
  al_CreatedAt :: time

section \<open>Metrics (internal/observability)\<close>

text \<open>
  The counters the program increments, by label values. The latency histogram and the depth
  gauges are not kept: no code under \<open>internal\<close> reads a metric back.
\<close>

record Metrics =
  m_HTTPRequests :: "string \<times> string \<times> string \<Rightarrow> nat"
  m_JobsProcessed :: "JobType \<times> JobStatus \<Rightarrow> nat"
  m_JobsFailed :: "JobType \<Rightarrow> nat"
  m_JobsRetried :: "JobType \<Rightarrow> nat"
  m_JobsDeadLetter :: "JobType \<Rightarrow> nat"
  m_WorkersActive :: int
  m_RateLimited :: "string \<Rightarrow> nat"
  m_LoadShed :: nat
  m_IdempotencyHits :: nat

definition inc :: "'k \<Rightarrow> ('k \<Rightarrow> nat) \<Rightarrow> ('k \<Rightarrow> nat)" where
  "inc k f = f(k := Suc (f k))"

text \<open>
  The collectors \<open>New\<close> registers, in the order of the fields, with the bounds of the histogram in
  thousandths of a second. The registry panics on a second collector of the same name, on a name or
  label that is no identifier and on bounds that do not increase.
\<close>

datatype collector_kind = Counter | Gauge | Histogram

record collector =
  co_kind :: collector_kind
  co_Name :: string
  co_Help :: string
  co_labels :: "string list"
  co_Buckets :: "int list"

definition Metrics_collectors :: "collector list" where
  "Metrics_collectors =
     [\<lparr> co_kind = Counter, co_Name = ''gateway_http_requests_total'',
        co_Help = ''Total HTTP requests processed by the gateway.'',
        co_labels = [''method'', ''route'', ''status''], co_Buckets = [] \<rparr>,
      \<lparr> co_kind = Histogram, co_Name = ''gateway_http_request_duration_seconds'',
        co_Help = ''HTTP request latency in seconds.'',
        co_labels = [''method'', ''route''], co_Buckets = [1, 5, 10, 25, 50, 100, 250, 500, 1000, 2500, 5000] \<rparr>,
      \<lparr> co_kind = Gauge, co_Name = ''gateway_queue_depth'',
        co_Help = ''Current depth of each priority queue.'',
        co_labels = [''priority''], co_Buckets = [] \<rparr>,
      \<lparr> co_kind = Gauge, co_Name = ''gateway_dead_letter_depth'',
        co_Help = ''Current depth of the dead-letter queue.'',
        co_labels = [], co_Buckets = [] \<rparr>,
      \<lparr> co_kind = Counter, co_Name = ''gateway_jobs_processed_total'',
        co_Help = ''Total jobs processed, labelled by type and terminal status.'',
        co_labels = [''job_type'', ''status''], co_Buckets = [] \<rparr>,
      \<lparr> co_kind = Counter, co_Name = ''gateway_jobs_failed_total'',
        co_Help = ''Total job processing attempts that returned an error.'',
        co_labels = [''job_type''], co_Buckets = [] \<rparr>,
      \<lparr> co_kind = Counter, co_Name = ''gateway_jobs_retried_total'',
        co_Help = ''Total jobs re-queued for retry.'',
        co_labels = [''job_type''], co_Buckets = [] \<rparr>,
      \<lparr> co_kind = Counter, co_Name = ''gateway_jobs_dead_letter_total'',
        co_Help = ''Total jobs moved to the dead-letter queue.'',
        co_labels = [''job_type''], co_Buckets = [] \<rparr>,
      \<lparr> co_kind = Gauge, co_Name = ''gateway_workers_active'',
        co_Help = ''Number of worker goroutines currently processing a job.'',
        co_labels = [], co_Buckets = [] \<rparr>,
      \<lparr> co_kind = Counter, co_Name = ''gateway_rate_limited_total'',
        co_Help = ''Total requests rejected by a rate limiter.'',
        co_labels = [''scope''], co_Buckets = [] \<rparr>,
      \<lparr> co_kind = Counter, co_Name = ''gateway_load_shed_total'',
        co_Help = ''Total requests shed due to queue backpressure (HTTP 503).'',
        co_labels = [], co_Buckets = [] \<rparr>,
      \<lparr> co_kind = Counter, co_Name = ''gateway_idempotency_hits_total'',
        co_Help = ''Total requests served from an existing idempotency key.'',
        co_labels = [], co_Buckets = [] \<rparr>]"

definition metric_name :: "string \<Rightarrow> bool" where
  "metric_name s \<longleftrightarrow> s \<noteq> [] \<and> list_all (\<lambda>c. c = CHR ''_'' \<or> (97 \<le> (of_char c :: nat) \<and> (of_char c :: nat) \<le> 122)) s"

definition Metrics_New :: Metrics where
  "Metrics_New =
     \<lparr> m_HTTPRequests = (\<lambda>_. 0), m_JobsProcessed = (\<lambda>_. 0), m_JobsFailed = (\<lambda>_. 0),
       m_JobsRetried = (\<lambda>_. 0), m_JobsDeadLetter = (\<lambda>_. 0), m_WorkersActive = 0,
       m_RateLimited = (\<lambda>_. 0), m_LoadShed = 0, m_IdempotencyHits = 0 \<rparr>"

section \<open>Lemmas\<close>

lemma Metrics_register:
  "distinct (map co_Name Metrics_collectors)"
  "list_all (\<lambda>c. metric_name (co_Name c) \<and> list_all metric_name (co_labels c) \<and> distinct (co_labels c) \<and>
     sorted_wrt (<) (co_Buckets c)) Metrics_collectors"
  by (simp_all add: Metrics_collectors_def metric_name_def)

lemma JobType_Valid_iff:
  "JobType_Valid t \<longleftrightarrow>
     t \<in> {JobTypeRegistration, JobTypePaymentWebhook, JobTypeQRScan, JobTypeNotification}"
  by (auto simp: JobType_Valid_def)

lemma JobType_Valid_no_colon:
  "JobType_Valid t \<Longrightarrow> CHR '':'' \<notin> set t"
  by (auto simp: JobType_Valid_iff jobtype_defs)

lemma NotificationChannel_Valid_iff:
  "NotificationChannel_Valid c \<longleftrightarrow> c \<in> {ChannelEmail, ChannelSMS, ChannelPush}"
  by (auto simp: NotificationChannel_Valid_def)

lemma jobstatus_distinct [simp]:
  "JobStatusQueued \<noteq> JobStatusProcessing" "JobStatusQueued \<noteq> JobStatusSuccess"
  "JobStatusQueued \<noteq> JobStatusFailed" "JobStatusQueued \<noteq> JobStatusDeadLetter"
  "JobStatusProcessing \<noteq> JobStatusQueued" "JobStatusProcessing \<noteq> JobStatusSuccess"
  "JobStatusProcessing \<noteq> JobStatusFailed" "JobStatusProcessing \<noteq> JobStatusDeadLetter"
  "JobStatusSuccess \<noteq> JobStatusQueued" "JobStatusSuccess \<noteq> JobStatusProcessing"
  "JobStatusSuccess \<noteq> JobStatusFailed" "JobStatusSuccess \<noteq> JobStatusDeadLetter"
  "JobStatusFailed \<noteq> JobStatusQueued" "JobStatusFailed \<noteq> JobStatusProcessing"
  "JobStatusFailed \<noteq> JobStatusSuccess" "JobStatusFailed \<noteq> JobStatusDeadLetter"
  "JobStatusDeadLetter \<noteq> JobStatusQueued" "JobStatusDeadLetter \<noteq> JobStatusProcessing"
  "JobStatusDeadLetter \<noteq> JobStatusSuccess" "JobStatusDeadLetter \<noteq> JobStatusFailed"
  by (simp_all add: jobstatus_defs)

lemma priority_distinct [simp]:
  "PriorityHigh \<noteq> PriorityLow" "PriorityLow \<noteq> PriorityHigh"
  "PriorityHigh \<noteq> PriorityMedium" "PriorityMedium \<noteq> PriorityHigh"
  "PriorityLow \<noteq> PriorityMedium" "PriorityMedium \<noteq> PriorityLow"
  by (simp_all add: priority_defs)

lemma NewJob_simps [simp]:
  "job_ID (NewJob i t p k tr m now) = i"
  "job_JobType (NewJob i t p k tr m now) = t"
  "job_Payload (NewJob i t p k tr m now) = p"
  "job_Status (NewJob i t p k tr m now) = JobStatusQueued"
  "job_RetryCount (NewJob i t p k tr m now) = 0"
  "job_MaxRetries (NewJob i t p k tr m now) = m"
  "job_Priority (NewJob i t p k tr m now) = PriorityForType t"
  "job_IdempotencyKey (NewJob i t p k tr m now) = k"
  "job_TraceID (NewJob i t p k tr m now) = tr"
  "job_CreatedAt (NewJob i t p k tr m now) = now"
  "job_UpdatedAt (NewJob i t p k tr m now) = now"
  "job_ProcessedAt (NewJob i t p k tr m now) = None"
  by (simp_all add: NewJob_def)

end
