(* ===== verification/Ports.thy ===== *)
theory Ports
  imports Domain
begin

text \<open>
  The port interfaces of \<open>internal/domain/ports.go\<close> as records of functions over the state of
  the service behind them: \<open>'r\<close> is the state of the Redis server the queue and the cache share,
  \<open>'d\<close> the state of the database. The world record is everything a running gateway can change.
  What each port promises its callers is a locale over a view of that state; the adapters
  interpret them and the services are verified against them.
\<close>

section \<open>Ports\<close>

record 'r Queue_port =
  qPush :: "ctx \<Rightarrow> Job \<Rightarrow> 'r \<Rightarrow> goerr option \<times> 'r"
  qPop :: "ctx \<Rightarrow> 'r \<Rightarrow> (goerr + Job option) \<times> 'r"
  qPushDeadLetter :: "ctx \<Rightarrow> Job \<Rightarrow> 'r \<Rightarrow> goerr option \<times> 'r"
  qDepth :: "ctx \<Rightarrow> Priority \<Rightarrow> 'r \<Rightarrow> (goerr + int) \<times> 'r"
  qTotalDepth :: "ctx \<Rightarrow> 'r \<Rightarrow> (goerr + int) \<times> 'r"
  qDeadLetterDepth :: "ctx \<Rightarrow> 'r \<Rightarrow> (goerr + int) \<times> 'r"
  qListDeadLetter :: "ctx \<Rightarrow> int \<Rightarrow> 'r \<Rightarrow> (goerr + Job list) \<times> 'r"
  qPing :: "ctx \<Rightarrow> 'r \<Rightarrow> goerr option \<times> 'r"

text \<open>\<open>Get\<close> returns a value and a \<open>found\<close> flag: \<^const>\<open>None\<close> is a key that is absent.\<close>

record 'r Cache_port =
  cSetNX :: "ctx \<Rightarrow> string \<Rightarrow> string \<Rightarrow> duration \<Rightarrow> 'r \<Rightarrow> (goerr + bool) \<times> 'r"
  cGet :: "ctx \<Rightarrow> string \<Rightarrow> 'r \<Rightarrow> (goerr + string option) \<times> 'r"
  cSet :: "ctx \<Rightarrow> string \<Rightarrow> string \<Rightarrow> duration \<Rightarrow> 'r \<Rightarrow> goerr option \<times> 'r"
  cIncr :: "ctx \<Rightarrow> string \<Rightarrow> 'r \<Rightarrow> (goerr + int) \<times> 'r"
  cDel :: "ctx \<Rightarrow> string \<Rightarrow> 'r \<Rightarrow> goerr option \<times> 'r"
  cPing :: "ctx \<Rightarrow> 'r \<Rightarrow> goerr option \<times> 'r"

record 'd Store_port =
  sCreate :: "ctx \<Rightarrow> Job \<Rightarrow> 'd \<Rightarrow> goerr option \<times> 'd"
  sUpdate :: "ctx \<Rightarrow> Job \<Rightarrow> 'd \<Rightarrow> goerr option \<times> 'd"
  sGetByID :: "ctx \<Rightarrow> string \<Rightarrow> 'd \<Rightarrow> (goerr + Job) \<times> 'd"
  sList :: "ctx \<Rightarrow> JobFilter \<Rightarrow> 'd \<Rightarrow> (goerr + Job list) \<times> 'd"
  sListDeadLetter :: "ctx \<Rightarrow> int \<Rightarrow> int \<Rightarrow> 'd \<Rightarrow> (goerr + Job list) \<times> 'd"
  sCountByStatus :: "ctx \<Rightarrow> 'd \<Rightarrow> (goerr + (JobStatus \<times> int) list) \<times> 'd"
  sCountByType :: "ctx \<Rightarrow> 'd \<Rightarrow> (goerr + (JobType \<times> int) list) \<times> 'd"
  sAddAttempt :: "ctx \<Rightarrow> JobAttempt \<Rightarrow> 'd \<Rightarrow> goerr option \<times> 'd"
  sPing :: "ctx \<Rightarrow> 'd \<Rightarrow> goerr option \<times> 'd"
  sCreateRegistration :: "ctx \<Rightarrow> Registration \<Rightarrow> 'd \<Rightarrow> goerr option \<times> 'd"
  sUpsertPaymentEvent :: "ctx \<Rightarrow> PaymentEvent \<Rightarrow> 'd \<Rightarrow> goerr option \<times> 'd"
  sCreateQRScanEvent :: "ctx \<Rightarrow> QRScanEvent \<Rightarrow> 'd \<Rightarrow> goerr option \<times> 'd"
  sCreateNotificationEvent :: "ctx \<Rightarrow> NotificationEvent \<Rightarrow> 'd \<Rightarrow> goerr option \<times> 'd"
  sCreateAuditLog :: "ctx \<Rightarrow> AuditLog \<Rightarrow> 'd \<Rightarrow> goerr option \<times> 'd"

record EnqueueRequest =
  er_JobType :: JobType
  er_Payload :: string
  er_IdempotencyKey :: string
  er_TraceID :: string

record EnqueueResult =
  res_Job :: Job
  res_Duplicate :: bool

section \<open>The world\<close>

text \<open>
  \<open>ticks\<close>, \<open>uuids\<close> and \<open>rands\<close> count the readings of the clock, of \<open>uuid.NewString\<close>
  and of \<open>rand.Int63n\<close> so far; the runtime gives the value of each reading. \<open>pending\<close> holds
  the retry goroutines that were started and have not pushed their job yet, with their delay.
  \<open>retryBase\<close> and \<open>retryMax\<close> are the two fields of the worker pool that are written after
  its construction, and \<open>crashed\<close> records a panic that nothing recovers.
\<close>

record runtime =
  time_at :: "nat \<Rightarrow> time"
  uuid_at :: "nat \<Rightarrow> string"
  rand_at :: "nat \<Rightarrow> int \<Rightarrow> int"

record ('r, 'd) world =
  redis :: 'r
  db :: 'd
  metrics :: Metrics
  ticks :: nat
  uuids :: nat
  rands :: nat
  pending :: "(Job \<times> duration) list"
  retryBase :: duration
  retryMax :: duration
  crashed :: bool

type_synonym ('r, 'd) processor = "ctx \<Rightarrow> Job \<Rightarrow> ('r, 'd) world \<Rightarrow> goerr option \<times> ('r, 'd) world"
type_synonym ('r, 'd) enqueuer =
  "ctx \<Rightarrow> EnqueueRequest \<Rightarrow> ('r, 'd) world \<Rightarrow> (goerr + EnqueueResult) \<times> ('r, 'd) world"

definition on_redis :: "('r \<Rightarrow> 'a \<times> 'r) \<Rightarrow> ('r, 'd) world \<Rightarrow> 'a \<times> ('r, 'd) world" where
  "on_redis f w = (fst (f (redis w)), w\<lparr>redis := snd (f (redis w))\<rparr>)"

definition on_db :: "('d \<Rightarrow> 'a \<times> 'd) \<Rightarrow> ('r, 'd) world \<Rightarrow> 'a \<times> ('r, 'd) world" where
  "on_db f w = (fst (f (db w)), w\<lparr>db := snd (f (db w))\<rparr>)"

definition time_Now :: "runtime \<Rightarrow> ('r, 'd) world \<Rightarrow> time \<times> ('r, 'd) world" where
  "time_Now E w = (time_at E (ticks w), w\<lparr>ticks := Suc (ticks w)\<rparr>)"

definition uuid_NewString :: "runtime \<Rightarrow> ('r, 'd) world \<Rightarrow> string \<times> ('r, 'd) world" where
  "uuid_NewString E w = (uuid_at E (uuids w), w\<lparr>uuids := Suc (uuids w)\<rparr>)"

definition bump :: "(Metrics \<Rightarrow> Metrics) \<Rightarrow> ('r, 'd) world \<Rightarrow> ('r, 'd) world" where
  "bump f w = w\<lparr>metrics := f (metrics w)\<rparr>"

lemma on_redis_simps [world_simps]:
  "fst (on_redis f w) = fst (f (redis w))"
  "snd (on_redis f w) = w\<lparr>redis := snd (f (redis w))\<rparr>"
  by (simp_all add: on_redis_def)

lemma on_db_simps [world_simps]:
  "fst (on_db f w) = fst (f (db w))"
  "snd (on_db f w) = w\<lparr>db := snd (f (db w))\<rparr>"
  by (simp_all add: on_db_def)

lemma time_Now_simps [world_simps]:
  "fst (time_Now E w) = time_at E (ticks w)"
  "snd (time_Now E w) = w\<lparr>ticks := Suc (ticks w)\<rparr>"
  by (simp_all add: time_Now_def)

lemma uuid_NewString_simps [world_simps]:
  "fst (uuid_NewString E w) = uuid_at E (uuids w)"
  "snd (uuid_NewString E w) = w\<lparr>uuids := Suc (uuids w)\<rparr>"
  by (simp_all add: uuid_NewString_def)

declare bump_def [world_simps] Let_def [world_simps] case_prod_beta [world_simps]

section \<open>Contracts\<close>

text \<open>
  What a reachable Redis keeps of a key: its string value and, if it has one, the time left
  to live. \<open>age\<close> is what the passing of time does to an entry.
\<close>

type_synonym entry = "string \<times> duration option"

definition age :: "duration \<Rightarrow> entry option \<Rightarrow> entry option" where
  "age d e = (case e of None \<Rightarrow> None
     | Some (v, None) \<Rightarrow> Some (v, None)
     | Some (v, Some t) \<Rightarrow> if d < t then Some (v, Some (t - d)) else None)"

text \<open>
  The cache contract. \<open>up\<close> says the server is reachable and its contents are well-formed;
  \<open>ckey\<close> are the keys the cache may use. Time to live is kept to the millisecond.
  A call whose context has ended fails and changes nothing.
\<close>

definition whole_ms :: "duration \<Rightarrow> bool" where
  "whole_ms d \<longleftrightarrow> 0 < d \<and> millisecond dvd d"

locale cache_contract =
  fixes C :: "'r Cache_port"
    and ents :: "'r \<Rightarrow> string \<Rightarrow> entry option"
    and up :: "'r \<Rightarrow> bool"
    and ckey :: "string \<Rightarrow> bool"
    and elapse :: "duration \<Rightarrow> 'r \<Rightarrow> 'r"
  assumes setnx_result: "up r \<Longrightarrow> ckey k \<Longrightarrow> whole_ms t \<Longrightarrow>
      fst (cSetNX C None k v t r) = Inr (ents r k = None)"
    and setnx_ents: "up r \<Longrightarrow> ckey k \<Longrightarrow> whole_ms t \<Longrightarrow>
      ents (snd (cSetNX C None k v t r)) =
        (if ents r k = None then (ents r)(k \<mapsto> (v, Some t)) else ents r)"
    and setnx_up: "up r \<Longrightarrow> ckey k \<Longrightarrow> whole_ms t \<Longrightarrow> up (snd (cSetNX C None k v t r))"
    and get_result: "up r \<Longrightarrow> ckey k \<Longrightarrow>
      fst (cGet C None k r) = Inr (map_option fst (ents r k))"
    and get_ents: "up r \<Longrightarrow> ckey k \<Longrightarrow> ents (snd (cGet C None k r)) = ents r"
    and get_up: "up r \<Longrightarrow> ckey k \<Longrightarrow> up (snd (cGet C None k r))"
    and set_result: "up r \<Longrightarrow> ckey k \<Longrightarrow> whole_ms t \<Longrightarrow> fst (cSet C None k v t r) = None"
    and set_ents: "up r \<Longrightarrow> ckey k \<Longrightarrow> whole_ms t \<Longrightarrow>
      ents (snd (cSet C None k v t r)) = (ents r)(k \<mapsto> (v, Some t))"
    and set_up: "up r \<Longrightarrow> ckey k \<Longrightarrow> whole_ms t \<Longrightarrow> up (snd (cSet C None k v t r))"
    and incr_absent: "up r \<Longrightarrow> ckey k \<Longrightarrow> ents r k = None \<Longrightarrow>
      fst (cIncr C None k r) = Inr 1 \<and>
      ents (snd (cIncr C None k r)) = (ents r)(k \<mapsto> (itoa 1, None))"
    and incr_present: "up r \<Longrightarrow> ckey k \<Longrightarrow> ents r k = Some (itoa n, u) \<Longrightarrow>
      \<bar>n\<bar> + 1 < 2 ^ 63 \<Longrightarrow> fst (cIncr C None k r) = Inr (n + 1) \<and>
      ents (snd (cIncr C None k r)) = (ents r)(k \<mapsto> (itoa (n + 1), u))"
    and incr_up: "up r \<Longrightarrow> ckey k \<Longrightarrow> up (snd (cIncr C None k r))"
    and del_result: "up r \<Longrightarrow> ckey k \<Longrightarrow> fst (cDel C None k r) = None"
    and del_ents: "up r \<Longrightarrow> ckey k \<Longrightarrow> ents (snd (cDel C None k r)) = (ents r)(k := None)"
    and del_up: "up r \<Longrightarrow> ckey k \<Longrightarrow> up (snd (cDel C None k r))"
    and ended_setnx: "cSetNX C (Some e) k v t r = (Inl (ctx_error e), r)"
    and ended_get: "cGet C (Some e) k r = (Inl (ctx_error e), r)"
    and ended_set: "cSet C (Some e) k v t r = (Some (ctx_error e), r)"
    and ended_incr: "cIncr C (Some e) k r = (Inl (ctx_error e), r)"
    and ended_del: "cDel C (Some e) k r = (Some (ctx_error e), r)"
    and elapse_ents: "0 \<le> d \<Longrightarrow> ents (elapse d r) = (\<lambda>k. age d (ents r k))"
begin

lemmas cache_rules =
  setnx_result setnx_ents setnx_up get_result get_ents get_up set_result set_ents set_up
  del_result del_ents del_up incr_up
lemmas ended_rules = ended_setnx ended_get ended_set ended_incr ended_del

end

text \<open>
  The queue contract. A job waits at one of three levels (0 is served first); \<open>qv r l\<close> lists
  the jobs of a level, the next one to be popped first. \<open>wire\<close> are the jobs whose
  serialised form decodes to the same job.
\<close>

definition level :: "Priority \<Rightarrow> nat" where
  "level p = (if p = PriorityHigh then 0 else if p = PriorityLow then 2 else 1)"

definition next_level :: "(nat \<Rightarrow> 'a list) \<Rightarrow> nat option" where
  "next_level v = (if v 0 \<noteq> [] then Some 0 else if v 1 \<noteq> [] then Some 1
                   else if v 2 \<noteq> [] then Some 2 else None)"

locale queue_contract =
  fixes Q :: "'r Queue_port"
    and qv :: "'r \<Rightarrow> nat \<Rightarrow> Job list"
    and dlq :: "'r \<Rightarrow> Job list"
    and up :: "'r \<Rightarrow> bool"
    and wire :: "Job \<Rightarrow> bool"
  assumes push_result: "up r \<Longrightarrow> wire j \<Longrightarrow> fst (qPush Q None j r) = None"
    and push_qv: "up r \<Longrightarrow> wire j \<Longrightarrow> qv (snd (qPush Q None j r)) =
      (qv r)(level (job_Priority j) := qv r (level (job_Priority j)) @ [j])"
    and push_dlq: "up r \<Longrightarrow> wire j \<Longrightarrow> dlq (snd (qPush Q None j r)) = dlq r"
    and push_up: "up r \<Longrightarrow> wire j \<Longrightarrow> up (snd (qPush Q None j r))"
    and pop_result: "up r \<Longrightarrow> fst (qPop Q None r) =
      Inr (case next_level (qv r) of None \<Rightarrow> None | Some l \<Rightarrow> Some (hd (qv r l)))"
    and pop_qv: "up r \<Longrightarrow> qv (snd (qPop Q None r)) =
      (case next_level (qv r) of None \<Rightarrow> qv r | Some l \<Rightarrow> (qv r)(l := tl (qv r l)))"
    and pop_dlq: "up r \<Longrightarrow> dlq (snd (qPop Q None r)) = dlq r"
    and pop_up: "up r \<Longrightarrow> up (snd (qPop Q None r))"
    and dead_result: "up r \<Longrightarrow> wire j \<Longrightarrow> fst (qPushDeadLetter Q None j r) = None"
    and dead_qv: "up r \<Longrightarrow> wire j \<Longrightarrow> qv (snd (qPushDeadLetter Q None j r)) = qv r"
    and dead_dlq: "up r \<Longrightarrow> wire j \<Longrightarrow> dlq (snd (qPushDeadLetter Q None j r)) = j # dlq r"
    and dead_up: "up r \<Longrightarrow> wire j \<Longrightarrow> up (snd (qPushDeadLetter Q None j r))"
    and total_result: "up r \<Longrightarrow> fst (qTotalDepth Q None r) =
      Inr (wrap64 (int (length (qv r 0) + length (qv r 1) + length (qv r 2))))"
    and total_same: "up r \<Longrightarrow> snd (qTotalDepth Q None r) = r"
    and ended_push: "wire j \<Longrightarrow> \<exists>x. qPush Q (Some e) j r = (Some x, r)"
    and ended_pop: "qPop Q (Some e) r = (Inr None, r)"
    and ended_dead: "wire j \<Longrightarrow> \<exists>x. qPushDeadLetter Q (Some e) j r = (Some x, r)"
begin

lemmas queue_rules =
  push_result push_qv push_dlq push_up pop_result pop_qv pop_dlq pop_up
  dead_result dead_qv dead_dlq dead_up

end

text \<open>
  A run of pushes and a run of pops. Pops that find the queue empty end the run.
\<close>

fun push_all :: "'r Queue_port \<Rightarrow> Job list \<Rightarrow> 'r \<Rightarrow> 'r" where
  "push_all Q [] r = r"
| "push_all Q (j # js) r = push_all Q js (snd (qPush Q None j r))"

fun pop_all :: "'r Queue_port \<Rightarrow> nat \<Rightarrow> 'r \<Rightarrow> Job list \<times> 'r" where
  "pop_all Q 0 r = ([], r)"
| "pop_all Q (Suc n) r =
     (let (x, r') = qPop Q None r in
      case x of Inr (Some j) \<Rightarrow> (let (js, r'') = pop_all Q n r' in (j # js, r'')) | _ \<Rightarrow> ([], r'))"

definition served :: "(nat \<Rightarrow> Job list) \<Rightarrow> Job list" where
  "served v = v 0 @ v 1 @ v 2"

lemma next_level_served:
  "next_level v = None \<longleftrightarrow> served v = []"
  "next_level v = Some l \<Longrightarrow> served v = hd (v l) # served (v(l := tl (v l)))"
  by (auto simp: next_level_def served_def split: if_splits)

lemma level_cases: "level q = 0 \<or> level q = 1 \<or> level q = 2"
  by (simp add: level_def)

lemma insort_key_between:
  assumes "\<forall>a \<in> set as. f a < f x" "\<forall>b \<in> set bs. f x \<le> f b"
  shows "insort_key f x (as @ bs) = as @ x # bs"
proof -
  from assms(2) have "insort_key f x bs = x # bs" by (cases bs) auto
  with assms(1) show ?thesis by (induction as) auto
qed

lemma sort_by_level:
  fixes js :: "Job list"
  shows "sort_key (\<lambda>j. level (job_Priority j)) js =
     filter (\<lambda>j. level (job_Priority j) = 0) js @ filter (\<lambda>j. level (job_Priority j) = 1) js @
     filter (\<lambda>j. level (job_Priority j) = 2) js"
proof (induction js)
  case (Cons j js)
  define f where "f = (\<lambda>j :: Job. level (job_Priority j))"
  let ?l = "\<lambda>n. filter (\<lambda>j. f j = n) js"
  note mid = insort_key_between [of _ f j]
  from level_cases [of "job_Priority j"] consider "f j = 0" | "f j = 1" | "f j = 2"
    by (auto simp: f_def)
  then have "insort_key f j (?l 0 @ ?l 1 @ ?l 2) =
      filter (\<lambda>j. f j = 0) (j # js) @ filter (\<lambda>j. f j = 1) (j # js) @ filter (\<lambda>j. f j = 2) (j # js)"
  proof cases
    case 1
    then show ?thesis using mid [of "[]" "?l 0 @ ?l 1 @ ?l 2"] by auto
  next
    case 2
    then show ?thesis using mid [of "?l 0" "?l 1 @ ?l 2"] by fastforce
  next
    case 3
    then show ?thesis using mid [of "?l 0 @ ?l 1" "?l 2"] by fastforce
  qed
  then show ?case using Cons.IH by (simp add: f_def)
qed simp

context queue_contract
begin

lemma push_all_qv:
  assumes "up r" "\<And>j. j \<in> set js \<Longrightarrow> wire j"
  shows "up (push_all Q js r) \<and> qv (push_all Q js r) =
    (\<lambda>l. qv r l @ filter (\<lambda>j. level (job_Priority j) = l) js)"
  using assms by (induction js arbitrary: r) (auto simp: queue_rules fun_eq_iff)

lemma pop_all_served:
  assumes "up r"
  shows "fst (pop_all Q n r) = take n (served (qv r)) \<and> up (snd (pop_all Q n r)) \<and>
    served (qv (snd (pop_all Q n r))) = drop n (served (qv r))"
  using assms
proof (induction n arbitrary: r)
  case (Suc n)
  show ?case
  proof (cases "next_level (qv r)")
    case None
    then have "served (qv r) = []" by (simp add: next_level_served)
    with None Suc.prems show ?thesis by (simp add: case_prod_beta queue_rules)
  next
    case (Some l)
    from Suc.IH [OF pop_up [OF Suc.prems]] next_level_served(2) [OF Some] Some Suc.prems
    show ?thesis by (simp add: case_prod_beta queue_rules fun_upd_def)
  qed
qed simp

lemma priority_fifo:
  assumes "up r" "qv r = (\<lambda>_. [])" "\<And>j. j \<in> set js \<Longrightarrow> wire j"
  shows "fst (pop_all Q n (push_all Q js r)) = take n (sort_key (\<lambda>j. level (job_Priority j)) js)"
  using pop_all_served [of "push_all Q js r" n] push_all_qv [OF assms(1,3)] assms(2)
  by (simp add: served_def sort_by_level)

end

text \<open>
  One Redis server behind both ports: the queue never touches the cache's keys, nor the cache
  the queue's lists.
\<close>

locale redis_contract =
  cache_contract C ents up ckey elapse + queue_contract Q qv dlq up wire
  for C :: "'r Cache_port" and ents up ckey elapse
    and Q :: "'r Queue_port" and qv dlq wire +
  assumes push_ents: "up r \<Longrightarrow> wire j \<Longrightarrow> ents (snd (qPush Q None j r)) = ents r"
    and pop_ents: "up r \<Longrightarrow> ents (snd (qPop Q None r)) = ents r"
    and dead_ents: "up r \<Longrightarrow> wire j \<Longrightarrow> ents (snd (qPushDeadLetter Q None j r)) = ents r"
    and setnx_lists: "up r \<Longrightarrow> ckey k \<Longrightarrow> whole_ms t \<Longrightarrow>
      qv (snd (cSetNX C None k v t r)) = qv r \<and> dlq (snd (cSetNX C None k v t r)) = dlq r"
    and get_lists: "up r \<Longrightarrow> ckey k \<Longrightarrow>
      qv (snd (cGet C None k r)) = qv r \<and> dlq (snd (cGet C None k r)) = dlq r"
    and set_lists: "up r \<Longrightarrow> ckey k \<Longrightarrow> whole_ms t \<Longrightarrow>
      qv (snd (cSet C None k v t r)) = qv r \<and> dlq (snd (cSet C None k v t r)) = dlq r"
    and incr_lists: "up r \<Longrightarrow> ckey k \<Longrightarrow>
      qv (snd (cIncr C None k r)) = qv r \<and> dlq (snd (cIncr C None k r)) = dlq r"
    and del_lists: "up r \<Longrightarrow> ckey k \<Longrightarrow>
      qv (snd (cDel C None k r)) = qv r \<and> dlq (snd (cDel C None k r)) = dlq r"
    and elapse_lists: "qv (elapse d r) = qv r \<and> dlq (elapse d r) = dlq r"
begin

lemmas frame_rules =
  push_ents pop_ents dead_ents
  setnx_lists [THEN conjunct1] setnx_lists [THEN conjunct2]
  get_lists [THEN conjunct1] get_lists [THEN conjunct2]
  set_lists [THEN conjunct1] set_lists [THEN conjunct2]
  incr_lists [THEN conjunct1] incr_lists [THEN conjunct2]
  del_lists [THEN conjunct1] del_lists [THEN conjunct2]
lemmas redis_rules = cache_rules queue_rules frame_rules

end

text \<open>
  The store contract, over the tables a database holds. Storing may change a value: a JSONB
  column normalises a payload (\<open>np\<close>), a timestamp column rounds (\<open>na\<close>). \<open>oktext\<close> and
  \<open>okjson\<close> are the values the columns accept, \<open>dok\<close> says the database is reachable and
  consistent.
\<close>

record tables =
  t_jobs :: "string \<Rightarrow> Job option"
  t_atts :: "JobAttempt list"
  t_regs :: "Registration list"
  t_pays :: "string \<Rightarrow> PaymentEvent option"
  t_scans :: "QRScanEvent list"
  t_notes :: "NotificationEvent list"
  t_audits :: "AuditLog list"

text \<open>
  The time stamps a column of type \<open>TIMESTAMPTZ\<close> holds, from 4714 BC to 294276 AD, and a clock that
  stays within them. An \<open>INT\<close> column holds 32 bits; a job is counted one attempt past its retries.
\<close>

definition stamp_ok :: "time \<Rightarrow> bool" where
  "stamp_ok t \<longleftrightarrow> - 210866803200 * second \<le> t \<and> t < 9224318016000 * second"

definition clock_ok :: "runtime \<Rightarrow> bool" where
  "clock_ok E \<longleftrightarrow> (\<forall>n. stamp_ok (time_at E n))"

lemma clock_okD: "clock_ok E \<Longrightarrow> stamp_ok (time_at E n)"
  by (simp add: clock_ok_def)

definition same_row :: "Job \<Rightarrow> Job \<Rightarrow> bool" where
  "same_row a b \<longleftrightarrow>
     job_ID a = job_ID b \<and> job_JobType a = job_JobType b \<and> job_Payload a = job_Payload b \<and>
     job_MaxRetries a = job_MaxRetries b \<and> job_Priority a = job_Priority b \<and>
     job_IdempotencyKey a = job_IdempotencyKey b \<and> job_TraceID a = job_TraceID b \<and>
     job_CreatedAt a = job_CreatedAt b"

definition stored_job :: "(string \<Rightarrow> string) \<Rightarrow> (time \<Rightarrow> time) \<Rightarrow> Job \<Rightarrow> Job" where
  "stored_job np na j = j\<lparr>job_Payload := np (job_Payload j), job_CreatedAt := na (job_CreatedAt j),
     job_UpdatedAt := na (job_UpdatedAt j), job_ProcessedAt := map_option na (job_ProcessedAt j)\<rparr>"

definition okjob :: "(string \<Rightarrow> bool) \<Rightarrow> (string \<Rightarrow> bool) \<Rightarrow> Job \<Rightarrow> bool" where
  "okjob oktext okjson j \<longleftrightarrow> oktext (job_ID j) \<and> oktext (job_JobType j) \<and> okjson (job_Payload j) \<and>
     oktext (job_Status j) \<and> oktext (job_Priority j) \<and> oktext (job_IdempotencyKey j) \<and>
     oktext (job_TraceID j) \<and> oktext (job_ErrorMessage j) \<and>
     0 \<le> job_RetryCount j \<and> job_RetryCount j < 2 ^ 31 - 1 \<and>
     0 \<le> job_MaxRetries j \<and> job_MaxRetries j < 2 ^ 31 - 1 \<and>
     stamp_ok (job_CreatedAt j) \<and> stamp_ok (job_UpdatedAt j) \<and> pred_option stamp_ok (job_ProcessedAt j)"

definition okatt :: "(string \<Rightarrow> bool) \<Rightarrow> JobAttempt \<Rightarrow> bool" where
  "okatt oktext a \<longleftrightarrow> oktext (att_JobID a) \<and> oktext (att_Status a) \<and> oktext (att_Error a) \<and> int32 (att_Attempt a) \<and>
     int64 (att_DurationMS a) \<and> stamp_ok (att_CreatedAt a)"

definition okpay :: "(string \<Rightarrow> bool) \<Rightarrow> PaymentEvent \<Rightarrow> bool" where
  "okpay oktext p \<longleftrightarrow> list_all oktext [pe_ID p, pe_JobID p, pe_GatewayOrderID p,
        pe_PaymentID p, pe_Status p, pe_Currency p] \<and> int64 (pe_AmountCents p) \<and>
     pred_option stamp_ok (pe_ProcessedAt p) \<and> stamp_ok (pe_CreatedAt p)"

text \<open>The row of an order keeps its identifier or takes the one of the event.\<close>

definition payment_id :: "tables \<Rightarrow> PaymentEvent \<Rightarrow> PaymentEvent \<Rightarrow> bool" where
  "payment_id t p e \<longleftrightarrow> pe_ID e = pe_ID p \<or> (\<exists>e0. t_pays t (pe_GatewayOrderID p) = Some e0 \<and> pe_ID e = pe_ID e0)"

text \<open>No other order has the identifier of the payment row.\<close>

definition fresh_payment :: "tables \<Rightarrow> PaymentEvent \<Rightarrow> bool" where
  "fresh_payment t p \<longleftrightarrow> (\<forall>k e. t_pays t k = Some e \<longrightarrow> pe_ID e = pe_ID p \<longrightarrow> k = pe_GatewayOrderID p)"

definition same_payment :: "PaymentEvent \<Rightarrow> PaymentEvent \<Rightarrow> bool" where
  "same_payment a b \<longleftrightarrow> pe_GatewayOrderID a = pe_GatewayOrderID b \<and>
     pe_PaymentID a = pe_PaymentID b \<and> pe_Status a = pe_Status b \<and>
     pe_AmountCents a = pe_AmountCents b \<and> pe_Currency a = pe_Currency b"

definition same_audit :: "AuditLog \<Rightarrow> AuditLog \<Rightarrow> bool" where
  "same_audit a b \<longleftrightarrow> al_EntityType a = al_EntityType b \<and> al_EntityID a = al_EntityID b \<and>
     al_Action a = al_Action b \<and> al_TraceID a = al_TraceID b"

locale store_contract =
  fixes S :: "'d Store_port"
    and tab :: "'d \<Rightarrow> tables"
    and dok :: "'d \<Rightarrow> bool"
    and oktext :: "string \<Rightarrow> bool"
    and okjson :: "string \<Rightarrow> bool"
    and np :: "string \<Rightarrow> string"
    and na :: "time \<Rightarrow> time"
  assumes create_result: "dok d \<Longrightarrow> okjob oktext okjson j \<Longrightarrow> t_jobs (tab d) (job_ID j) = None \<Longrightarrow>
      fst (sCreate S None j d) = None"
    and create_tab: "dok d \<Longrightarrow> okjob oktext okjson j \<Longrightarrow> t_jobs (tab d) (job_ID j) = None \<Longrightarrow>
      tab (snd (sCreate S None j d)) =
        (tab d)\<lparr>t_jobs := (t_jobs (tab d))(job_ID j \<mapsto> stored_job np na j)\<rparr>"
    and create_dok: "dok d \<Longrightarrow> okjob oktext okjson j \<Longrightarrow> t_jobs (tab d) (job_ID j) = None \<Longrightarrow>
      dok (snd (sCreate S None j d))"
    and update_result: "dok d \<Longrightarrow> okjob oktext okjson j \<Longrightarrow>
      t_jobs (tab d) (job_ID j) = Some j0 \<Longrightarrow> same_row (stored_job np na j) j0 \<Longrightarrow>
      fst (sUpdate S None j d) = None"
    and update_tab: "dok d \<Longrightarrow> okjob oktext okjson j \<Longrightarrow>
      t_jobs (tab d) (job_ID j) = Some j0 \<Longrightarrow> same_row (stored_job np na j) j0 \<Longrightarrow>
      tab (snd (sUpdate S None j d)) =
        (tab d)\<lparr>t_jobs := (t_jobs (tab d))(job_ID j \<mapsto> stored_job np na j)\<rparr>"
    and update_dok: "dok d \<Longrightarrow> okjob oktext okjson j \<Longrightarrow>
      t_jobs (tab d) (job_ID j) = Some j0 \<Longrightarrow> same_row (stored_job np na j) j0 \<Longrightarrow>
      dok (snd (sUpdate S None j d))"
    and update_missing: "dok d \<Longrightarrow> okjob oktext okjson j \<Longrightarrow>
      t_jobs (tab d) (job_ID j) = None \<Longrightarrow> sUpdate S None j d = (Some (Sentinel ErrNotFound), d)"
    and getbyid_result: "dok d \<Longrightarrow> oktext i \<Longrightarrow> fst (sGetByID S None i d) =
      (case t_jobs (tab d) i of None \<Rightarrow> Inl (Sentinel ErrNotFound) | Some j \<Rightarrow> Inr j)"
    and getbyid_same: "dok d \<Longrightarrow> oktext i \<Longrightarrow> snd (sGetByID S None i d) = d"
    and attempt_result: "dok d \<Longrightarrow> t_jobs (tab d) (att_JobID a) \<noteq> None \<Longrightarrow>
      okatt oktext a \<Longrightarrow> fst (sAddAttempt S None a d) = None"
    and attempt_tab: "dok d \<Longrightarrow> t_jobs (tab d) (att_JobID a) \<noteq> None \<Longrightarrow>
      okatt oktext a \<Longrightarrow> tab (snd (sAddAttempt S None a d)) =
        (tab d)\<lparr>t_atts := t_atts (tab d) @ [a\<lparr>att_CreatedAt := na (att_CreatedAt a)\<rparr>]\<rparr>"
    and attempt_dok: "dok d \<Longrightarrow> t_jobs (tab d) (att_JobID a) \<noteq> None \<Longrightarrow>
      okatt oktext a \<Longrightarrow> dok (snd (sAddAttempt S None a d))"
begin

lemmas store_rules =
  create_result create_tab create_dok update_result update_tab update_dok
  getbyid_result getbyid_same attempt_result attempt_tab attempt_dok

end

text \<open>The event tables the processors write.\<close>

locale event_contract = store_contract S tab dok oktext okjson np na
  for S :: "'d Store_port" and tab dok oktext okjson np na +
  assumes payment_upsert: "dok d \<Longrightarrow> okpay oktext p \<Longrightarrow> fresh_payment (tab d) p \<Longrightarrow>
      fst (sUpsertPaymentEvent S None p d) = None \<and> dok (snd (sUpsertPaymentEvent S None p d)) \<and>
      (\<exists>e. same_payment e p \<and> payment_id (tab d) p e \<and> tab (snd (sUpsertPaymentEvent S None p d)) =
         (tab d)\<lparr>t_pays := (t_pays (tab d))(pe_GatewayOrderID p \<mapsto> e)\<rparr>)"
    and scan_create: "dok d \<Longrightarrow> qs_ID e \<notin> qs_ID ` set (t_scans (tab d)) \<Longrightarrow>
      list_all oktext [qs_ID e, qs_JobID e, qs_QRCode e, qs_EventID e, qs_GateID e, qs_ScannedBy e] \<Longrightarrow>
      stamp_ok (qs_CreatedAt e) \<Longrightarrow>
      fst (sCreateQRScanEvent S None e d) = None \<and> dok (snd (sCreateQRScanEvent S None e d)) \<and>
      tab (snd (sCreateQRScanEvent S None e d)) = (tab d)\<lparr>t_scans := t_scans (tab d) @
        [e\<lparr>qs_CreatedAt := na (qs_CreatedAt e)\<rparr>]\<rparr>"
    and reg_create: "dok d \<Longrightarrow> reg_ID g \<notin> reg_ID ` set (t_regs (tab d)) \<Longrightarrow>
      list_all oktext [reg_ID g, reg_JobID g, reg_EventID g, reg_AttendeeName g, reg_Email g,
        reg_Phone g, reg_TicketType g, reg_Status g] \<Longrightarrow> stamp_ok (reg_CreatedAt g) \<Longrightarrow>
      fst (sCreateRegistration S None g d) = None \<and> dok (snd (sCreateRegistration S None g d)) \<and>
      tab (snd (sCreateRegistration S None g d)) = (tab d)\<lparr>t_regs := t_regs (tab d) @
        [g\<lparr>reg_CreatedAt := na (reg_CreatedAt g)\<rparr>]\<rparr>"
    and note_create: "dok d \<Longrightarrow> ne_ID n \<notin> ne_ID ` set (t_notes (tab d)) \<Longrightarrow>
      list_all oktext [ne_ID n, ne_JobID n, ne_Channel n, ne_Recipient n, ne_Template n, ne_Status n] \<Longrightarrow>
      int32 (ne_Attempts n) \<Longrightarrow> pred_option stamp_ok (ne_SentAt n) \<Longrightarrow> stamp_ok (ne_CreatedAt n) \<Longrightarrow>
      fst (sCreateNotificationEvent S None n d) = None \<and>
      dok (snd (sCreateNotificationEvent S None n d)) \<and>
      tab (snd (sCreateNotificationEvent S None n d)) = (tab d)\<lparr>t_notes := t_notes (tab d) @
        [n\<lparr>ne_SentAt := map_option na (ne_SentAt n), ne_CreatedAt := na (ne_CreatedAt n)\<rparr>]\<rparr>"
    and audit_create: "dok d \<Longrightarrow> okjson (al_Detail l) \<Longrightarrow>
      list_all oktext [al_EntityType l, al_EntityID l, al_Action l, al_TraceID l] \<Longrightarrow> stamp_ok (al_CreatedAt l) \<Longrightarrow>
      fst (sCreateAuditLog S None l d) = None \<and> dok (snd (sCreateAuditLog S None l d)) \<and>
      (\<exists>l'. same_audit l' l \<and> tab (snd (sCreateAuditLog S None l d)) =
         (tab d)\<lparr>t_audits := t_audits (tab d) @ [l']\<rparr>)"

lemma stored_job_simps [simp]:
  "job_ID (stored_job np na j) = job_ID j" "job_JobType (stored_job np na j) = job_JobType j"
  "job_Status (stored_job np na j) = job_Status j"
  "job_RetryCount (stored_job np na j) = job_RetryCount j"
  "job_MaxRetries (stored_job np na j) = job_MaxRetries j"
  "job_Priority (stored_job np na j) = job_Priority j"
  "job_IdempotencyKey (stored_job np na j) = job_IdempotencyKey j"
  "job_TraceID (stored_job np na j) = job_TraceID j"
  "job_ErrorMessage (stored_job np na j) = job_ErrorMessage j"
  "job_Payload (stored_job np na j) = np (job_Payload j)"
  "job_CreatedAt (stored_job np na j) = na (job_CreatedAt j)"
  by (simp_all add: stored_job_def)

end
