(* ===== verification/Redis_Client.thy ===== *)
theory Redis_Client
  imports Ports
begin

text \<open>
  The boundary to code outside the repository: the go-redis client the adapters call and the
  \<open>encoding/json\<close> functions they use. Both are parameters of the model, records of functions.
  The locale \<open>redis_laws\<close> collects the documented behaviour of the Redis commands in terms of
  the lst and strings the server keeps; the reference server at the end satisfies it.
\<close>

section \<open>The client and the JSON library\<close>

record 'r redis_client =
  rLPush :: "ctx \<Rightarrow> string \<Rightarrow> string \<Rightarrow> 'r \<Rightarrow> (goerr + int) \<times> 'r"
  rBRPop :: "ctx \<Rightarrow> duration \<Rightarrow> string list \<Rightarrow> 'r \<Rightarrow> (goerr + string list) \<times> 'r"
  rLLen :: "ctx \<Rightarrow> string \<Rightarrow> 'r \<Rightarrow> (goerr + int) \<times> 'r"
  rPipeLLen :: "ctx \<Rightarrow> string list \<Rightarrow> 'r \<Rightarrow> (goerr + int list) \<times> 'r"
  rLRange :: "ctx \<Rightarrow> string \<Rightarrow> int \<Rightarrow> int \<Rightarrow> 'r \<Rightarrow> (goerr + string list) \<times> 'r"
  rSetNX :: "ctx \<Rightarrow> string \<Rightarrow> string \<Rightarrow> duration \<Rightarrow> 'r \<Rightarrow> (goerr + bool) \<times> 'r"
  rGet :: "ctx \<Rightarrow> string \<Rightarrow> 'r \<Rightarrow> (goerr + string) \<times> 'r"
  rSet :: "ctx \<Rightarrow> string \<Rightarrow> string \<Rightarrow> duration \<Rightarrow> 'r \<Rightarrow> (goerr + string) \<times> 'r"
  rIncr :: "ctx \<Rightarrow> string \<Rightarrow> 'r \<Rightarrow> (goerr + int) \<times> 'r"
  rDel :: "ctx \<Rightarrow> string \<Rightarrow> 'r \<Rightarrow> (goerr + int) \<times> 'r"
  rPing :: "ctx \<Rightarrow> 'r \<Rightarrow> (goerr + string) \<times> 'r"

record json_lib =
  json_Valid :: "string \<Rightarrow> bool"
  json_Marshal_Job :: "Job \<Rightarrow> goerr + string"
  json_Unmarshal_Job :: "string \<Rightarrow> goerr + Job"
  json_Unmarshal_Registration :: "string \<Rightarrow> goerr + RegistrationPayload"
  json_Unmarshal_Payment :: "string \<Rightarrow> goerr + PaymentWebhookPayload"
  json_Unmarshal_QRScan :: "string \<Rightarrow> goerr + QRScanPayload"
  json_Unmarshal_Notification :: "string \<Rightarrow> goerr + NotificationPayload"
  json_Marshal_Notification :: "NotificationPayload \<Rightarrow> goerr + string"

text \<open>The error of a result, if any (\<open>cmd.Err()\<close>).\<close>

fun err_of :: "goerr + 'a \<Rightarrow> goerr option" where
  "err_of (Inl e) = Some e"
| "err_of (Inr _) = None"

text \<open>A job survives serialisation when its encoding decodes to the same job.\<close>

definition wire :: "json_lib \<Rightarrow> Job \<Rightarrow> bool" where
  "wire J j = (case json_Marshal_Job J j of Inl _ \<Rightarrow> False
               | Inr b \<Rightarrow> json_Unmarshal_Job J b = Inr j)"

section \<open>Documented behaviour of the commands\<close>

text \<open>
  \<open>lst\<close> is the list value of a key, leftmost element first; \<open>ents\<close> its string value and
  time to live; a key holds at most one of the two. \<open>up\<close> says the server answers. \<open>elapse\<close> is
  the passing of time. A command whose context has ended is not sent.
\<close>

locale redis_laws =
  fixes R :: "'r redis_client"
    and lst :: "'r \<Rightarrow> string \<Rightarrow> string list"
    and ents :: "'r \<Rightarrow> string \<Rightarrow> entry option"
    and up :: "'r \<Rightarrow> bool"
    and elapse :: "duration \<Rightarrow> 'r \<Rightarrow> 'r"
  assumes lpush: "up r \<Longrightarrow> ents r k = None \<Longrightarrow> \<exists>r'. rLPush R None k v r =
        (Inr (int (length (lst r k)) + 1), r') \<and>
        lst r' = (lst r)(k := v # lst r k) \<and> ents r' = ents r \<and> up r'"
    and brpop: "up r \<Longrightarrow> (\<And>k. k \<in> set ks \<Longrightarrow> ents r k = None) \<Longrightarrow>
        (case find (\<lambda>k. lst r k \<noteq> []) ks of
           None \<Rightarrow> rBRPop R None t ks r = (Inl (Sentinel redis_Nil), r)
         | Some k \<Rightarrow> \<exists>r'. rBRPop R None t ks r = (Inr [k, last (lst r k)], r') \<and>
             lst r' = (lst r)(k := butlast (lst r k)) \<and> ents r' = ents r \<and> up r')"
    and llen: "up r \<Longrightarrow> ents r k = None \<Longrightarrow>
        rLLen R None k r = (Inr (int (length (lst r k))), r)"
    and pipe_llen: "up r \<Longrightarrow> (\<And>k. k \<in> set ks \<Longrightarrow> ents r k = None) \<Longrightarrow>
        rPipeLLen R None ks r = (Inr (map (\<lambda>k. int (length (lst r k))) ks), r)"
    and lrange: "up r \<Longrightarrow> ents r k = None \<Longrightarrow> 0 \<le> n \<Longrightarrow>
        rLRange R None k 0 n r = (Inr (take (nat n + 1) (lst r k)), r)"
    and setnx: "up r \<Longrightarrow> lst r k = [] \<Longrightarrow> whole_ms t \<Longrightarrow> \<exists>r'. rSetNX R None k v t r =
        (Inr (ents r k = None), r') \<and> lst r' = lst r \<and> up r' \<and>
        ents r' = (if ents r k = None then (ents r)(k \<mapsto> (v, Some t)) else ents r)"
    and get: "up r \<Longrightarrow> lst r k = [] \<Longrightarrow> rGet R None k r =
        (case ents r k of None \<Rightarrow> (Inl (Sentinel redis_Nil), r) | Some e \<Rightarrow> (Inr (fst e), r))"
    and set: "up r \<Longrightarrow> lst r k = [] \<Longrightarrow> whole_ms t \<Longrightarrow> \<exists>r'. rSet R None k v t r =
        (Inr ''OK'', r') \<and> lst r' = lst r \<and> up r' \<and> ents r' = (ents r)(k \<mapsto> (v, Some t))"
    and incr_new: "up r \<Longrightarrow> lst r k = [] \<Longrightarrow> ents r k = None \<Longrightarrow>
        \<exists>r'. rIncr R None k r = (Inr 1, r') \<and> lst r' = lst r \<and> up r' \<and>
          ents r' = (ents r)(k \<mapsto> (itoa 1, None))"
    and incr_old: "up r \<Longrightarrow> lst r k = [] \<Longrightarrow> ents r k = Some (itoa n, u) \<Longrightarrow>
        \<bar>n\<bar> + 1 < 2 ^ 63 \<Longrightarrow>
        \<exists>r'. rIncr R None k r = (Inr (n + 1), r') \<and> lst r' = lst r \<and> up r' \<and>
          ents r' = (ents r)(k \<mapsto> (itoa (n + 1), u))"
    and incr_lists: "up r \<Longrightarrow> lst r k = [] \<Longrightarrow>
        lst (snd (rIncr R None k r)) = lst r \<and> up (snd (rIncr R None k r)) \<and>
        (\<forall>k'. k' \<noteq> k \<longrightarrow> ents (snd (rIncr R None k r)) k' = ents r k')"
    and del: "up r \<Longrightarrow> lst r k = [] \<Longrightarrow> \<exists>n r'. rDel R None k r = (Inr n, r') \<and>
        lst r' = lst r \<and> up r' \<and> ents r' = (ents r)(k := None)"
    and ended_lpush: "rLPush R (Some e) k v r = (Inl (ctx_error e), r)"
    and ended_brpop: "rBRPop R (Some e) t ks r = (Inl (ctx_error e), r)"
    and ended_setnx: "rSetNX R (Some e) k v t r = (Inl (ctx_error e), r)"
    and ended_get: "rGet R (Some e) k r = (Inl (ctx_error e), r)"
    and ended_set: "rSet R (Some e) k v t r = (Inl (ctx_error e), r)"
    and ended_incr: "rIncr R (Some e) k r = (Inl (ctx_error e), r)"
    and ended_del: "rDel R (Some e) k r = (Inl (ctx_error e), r)"
    and elapse_ents: "0 \<le> d \<Longrightarrow> ents (elapse d r) = (\<lambda>k. age d (ents r k))"
    and elapse_lists: "lst (elapse d r) = lst r"

section \<open>A reference server\<close>

text \<open>
  Lists, strings with their remaining time to live, and whether the server is reachable. An
  unreachable server refuses every command; a command on a key of the other kind fails.
\<close>

record ref_redis =
  rf_lists :: "string \<Rightarrow> string list"
  rf_ents :: "string \<Rightarrow> entry option"
  rf_up :: bool

definition ref_refused :: goerr where
  "ref_refused = ErrorString ''dial tcp: connect: connection refused''"

definition ref_wrongtype :: goerr where
  "ref_wrongtype =
     ErrorString ''WRONGTYPE Operation against a key holding the wrong kind of value''"

definition ref_notint :: goerr where
  "ref_notint = ErrorString ''ERR value is not an integer or out of range''"

text \<open>Run a command: the context first, then the connection.\<close>

definition ref_run :: "ctx \<Rightarrow> (ref_redis \<Rightarrow> (goerr + 'a) \<times> ref_redis) \<Rightarrow>
    ref_redis \<Rightarrow> (goerr + 'a) \<times> ref_redis" where
  "ref_run c f r = (case c of Some e \<Rightarrow> (Inl (ctx_error e), r)
     | None \<Rightarrow> if rf_up r then f r else (Inl ref_refused, r))"

text \<open>Integers as \<open>INCR\<close> reads them: an optional minus sign and decimal digits.\<close>

fun parse_dec :: "nat \<Rightarrow> string \<Rightarrow> nat option" where
  "parse_dec a [] = Some a"
| "parse_dec a (c # cs) =
     (let n = of_char c :: nat in
      if 48 \<le> n \<and> n \<le> 57 then parse_dec (10 * a + (n - 48)) cs else None)"

definition parse_int :: "string \<Rightarrow> int option" where
  "parse_int s = (case s of [] \<Rightarrow> None
     | c # cs \<Rightarrow> if c = CHR ''-''
         then (if cs = [] then None else map_option (\<lambda>n. - int n) (parse_dec 0 cs))
         else map_option int (parse_dec 0 s))"

definition ref_put :: "string \<Rightarrow> string \<Rightarrow> duration option \<Rightarrow> ref_redis \<Rightarrow> ref_redis" where
  "ref_put k v t r = r\<lparr>rf_ents := (rf_ents r)(k \<mapsto> (v, t))\<rparr>"

definition ref_client :: "ref_redis redis_client" where
  "ref_client =
     \<lparr> rLPush = (\<lambda>c k v. ref_run c (\<lambda>r. if rf_ents r k \<noteq> None then (Inl ref_wrongtype, r)
           else (Inr (int (length (rf_lists r k)) + 1),
                 r\<lparr>rf_lists := (rf_lists r)(k := v # rf_lists r k)\<rparr>))),
       rBRPop = (\<lambda>c t ks. ref_run c (\<lambda>r. case find (\<lambda>k. rf_lists r k \<noteq> []) ks of
             None \<Rightarrow> (Inl (Sentinel redis_Nil), r)
           | Some k \<Rightarrow> (Inr [k, last (rf_lists r k)],
                 r\<lparr>rf_lists := (rf_lists r)(k := butlast (rf_lists r k))\<rparr>))),
       rLLen = (\<lambda>c k. ref_run c (\<lambda>r. if rf_ents r k \<noteq> None then (Inl ref_wrongtype, r)
           else (Inr (int (length (rf_lists r k))), r))),
       rPipeLLen = (\<lambda>c ks. ref_run c (\<lambda>r.
           if \<exists>k \<in> set ks. rf_ents r k \<noteq> None then (Inl ref_wrongtype, r)
           else (Inr (map (\<lambda>k. int (length (rf_lists r k))) ks), r))),
       rLRange = (\<lambda>c k i n. ref_run c (\<lambda>r. if rf_ents r k \<noteq> None then (Inl ref_wrongtype, r)
           else (Inr (drop (nat i) (take (nat n + 1) (rf_lists r k))), r))),
       rSetNX = (\<lambda>c k v t. ref_run c (\<lambda>r.
           if rf_ents r k \<noteq> None \<or> rf_lists r k \<noteq> [] then (Inr False, r)
           else (Inr True, ref_put k v (Some t) r))),
       rGet = (\<lambda>c k. ref_run c (\<lambda>r. if rf_lists r k \<noteq> [] then (Inl ref_wrongtype, r)
           else (case rf_ents r k of None \<Rightarrow> (Inl (Sentinel redis_Nil), r)
                 | Some e \<Rightarrow> (Inr (fst e), r)))),
       rSet = (\<lambda>c k v t. ref_run c (\<lambda>r.
           (Inr ''OK'', (ref_put k v (Some t) r)\<lparr>rf_lists := (rf_lists r)(k := [])\<rparr>))),
       rIncr = (\<lambda>c k. ref_run c (\<lambda>r. if rf_lists r k \<noteq> [] then (Inl ref_wrongtype, r)
           else (case rf_ents r k of None \<Rightarrow> (Inr 1, ref_put k (itoa 1) None r)
             | Some (v, t) \<Rightarrow> (case parse_int v of None \<Rightarrow> (Inl ref_notint, r)
                 | Some n \<Rightarrow> if n + 1 < 2 ^ 63 then (Inr (n + 1), ref_put k (itoa (n + 1)) t r)
                     else (Inl ref_notint, r))))),
       rDel = (\<lambda>c k. ref_run c (\<lambda>r.
           (Inr (if rf_ents r k \<noteq> None \<or> rf_lists r k \<noteq> [] then 1 else 0),
            r\<lparr>rf_ents := (rf_ents r)(k := None), rf_lists := (rf_lists r)(k := [])\<rparr>))),
       rPing = (\<lambda>c. ref_run c (\<lambda>r. (Inr ''PONG'', r))) \<rparr>"

definition ref_elapse :: "duration \<Rightarrow> ref_redis \<Rightarrow> ref_redis" where
  "ref_elapse d r = r\<lparr>rf_ents := (\<lambda>k. age d (rf_ents r k))\<rparr>"

definition ref_empty :: ref_redis where
  "ref_empty = \<lparr> rf_lists = (\<lambda>_. []), rf_ents = (\<lambda>_. None), rf_up = True \<rparr>"

lemma parse_dec_snoc:
  "parse_dec a (s @ [c]) = (case parse_dec a s of None \<Rightarrow> None | Some b \<Rightarrow> parse_dec b [c])"
  by (induction s arbitrary: a) (auto simp: Let_def)

lemma parse_dec_nat_dec: "parse_dec 0 (nat_dec n) = Some n"
proof (induction n rule: nat_dec.induct)
  case (1 n)
  then show ?case
    by (subst nat_dec.simps) (auto simp: parse_dec_snoc Let_def)
qed

lemma nat_dec_no_sign: "nat_dec n = c # cs \<Longrightarrow> c \<noteq> CHR ''-''"
proof (induction n arbitrary: c cs rule: nat_dec.induct)
  case (1 n)
  show ?case
  proof (cases "n < 10")
    case True
    have "char_of (48 + n) \<noteq> CHR ''-''"
    proof
      assume "char_of (48 + n) = CHR ''-''"
      then have "(of_char (char_of (48 + n) :: char) :: nat) = of_char (CHR ''-'')" by simp
      with True show False by simp
    qed
    with True "1.prems" show ?thesis by (subst (asm) nat_dec.simps) auto
  next
    case False
    with "1.prems" show ?thesis
      using "1.IH" by (subst (asm) (1) nat_dec.simps) (cases "nat_dec (n div 10)", auto)
  qed
qed

lemma parse_int_itoa [simp]: "parse_int (itoa n) = Some n"
proof (cases "n < 0")
  case True
  then show ?thesis by (simp add: itoa_def parse_int_def parse_dec_nat_dec)
next
  case False
  obtain c cs where s: "nat_dec (nat n) = c # cs" by (cases "nat_dec (nat n)") auto
  with False show ?thesis
    using parse_dec_nat_dec [of "nat n"] nat_dec_no_sign [OF s]
    by (simp add: itoa_def parse_int_def)
qed

interpretation ref: redis_laws ref_client rf_lists rf_ents rf_up ref_elapse
proof (unfold_locales, goal_cases)
  case (2 r ks t)
  then show ?case
    by (auto simp: ref_client_def ref_run_def split: option.split)
qed (auto simp: ref_client_def ref_run_def ref_put_def ref_elapse_def fun_eq_iff
      split: option.splits)

end
