(* ===== verification/Go_Json.thy ===== *)
theory Go_Json
  imports Redis_Client
begin

text \<open>
  What the gateway uses of \<open>encoding/json\<close>, \<open>unicode/utf8\<close> and the JSON form of \<open>time.Time\<close>:
  the recogniser behind \<open>json.Valid\<close>, decoding of strings, integers, times, raw messages and
  structs, and encoding with HTML escaping. A struct is decoded as the package does it: the whole
  input is validated first, then the members are visited in order, their names matched exactly or
  else up to case folding, unknown names skipped, a later duplicate replacing an earlier value. The
  messages of decoding errors are a parameter: no branch of the gateway depends on them.
\<close>

abbreviation (input) quote :: char where "quote \<equiv> CHR 0x22"
abbreviation (input) backslash :: char where "backslash \<equiv> CHR 0x5C"

definition byte_of :: "char \<Rightarrow> nat" where "byte_of c = of_char c"

definition is_ws :: "char \<Rightarrow> bool" where
  "is_ws c \<longleftrightarrow> c = CHR 0x20 \<or> c = CHR 0x09 \<or> c = CHR 0x0D \<or> c = CHR 0x0A"

definition is_digit :: "char \<Rightarrow> bool" where "is_digit c \<longleftrightarrow> 48 \<le> byte_of c \<and> byte_of c \<le> 57"

definition is_hex :: "char \<Rightarrow> bool" where
  "is_hex c \<longleftrightarrow> is_digit c \<or> 97 \<le> byte_of c \<and> byte_of c \<le> 102 \<or> 65 \<le> byte_of c \<and> byte_of c \<le> 70"

definition hex_val :: "char \<Rightarrow> nat" where
  "hex_val c = (if is_digit c then byte_of c - 48 else if 97 \<le> byte_of c then byte_of c - 87 else byte_of c - 55)"

section \<open>UTF-8 (unicode/utf8)\<close>

definition RuneError :: nat where "RuneError = 0xFFFD"

definition within :: "nat \<Rightarrow> nat \<Rightarrow> nat \<Rightarrow> bool" where "within lo hi n \<longleftrightarrow> lo \<le> n \<and> n \<le> hi"

text \<open>The sequences of two, three and four bytes, and their runes.\<close>

definition seq2 :: "nat \<Rightarrow> nat \<Rightarrow> bool" where
  "seq2 b0 b1 \<longleftrightarrow> within 0xC2 0xDF b0 \<and> within 0x80 0xBF b1"

definition seq3 :: "nat \<Rightarrow> nat \<Rightarrow> nat \<Rightarrow> bool" where
  "seq3 b0 b1 b2 \<longleftrightarrow> within 0xE0 0xEF b0 \<and>
     within (if b0 = 0xE0 then 0xA0 else 0x80) (if b0 = 0xED then 0x9F else 0xBF) b1 \<and> within 0x80 0xBF b2"

definition seq4 :: "nat \<Rightarrow> nat \<Rightarrow> nat \<Rightarrow> nat \<Rightarrow> bool" where
  "seq4 b0 b1 b2 b3 \<longleftrightarrow> within 0xF0 0xF4 b0 \<and>
     within (if b0 = 0xF0 then 0x90 else 0x80) (if b0 = 0xF4 then 0x8F else 0xBF) b1 \<and>
     within 0x80 0xBF b2 \<and> within 0x80 0xBF b3"

definition rune2 :: "nat \<Rightarrow> nat \<Rightarrow> nat" where
  "rune2 b0 b1 = (b0 - 0xC0) * 0x40 + (b1 - 0x80)"

definition rune3 :: "nat \<Rightarrow> nat \<Rightarrow> nat \<Rightarrow> nat" where
  "rune3 b0 b1 b2 = ((b0 - 0xE0) * 0x40 + (b1 - 0x80)) * 0x40 + (b2 - 0x80)"

definition rune4 :: "nat \<Rightarrow> nat \<Rightarrow> nat \<Rightarrow> nat \<Rightarrow> nat" where
  "rune4 b0 b1 b2 b3 = (((b0 - 0xF0) * 0x40 + (b1 - 0x80)) * 0x40 + (b2 - 0x80)) * 0x40 + (b3 - 0x80)"

text \<open>The first rune of a string and its width in bytes; an invalid byte is an error of width one.\<close>

definition DecodeRune :: "string \<Rightarrow> nat \<times> nat" where
  "DecodeRune s =
     (case s of [] \<Rightarrow> (RuneError, 0)
      | a # s1 \<Rightarrow>
          if byte_of a < 0x80 then (byte_of a, 1)
          else (case s1 of [] \<Rightarrow> (RuneError, 1)
             | b # s2 \<Rightarrow>
                 if seq2 (byte_of a) (byte_of b) then (rune2 (byte_of a) (byte_of b), 2)
                 else (case s2 of [] \<Rightarrow> (RuneError, 1)
                    | c # s3 \<Rightarrow>
                        if seq3 (byte_of a) (byte_of b) (byte_of c)
                        then (rune3 (byte_of a) (byte_of b) (byte_of c), 3)
                        else (case s3 of [] \<Rightarrow> (RuneError, 1)
                           | d # s4 \<Rightarrow>
                               if seq4 (byte_of a) (byte_of b) (byte_of c) (byte_of d)
                               then (rune4 (byte_of a) (byte_of b) (byte_of c) (byte_of d), 4)
                               else (RuneError, 1)))))"

definition EncodeRune :: "nat \<Rightarrow> string" where
  "EncodeRune r0 =
     (let r = (if 0x10FFFF < r0 \<or> within 0xD800 0xDFFF r0 then RuneError else r0)
      in map char_of
        (if r < 0x80 then [r]
         else if r < 0x800 then [0xC0 + r div 0x40, 0x80 + r mod 0x40]
         else if r < 0x10000 then [0xE0 + r div 0x1000, 0x80 + r div 0x40 mod 0x40, 0x80 + r mod 0x40]
         else [0xF0 + r div 0x40000, 0x80 + r div 0x1000 mod 0x40, 0x80 + r div 0x40 mod 0x40, 0x80 + r mod 0x40]))"

section \<open>The recogniser\<close>

fun skip_ws :: "string \<Rightarrow> string" where
  "skip_ws (c # s) = (if is_ws c then skip_ws s else c # s)"
| "skip_ws [] = []"

text \<open>From behind the opening quote to behind the closing one.\<close>

definition simple_escapes :: "char list" where
  "simple_escapes = [CHR ''b'', CHR ''f'', CHR ''n'', CHR ''r'', CHR ''t'', backslash, CHR ''/'', quote]"

definition scan_escape :: "string \<Rightarrow> string option" where
  "scan_escape s =
     (case s of
        [] \<Rightarrow> None
      | e # s1 \<Rightarrow>
          if e = CHR ''u'' then (if 4 \<le> length s1 \<and> list_all is_hex (take 4 s1) then Some (drop 4 s1) else None)
          else if e \<in> set simple_escapes then Some s1 else None)"

lemma scan_escape_length: "scan_escape s = Some r \<Longrightarrow> length r < length s"
  by (auto simp: scan_escape_def split: list.splits if_splits)

function scan_string :: "string \<Rightarrow> string option" where
  "scan_string [] = None"
| "scan_string (c # s) =
     (if c = quote then Some s
      else if c = backslash then (case scan_escape s of None \<Rightarrow> None | Some r \<Rightarrow> scan_string r)
      else if byte_of c < 0x20 then None else scan_string s)"
  by pat_completeness auto
termination by (relation "measure length") (auto dest: scan_escape_length)

definition scan_digits :: "string \<Rightarrow> string option" where
  "scan_digits s = (case s of c # s1 \<Rightarrow> if is_digit c then Some (dropWhile is_digit s1) else None | [] \<Rightarrow> None)"

definition scan_int :: "string \<Rightarrow> string option" where
  "scan_int s = (case s of [] \<Rightarrow> None
     | c # s1 \<Rightarrow> if c = CHR ''0'' then Some s1 else scan_digits s)"

definition scan_frac :: "string \<Rightarrow> string option" where
  "scan_frac s = (case s of c # s1 \<Rightarrow> if c = CHR ''.'' then scan_digits s1 else Some s | [] \<Rightarrow> Some s)"

definition scan_exp :: "string \<Rightarrow> string option" where
  "scan_exp s = (case s of [] \<Rightarrow> Some s
     | c # s1 \<Rightarrow> if c = CHR ''e'' \<or> c = CHR ''E''
         then scan_digits (case s1 of d # s2 \<Rightarrow> if d = CHR ''+'' \<or> d = CHR ''-'' then s2 else s1 | [] \<Rightarrow> s1)
         else Some s)"

definition scan_number :: "string \<Rightarrow> string option" where
  "scan_number s =
     Option.bind (scan_int (case s of c # s1 \<Rightarrow> if c = CHR ''-'' then s1 else s | [] \<Rightarrow> s))
       (\<lambda>s1. Option.bind (scan_frac s1) scan_exp)"

definition scan_lit :: "string \<Rightarrow> string \<Rightarrow> string option" where
  "scan_lit w s = (if strings_HasPrefix s w then Some (drop (length w) s) else None)"

text \<open>A value that is not an object or an array.\<close>

definition scan_atom :: "string \<Rightarrow> string option" where
  "scan_atom s =
     (case s of
        [] \<Rightarrow> None
      | c # s1 \<Rightarrow>
          if c = quote then scan_string s1
          else if c = CHR ''-'' \<or> is_digit c then scan_number s
          else if c = CHR ''t'' then scan_lit ''true'' s
          else if c = CHR ''f'' then scan_lit ''false'' s
          else if c = CHR ''n'' then scan_lit ''null'' s
          else None)"

text \<open>
  One value, at most \<open>d\<close> levels deep, and what follows it. The first argument is fuel: twice the
  length of the input is enough. \<open>scan_members\<close> and \<open>scan_elems\<close> start at the next name or value.
\<close>

fun scan_value :: "nat \<Rightarrow> nat \<Rightarrow> string \<Rightarrow> string option"
  and scan_members :: "nat \<Rightarrow> nat \<Rightarrow> string \<Rightarrow> string option"
  and scan_elems :: "nat \<Rightarrow> nat \<Rightarrow> string \<Rightarrow> string option" where
  "scan_value 0 d s = None"
| "scan_value (Suc n) d s =
     (case s of
        [] \<Rightarrow> None
      | c # s1 \<Rightarrow>
          if c = CHR ''{'' then
            (if d = 0 then None
             else case skip_ws s1 of [] \<Rightarrow> None
                  | e # s2 \<Rightarrow> if e = CHR ''}'' then Some s2 else scan_members n (d - 1) (e # s2))
          else if c = CHR ''['' then
            (if d = 0 then None
             else case skip_ws s1 of [] \<Rightarrow> None
                  | e # s2 \<Rightarrow> if e = CHR '']'' then Some s2 else scan_elems n (d - 1) (e # s2))
          else scan_atom s)"
| "scan_members 0 d s = None"
| "scan_members (Suc n) d s =
     (case s of
        [] \<Rightarrow> None
      | c # s1 \<Rightarrow>
          if c \<noteq> quote then None
          else case map_option skip_ws (scan_string s1) of
            None \<Rightarrow> None
          | Some [] \<Rightarrow> None
          | Some (e # s2) \<Rightarrow>
              if e \<noteq> CHR '':'' then None
              else case map_option skip_ws (scan_value n d (skip_ws s2)) of
                None \<Rightarrow> None
              | Some [] \<Rightarrow> None
              | Some (f # s3) \<Rightarrow>
                  if f = CHR ''}'' then Some s3
                  else if f = CHR '','' then scan_members n d (skip_ws s3) else None)"
| "scan_elems 0 d s = None"
| "scan_elems (Suc n) d s =
     (case map_option skip_ws (scan_value n d s) of
        None \<Rightarrow> None
      | Some [] \<Rightarrow> None
      | Some (f # s1) \<Rightarrow>
          if f = CHR '']'' then Some s1
          else if f = CHR '','' then scan_elems n d (skip_ws s1) else None)"

abbreviation max_depth :: nat where "max_depth \<equiv> 10000"

definition scan_json :: "string \<Rightarrow> string option" where
  "scan_json s = scan_value (2 * length s + 2) max_depth s"

definition json_valid :: "string \<Rightarrow> bool" where
  "json_valid s = (case scan_json (skip_ws s) of None \<Rightarrow> False | Some r \<Rightarrow> skip_ws r = [])"

section \<open>Decoding\<close>

definition getu4 :: "string \<Rightarrow> nat option" where
  "getu4 s = (case s of b # u # h1 # h2 # h3 # h4 # _ \<Rightarrow>
       if b = backslash \<and> u = CHR ''u'' \<and> is_hex h1 \<and> is_hex h2 \<and> is_hex h3 \<and> is_hex h4
       then Some (((hex_val h1 * 16 + hex_val h2) * 16 + hex_val h3) * 16 + hex_val h4) else None
     | _ \<Rightarrow> None)"

definition surrogate :: "nat \<Rightarrow> bool" where "surrogate r = within 0xD800 0xDFFF r"

text \<open>\<open>utf16.DecodeRune\<close>.\<close>

definition utf16_DecodeRune :: "nat \<Rightarrow> nat \<Rightarrow> nat" where
  "utf16_DecodeRune r1 r2 =
     (if within 0xD800 0xDBFF r1 \<and> within 0xDC00 0xDFFF r2
      then (r1 - 0xD800) * 0x400 + (r2 - 0xDC00) + 0x10000 else RuneError)"

definition escape_char :: "char \<Rightarrow> char" where
  "escape_char c = (if c = CHR ''b'' then CHR 0x08 else if c = CHR ''f'' then CHR 0x0C
     else if c = CHR ''n'' then CHR 0x0A else if c = CHR ''r'' then CHR 0x0D
     else if c = CHR ''t'' then CHR 0x09 else c)"

text \<open>The text between the quotes of a string the recogniser has passed.\<close>

function unquote :: "string \<Rightarrow> string" where
  "unquote [] = []"
| "unquote (c # s) =
     (if c = backslash then
        (case s of [] \<Rightarrow> []
         | e # s1 \<Rightarrow>
             if e = CHR ''u'' then
               (case getu4 (c # s) of None \<Rightarrow> []
                | Some rr \<Rightarrow>
                    if surrogate rr then
                      (let dec = (case getu4 (drop 5 s) of None \<Rightarrow> RuneError | Some r2 \<Rightarrow> utf16_DecodeRune rr r2)
                       in if dec \<noteq> RuneError then EncodeRune dec @ unquote (drop 11 s)
                          else EncodeRune RuneError @ unquote (drop 5 s))
                    else EncodeRune rr @ unquote (drop 5 s))
             else escape_char e # unquote s1)
      else if byte_of c < 0x80 then c # unquote s
      else (let (r, k) = DecodeRune (c # s) in EncodeRune r @ unquote (drop (k - 1) s)))"
  by pat_completeness auto
termination by (relation "measure length") auto

text \<open>
  The members of an object the recogniser has passed: the name as written between its quotes and
  the text of the value.
\<close>

fun members :: "nat \<Rightarrow> string \<Rightarrow> (string \<times> string) list" where
  "members 0 s = []"
| "members (Suc n) s =
     (case s of [] \<Rightarrow> []
      | c # s1 \<Rightarrow>
          (case scan_string s1 of None \<Rightarrow> []
           | Some r1 \<Rightarrow>
               (let name = take (length s1 - length r1 - 1) s1;
                    v = skip_ws (tl (skip_ws r1))
                in case scan_json v of None \<Rightarrow> []
                   | Some r2 \<Rightarrow> (name, take (length v - length r2) v) #
                       (case skip_ws r2 of f # s3 \<Rightarrow> if f = CHR '','' then members n (skip_ws s3) else []
                        | [] \<Rightarrow> []))))"

definition object_members :: "string \<Rightarrow> (string \<times> string) list" where
  "object_members s = (case s of c # s1 \<Rightarrow>
     (case skip_ws s1 of e # s2 \<Rightarrow> if e = CHR ''}'' then [] else members (length s) (e # s2) | [] \<Rightarrow> [])
   | [] \<Rightarrow> [])"

text \<open>
  Names are matched exactly or after folding, which for a name of ASCII letters also identifies
  the long s and the Kelvin sign with S and K.
\<close>

fun fold_name :: "string \<Rightarrow> string" where
  "fold_name [] = []"
| "fold_name (a # s) =
     (if within 97 122 (byte_of a) then char_of (byte_of a - 32) # fold_name s
      else if byte_of a = 0xC5 \<and> s \<noteq> [] \<and> byte_of (hd s) = 0xBF then CHR ''S'' # fold_name (tl s)
      else if byte_of a = 0xE2 \<and> 2 \<le> length s \<and> byte_of (s ! 0) = 0x84 \<and> byte_of (s ! 1) = 0xAA
      then CHR ''K'' # fold_name (tl (tl s))
      else a # fold_name s)"

definition field_of :: "string list \<Rightarrow> string \<Rightarrow> string option" where
  "field_of fs name =
     (if name \<in> set fs then Some name else find (\<lambda>f. fold_name f = fold_name name) fs)"

text \<open>
  Decoding into a field: \<^const>\<open>None\<close> is a type error, otherwise the new value; \<open>null\<close> leaves a
  string, an integer or a time as it is.
\<close>

definition dec_string :: "string \<Rightarrow> string \<Rightarrow> string option" where
  "dec_string old raw = (if hd raw = quote then Some (unquote (butlast (tl raw)))
     else if raw = ''null'' then Some old else None)"

definition digits_val :: "string \<Rightarrow> int" where
  "digits_val s = fold (\<lambda>c a. 10 * a + (of_char c - 48)) s 0"

definition parse_digits :: "string \<Rightarrow> int option" where
  "parse_digits s = (if s \<noteq> [] \<and> list_all is_digit s then Some (digits_val s) else None)"

text \<open>\<open>strconv.ParseInt(s, 10, 64)\<close> on a number the recogniser has passed.\<close>

definition dec_int64 :: "int \<Rightarrow> string \<Rightarrow> int option" where
  "dec_int64 old raw = (if raw = ''null'' then Some old
     else case (if hd raw = CHR ''-'' then map_option uminus (parse_digits (tl raw)) else parse_digits raw) of
       None \<Rightarrow> None | Some n \<Rightarrow> if - (2 ^ 63) \<le> n \<and> n < 2 ^ 63 then Some n else None)"

section \<open>Times\<close>

text \<open>Days before a year, counted from 1 January of year 0, and the calendar date of a day.\<close>

definition leap :: "int \<Rightarrow> bool" where "leap y \<longleftrightarrow> y mod 4 = 0 \<and> (y mod 100 \<noteq> 0 \<or> y mod 400 = 0)"

definition days_before :: "int \<Rightarrow> int" where
  "days_before y = 365 * y + (y + 3) div 4 - (y + 99) div 100 + (y + 399) div 400"

definition month_days :: "int \<Rightarrow> int list" where
  "month_days y = [31, if leap y then 29 else 28, 31, 30, 31, 30, 31, 31, 30, 31, 30, 31]"

definition epoch_days :: int where "epoch_days = 719528"

text \<open>The year a day falls into, from an estimate that is at most one too small or too large.\<close>

definition year_of :: "int \<Rightarrow> int" where
  "year_of d = (let y = 400 * d div 146097
     in if d < days_before y then y - 1 else if days_before (y + 1) \<le> d then y + 1 else y)"

fun month_of :: "int \<Rightarrow> int list \<Rightarrow> int \<Rightarrow> int \<times> int" where
  "month_of m [] d = (m, d + 1)"
| "month_of m (k # ks) d = (if d < k then (m, d + 1) else month_of (m + 1) ks (d - k))"

definition civil :: "int \<Rightarrow> int \<times> int \<times> int" where
  "civil d = (let y = year_of d; (m, dd) = month_of 1 (month_days y) (d - days_before y) in (y, m, dd))"

definition day_number :: "int \<Rightarrow> int \<Rightarrow> int \<Rightarrow> int" where
  "day_number y m d = days_before y + sum_list (take (nat (m - 1)) (month_days y)) + d - 1"

fun pad_dec :: "nat \<Rightarrow> int \<Rightarrow> string" where
  "pad_dec 0 n = []"
| "pad_dec (Suc k) n = pad_dec k (n div 10) @ [char_of (48 + n mod 10)]"

definition trim_zeros :: "string \<Rightarrow> string" where
  "trim_zeros s = rev (dropWhile (\<lambda>c. c = CHR ''0'') (rev s))"

abbreviation one_day :: duration where "one_day \<equiv> 86400000000000"

text \<open>
  \<open>Time.MarshalJSON\<close> of an instant in UTC: RFC 3339 with the fraction of a second without
  trailing zeros, an error outside the years 0 to 9999.
\<close>

definition format_time :: "time \<Rightarrow> string" where
  "format_time t =
     (let (y, m, d) = civil (t div one_day + epoch_days); ns = t mod one_day; f = ns mod second
      in pad_dec 4 y @ ''-'' @ pad_dec 2 m @ ''-'' @ pad_dec 2 d @ ''T'' @
         pad_dec 2 (ns div hour) @ '':'' @ pad_dec 2 (ns mod hour div minute) @ '':'' @
         pad_dec 2 (ns mod minute div second) @
         (if f = 0 then [] else ''.'' @ trim_zeros (pad_dec 9 f)) @ ''Z'')"

definition marshal_time :: "time \<Rightarrow> string option" where
  "marshal_time t = (let (y, _) = civil (t div one_day + epoch_days)
     in if 0 \<le> y \<and> y \<le> 9999 then Some (format_time t) else None)"

definition parse_uint :: "string \<Rightarrow> int \<Rightarrow> int \<Rightarrow> int option" where
  "parse_uint s lo hi = (case parse_digits s of None \<Rightarrow> None
     | Some n \<Rightarrow> if lo \<le> n \<and> n \<le> hi then Some n else None)"

definition slice :: "nat \<Rightarrow> nat \<Rightarrow> string \<Rightarrow> string" where "slice i n s = take n (drop i s)"

text \<open>The fraction of a second: nine digits count, further ones are dropped.\<close>

definition parse_frac :: "string \<Rightarrow> int \<times> string" where
  "parse_frac s =
     (case s of c # s1 \<Rightarrow>
        if c = CHR ''.'' \<and> s1 \<noteq> [] \<and> is_digit (hd s1)
        then (let ds = take 9 (takeWhile is_digit s1)
              in (the (parse_digits ds) * 10 ^ (9 - length ds), dropWhile is_digit s1))
        else (0, s)
      | [] \<Rightarrow> (0, s))"

definition parse_zone :: "string \<Rightarrow> int option" where
  "parse_zone s =
     (if s = ''Z'' then Some 0
      else if length s = 6 \<and> (s ! 0 = CHR ''-'' \<or> s ! 0 = CHR ''+'') \<and> s ! 3 = CHR '':''
      then (case (parse_uint (slice 1 2 s) 0 23, parse_uint (slice 4 2 s) 0 59) of
              (Some h, Some m) \<Rightarrow> Some ((if s ! 0 = CHR ''-'' then -1 else 1) * (h * 60 + m) * minute)
            | _ \<Rightarrow> None)
      else None)"

definition parse_time :: "string \<Rightarrow> time option" where
  "parse_time s =
     (if length s < 19 then None
      else case (parse_uint (slice 0 4 s) 0 9999, parse_uint (slice 5 2 s) 1 12) of
        (Some y, Some mo) \<Rightarrow>
          (case (parse_uint (slice 8 2 s) 1 (month_days y ! nat (mo - 1)), parse_uint (slice 11 2 s) 0 23,
                 parse_uint (slice 14 2 s) 0 59, parse_uint (slice 17 2 s) 0 59) of
             (Some d, Some h, Some mi, Some sec) \<Rightarrow>
               if s ! 4 = CHR ''-'' \<and> s ! 7 = CHR ''-'' \<and> s ! 10 = CHR ''T'' \<and>
                 s ! 13 = CHR '':'' \<and> s ! 16 = CHR '':''
               then (let (ns, rest) = parse_frac (drop 19 s)
                     in map_option (\<lambda>z. (day_number y mo d - epoch_days) * one_day + h * hour + mi * minute +
                          sec * second + ns - z) (parse_zone rest))
               else None
           | _ \<Rightarrow> None)
      | _ \<Rightarrow> None)"

text \<open>\<open>Time.UnmarshalJSON\<close> works on the text between the quotes, escapes and all.\<close>

definition dec_time :: "time \<Rightarrow> string \<Rightarrow> time option" where
  "dec_time old raw = (if raw = ''null'' then Some old
     else if hd raw = quote then parse_time (butlast (tl raw)) else None)"

definition dec_time_ptr :: "time option \<Rightarrow> string \<Rightarrow> time option option" where
  "dec_time_ptr old raw = (if raw = ''null'' then Some None else map_option Some (dec_time 0 raw))"

section \<open>Structs\<close>

text \<open>
  A struct is decoded by a setter per field. A type error in one member does not stop the others,
  but the call fails in the end, so that the values do not matter then.
\<close>

type_synonym 'a setters = "(string \<times> (string \<Rightarrow> 'a \<Rightarrow> 'a option)) list"

definition set_member :: "'a setters \<Rightarrow> string \<times> string \<Rightarrow> 'a option \<Rightarrow> 'a option" where
  "set_member fs m acc =
     (case field_of (map fst fs) (unquote (fst m)) of
        None \<Rightarrow> acc
      | Some f \<Rightarrow> Option.bind acc (the (map_of fs f) (snd m)))"

definition unmarshal :: "(string \<Rightarrow> string) \<Rightarrow> 'a setters \<Rightarrow> 'a \<Rightarrow> string \<Rightarrow> goerr + 'a" where
  "unmarshal msg fs zero s =
     (let s1 = skip_ws s; v = (case scan_json s1 of None \<Rightarrow> s1 | Some r \<Rightarrow> take (length s1 - length r) s1)
      in if \<not> json_valid s then Inl (ErrorString (msg s))
         else if v = ''null'' then Inr zero
         else if hd v \<noteq> CHR ''{'' then Inl (ErrorString (msg s))
         else (case fold (set_member fs) (object_members v) (Some zero) of
                 None \<Rightarrow> Inl (ErrorString (msg s)) | Some x \<Rightarrow> Inr x))"

definition str_field ::
  "('a \<Rightarrow> string) \<Rightarrow> ((string \<Rightarrow> string) \<Rightarrow> 'a \<Rightarrow> 'a) \<Rightarrow> string \<Rightarrow> 'a \<Rightarrow> 'a option" where
  "str_field get upd raw x = map_option (\<lambda>v. upd (\<lambda>_. v) x) (dec_string (get x) raw)"

definition int_field ::
  "('a \<Rightarrow> int) \<Rightarrow> ((int \<Rightarrow> int) \<Rightarrow> 'a \<Rightarrow> 'a) \<Rightarrow> string \<Rightarrow> 'a \<Rightarrow> 'a option" where
  "int_field get upd raw x = map_option (\<lambda>v. upd (\<lambda>_. v) x) (dec_int64 (get x) raw)"

definition time_field ::
  "('a \<Rightarrow> time) \<Rightarrow> ((time \<Rightarrow> time) \<Rightarrow> 'a \<Rightarrow> 'a) \<Rightarrow> string \<Rightarrow> 'a \<Rightarrow> 'a option" where
  "time_field get upd raw x = map_option (\<lambda>v. upd (\<lambda>_. v) x) (dec_time (get x) raw)"

definition job_setters :: "Job setters" where
  "job_setters =
     [(''id'', str_field job_ID job_ID_update), (''job_type'', str_field job_JobType job_JobType_update),
      (''payload'', \<lambda>raw x. Some (x\<lparr>job_Payload := raw\<rparr>)),
      (''status'', str_field job_Status job_Status_update),
      (''retry_count'', int_field job_RetryCount job_RetryCount_update),
      (''max_retries'', int_field job_MaxRetries job_MaxRetries_update),
      (''priority'', str_field job_Priority job_Priority_update),
      (''idempotency_key'', str_field job_IdempotencyKey job_IdempotencyKey_update),
      (''trace_id'', str_field job_TraceID job_TraceID_update),
      (''error_message'', str_field job_ErrorMessage job_ErrorMessage_update),
      (''created_at'', time_field job_CreatedAt job_CreatedAt_update),
      (''updated_at'', time_field job_UpdatedAt job_UpdatedAt_update),
      (''processed_at'', \<lambda>raw x. map_option (\<lambda>v. x\<lparr>job_ProcessedAt := v\<rparr>) (dec_time_ptr (job_ProcessedAt x) raw))]"

definition zero_job :: Job where
  "zero_job = \<lparr> job_ID = '''', job_JobType = '''', job_Payload = '''', job_Status = '''', job_RetryCount = 0,
     job_MaxRetries = 0, job_Priority = '''', job_IdempotencyKey = '''', job_TraceID = '''',
     job_ErrorMessage = '''', job_CreatedAt = zero_time, job_UpdatedAt = zero_time, job_ProcessedAt = None \<rparr>"

definition registration_setters :: "RegistrationPayload setters" where
  "registration_setters =
     [(''event_id'', str_field rp_EventID rp_EventID_update),
      (''attendee_name'', str_field rp_AttendeeName rp_AttendeeName_update),
      (''email'', str_field rp_Email rp_Email_update), (''phone'', str_field rp_Phone rp_Phone_update),
      (''ticket_type'', str_field rp_TicketType rp_TicketType_update)]"

definition payment_setters :: "PaymentWebhookPayload setters" where
  "payment_setters =
     [(''gateway_order_id'', str_field pw_GatewayOrderID pw_GatewayOrderID_update),
      (''payment_id'', str_field pw_PaymentID pw_PaymentID_update),
      (''payment_status'', str_field pw_PaymentStatus pw_PaymentStatus_update),
      (''amount_cents'', int_field pw_AmountCents pw_AmountCents_update),
      (''currency'', str_field pw_Currency pw_Currency_update)]"

definition scan_setters :: "QRScanPayload setters" where
  "scan_setters =
     [(''qr_code'', str_field qp_QRCode qp_QRCode_update), (''event_id'', str_field qp_EventID qp_EventID_update),
      (''gate_id'', str_field qp_GateID qp_GateID_update),
      (''scanned_by'', str_field qp_ScannedBy qp_ScannedBy_update)]"

definition notification_setters :: "NotificationPayload setters" where
  "notification_setters =
     [(''channel'', str_field np_Channel np_Channel_update),
      (''recipient'', str_field np_Recipient np_Recipient_update),
      (''template'', str_field np_Template np_Template_update),
      (''subject'', str_field np_Subject np_Subject_update), (''body'', str_field np_Body np_Body_update),
      (''event_id'', str_field np_EventID np_EventID_update)]"

section \<open>Encoding\<close>

definition hex4 :: "nat \<Rightarrow> string" where
  "hex4 n = [hex_digit (n div 4096 mod 16), hex_digit (n div 256 mod 16), hex_digit (n div 16 mod 16), hex_digit (n mod 16)]"

text \<open>A byte below \<open>0x80\<close> inside a string; \<open><\<close>, \<open>>\<close> and \<open>&\<close> are escaped as for HTML.\<close>

definition encode_byte :: "char \<Rightarrow> string" where
  "encode_byte c =
     (if c = quote \<or> c = backslash then [backslash, c]
      else if c = CHR 0x08 then [backslash, CHR ''b''] else if c = CHR 0x0C then [backslash, CHR ''f'']
      else if c = CHR 0x0A then [backslash, CHR ''n''] else if c = CHR 0x0D then [backslash, CHR ''r'']
      else if c = CHR 0x09 then [backslash, CHR ''t'']
      else if byte_of c < 0x20 \<or> c = CHR ''<'' \<or> c = CHR ''>'' \<or> c = CHR ''&''
      then backslash # CHR ''u'' # hex4 (byte_of c) else [c])"

function encode_chars :: "string \<Rightarrow> string" where
  "encode_chars [] = []"
| "encode_chars (c # s) =
     (if byte_of c < 0x80 then encode_byte c @ encode_chars s
      else (let (r, k) = DecodeRune (c # s)
            in (if r = RuneError \<and> k = 1 \<or> r = 0x2028 \<or> r = 0x2029 then backslash # CHR ''u'' # hex4 r
                else take k (c # s)) @ encode_chars (drop (k - 1) s)))"
  by pat_completeness auto
termination by (relation "measure length") auto

definition encode_string :: "string \<Rightarrow> string" where
  "encode_string s = quote # encode_chars s @ [quote]"

text \<open>
  \<open>compact\<close> with HTML escaping, for raw messages: spaces between tokens go. The first argument says
  whether the text is inside a string.
\<close>

fun compact :: "bool \<Rightarrow> string \<Rightarrow> string" where
  "compact b [] = []"
| "compact b (c # s) =
     (if c = CHR ''<'' \<or> c = CHR ''>'' \<or> c = CHR ''&'' then backslash # CHR ''u'' # hex4 (byte_of c) @ compact b s
      else if byte_of c = 0xE2 \<and> 2 \<le> length s \<and> byte_of (s ! 0) = 0x80 \<and> byte_of (s ! 1) div 2 = 0x54
      then backslash # CHR ''u'' # hex4 (0x2028 + byte_of (s ! 1) mod 2) @ compact b (drop 2 s)
      else if \<not> b then (if is_ws c then compact b s else c # compact (c = quote) s)
      else if c = backslash then (case s of [] \<Rightarrow> [c] | e # s1 \<Rightarrow> c # e # compact b s1)
      else c # compact (c \<noteq> quote) s)"

datatype jtree =
    JStr string | JInt int | JBool bool | JRaw string | JTime time
  | JObj "(string \<times> jtree) list" | JArr "jtree list"

fun commas :: "string list \<Rightarrow> string" where
  "commas [] = []"
| "commas [x] = x"
| "commas (x # y # ys) = x @ '','' @ commas (y # ys)"

text \<open>Gather the encodings of the parts, the first error winning.\<close>

fun all_right :: "(goerr + 'a) list \<Rightarrow> goerr + 'a list" where
  "all_right [] = Inr []"
| "all_right (Inl e # xs) = Inl e"
| "all_right (Inr x # xs) = (case all_right xs of Inl e \<Rightarrow> Inl e | Inr ys \<Rightarrow> Inr (x # ys))"

fun json_encode :: "(string \<Rightarrow> string) \<Rightarrow> jtree \<Rightarrow> goerr + string" where
  "json_encode msg (JStr s) = Inr (encode_string s)"
| "json_encode msg (JInt n) = Inr (itoa n)"
| "json_encode msg (JBool b) = Inr (if b then ''true'' else ''false'')"
| "json_encode msg (JRaw s) = (if s = '''' then Inr ''null''
     else if json_valid s then Inr (compact False s) else Inl (ErrorString (msg s)))"
| "json_encode msg (JTime t) = (case marshal_time t of None \<Rightarrow> Inl (ErrorString (msg ''''))
     | Some s \<Rightarrow> Inr (quote # s @ [quote]))"
| "json_encode msg (JObj fs) =
     (case all_right (map (\<lambda>(k, v). case json_encode msg v of Inl e \<Rightarrow> Inl e
                            | Inr t \<Rightarrow> Inr (encode_string k @ '':'' @ t)) fs) of
        Inl e \<Rightarrow> Inl e | Inr ts \<Rightarrow> Inr (''{'' @ commas ts @ ''}''))"
| "json_encode msg (JArr vs) =
     (case all_right (map (json_encode msg) vs) of Inl e \<Rightarrow> Inl e | Inr ts \<Rightarrow> Inr (''['' @ commas ts @ '']''))"

text \<open>A field with \<open>omitempty\<close>.\<close>

definition omitempty :: "string \<Rightarrow> string \<Rightarrow> (string \<times> jtree) list" where
  "omitempty k v = (if v = '''' then [] else [(k, JStr v)])"

definition job_tree :: "Job \<Rightarrow> jtree" where
  "job_tree j = JObj (
     [(''id'', JStr (job_ID j)), (''job_type'', JStr (job_JobType j)), (''payload'', JRaw (job_Payload j)),
      (''status'', JStr (job_Status j)), (''retry_count'', JInt (job_RetryCount j)),
      (''max_retries'', JInt (job_MaxRetries j)), (''priority'', JStr (job_Priority j)),
      (''idempotency_key'', JStr (job_IdempotencyKey j)), (''trace_id'', JStr (job_TraceID j))] @
     omitempty ''error_message'' (job_ErrorMessage j) @
     [(''created_at'', JTime (job_CreatedAt j)), (''updated_at'', JTime (job_UpdatedAt j))] @
     (case job_ProcessedAt j of None \<Rightarrow> [] | Some t \<Rightarrow> [(''processed_at'', JTime t)]))"

definition notification_tree :: "NotificationPayload \<Rightarrow> jtree" where
  "notification_tree n = JObj
     [(''channel'', JStr (np_Channel n)), (''recipient'', JStr (np_Recipient n)),
      (''template'', JStr (np_Template n)), (''subject'', JStr (np_Subject n)),
      (''body'', JStr (np_Body n)), (''event_id'', JStr (np_EventID n))]"

text \<open>The functions of the package as the services use them.\<close>

definition go_json :: "(string \<Rightarrow> string) \<Rightarrow> json_lib" where
  "go_json msg =
     \<lparr> json_Valid = json_valid,
       json_Marshal_Job = (\<lambda>j. json_encode msg (job_tree j)),
       json_Unmarshal_Job = unmarshal msg job_setters zero_job,
       json_Unmarshal_Registration = unmarshal msg registration_setters
         \<lparr> rp_EventID = '''', rp_AttendeeName = '''', rp_Email = '''', rp_Phone = '''', rp_TicketType = '''' \<rparr>,
       json_Unmarshal_Payment = unmarshal msg payment_setters
         \<lparr> pw_GatewayOrderID = '''', pw_PaymentID = '''', pw_PaymentStatus = '''', pw_AmountCents = 0,
           pw_Currency = '''' \<rparr>,
       json_Unmarshal_QRScan = unmarshal msg scan_setters
         \<lparr> qp_QRCode = '''', qp_EventID = '''', qp_GateID = '''', qp_ScannedBy = '''' \<rparr>,
       json_Unmarshal_Notification = unmarshal msg notification_setters
         \<lparr> np_Channel = '''', np_Recipient = '''', np_Template = '''', np_Subject = '''', np_Body = '''',
           np_EventID = '''' \<rparr>,
       json_Marshal_Notification = (\<lambda>n. json_encode msg (notification_tree n)) \<rparr>"

end
