(* ===== verification/Crypto.thy ===== *)
theory Crypto
  imports Gateway_Prelude "HOL-Library.Word"
begin

text \<open>
  The standard library's \<open>crypto/sha256\<close>, \<open>crypto/hmac\<close> and \<open>encoding/hex\<close>, which the
  gateway hashes payloads and verifies webhook signatures with. SHA-256 is written as FIPS 180-4
  has it, on 32-bit words; byte strings are \<^typ>\<open>string\<close>s.
\<close>

unbundle bit_operations_syntax

type_synonym u32 = "32 word"

section \<open>SHA-256\<close>

definition rotr :: "nat \<Rightarrow> u32 \<Rightarrow> u32" where
  "rotr n x = drop_bit n x OR push_bit (32 - n) x"

definition Ch :: "u32 \<Rightarrow> u32 \<Rightarrow> u32 \<Rightarrow> u32" where
  "Ch x y z = (x AND y) XOR (NOT x AND z)"

definition Maj :: "u32 \<Rightarrow> u32 \<Rightarrow> u32 \<Rightarrow> u32" where
  "Maj x y z = (x AND y) XOR (x AND z) XOR (y AND z)"

definition Sigma0 :: "u32 \<Rightarrow> u32" where "Sigma0 x = rotr 2 x XOR rotr 13 x XOR rotr 22 x"
definition Sigma1 :: "u32 \<Rightarrow> u32" where "Sigma1 x = rotr 6 x XOR rotr 11 x XOR rotr 25 x"
definition sigma0 :: "u32 \<Rightarrow> u32" where "sigma0 x = rotr 7 x XOR rotr 18 x XOR drop_bit 3 x"
definition sigma1 :: "u32 \<Rightarrow> u32" where "sigma1 x = rotr 17 x XOR rotr 19 x XOR drop_bit 10 x"

text \<open>
  The constants are computed from their definition: the first 32 bits of the fractional parts of
  the cube roots of the first 64 primes, and of the square roots of the first 8. \<open>root_bits k n b r\<close>
  settles the bits of the integer \<open>k\<close>-th root of \<open>n\<close> below \<open>b\<close>, from the highest on.
\<close>

definition first_primes :: "int list" where
  "first_primes =
    [2, 3, 5, 7, 11, 13, 17, 19, 23, 29, 31, 37, 41, 43, 47, 53, 59, 61, 67, 71, 73, 79,
     83, 89, 97, 101, 103, 107, 109, 113, 127, 131, 137, 139, 149, 151, 157, 163, 167, 173, 179, 181, 191, 193,
     197, 199, 211, 223, 227, 229, 233, 239, 241, 251, 257, 263, 269, 271, 277, 281, 283, 293, 307, 311]"

fun root_bits :: "nat \<Rightarrow> int \<Rightarrow> nat \<Rightarrow> int \<Rightarrow> int" where
  "root_bits k n 0 r = r"
| "root_bits k n (Suc b) r = root_bits k n b (if (r + 2 ^ b) ^ k \<le> n then r + 2 ^ b else r)"

definition root_frac :: "nat \<Rightarrow> int \<Rightarrow> u32" where
  "root_frac k p = word_of_int (root_bits k (p * 2 ^ (32 * k)) 40 0)"

definition sha_K :: "u32 list" where "sha_K = map (root_frac 3) first_primes"
definition sha_H0 :: "u32 list" where "sha_H0 = map (root_frac 2) (take 8 first_primes)"

text \<open>Big-endian bytes of a number and words of bytes.\<close>

fun be_bytes :: "nat \<Rightarrow> int \<Rightarrow> string" where
  "be_bytes 0 n = []"
| "be_bytes (Suc k) n = be_bytes k (n div 256) @ [char_of (n mod 256)]"

fun be_words :: "string \<Rightarrow> u32 list" where
  "be_words (a # b # c # d # rest) =
     word_of_int (((of_char a * 256 + of_char b) * 256 + of_char c) * 256 + of_char d) # be_words rest"
| "be_words _ = []"

definition sha_pad :: "string \<Rightarrow> string" where
  "sha_pad m = m @ char_of (128 :: nat) # replicate ((119 - length m mod 64) mod 64) (char_of (0 :: nat)) @
     be_bytes 8 (8 * int (length m))"

fun blocks :: "nat \<Rightarrow> 'a list \<Rightarrow> 'a list list" where
  "blocks n xs = (if n = 0 \<or> xs = [] then [] else take n xs # blocks n (drop n xs))"

declare blocks.simps [simp del]

text \<open>The message schedule, grown by one word at a time.\<close>

definition extend :: "u32 list \<Rightarrow> u32 list" where
  "extend W = (let t = length W in W @ [sigma1 (W ! (t - 2)) + W ! (t - 7) + sigma0 (W ! (t - 15)) + W ! (t - 16)])"

definition schedule :: "u32 list \<Rightarrow> u32 list" where
  "schedule block = (extend ^^ 48) block"

definition sha_round :: "u32 \<times> u32 \<Rightarrow> u32 list \<Rightarrow> u32 list" where
  "sha_round kw s = (case s of
     [a, b, c, d, e, f, g, h] \<Rightarrow>
       (let t1 = h + Sigma1 e + Ch e f g + fst kw + snd kw;
            t2 = Sigma0 a + Maj a b c
        in [t1 + t2, a, b, c, d + t1, e, f, g])
   | _ \<Rightarrow> s)"

definition sha_block :: "string \<Rightarrow> u32 list \<Rightarrow> u32 list" where
  "sha_block blk H = map2 (+) H (fold sha_round (zip sha_K (schedule (be_words blk))) H)"

definition sha256 :: "string \<Rightarrow> string" where
  "sha256 m = concat (map (\<lambda>w. be_bytes 4 (uint w)) (fold sha_block (blocks 64 (sha_pad m)) sha_H0))"

section \<open>HMAC\<close>

definition xor_byte :: "int \<Rightarrow> char \<Rightarrow> char" where
  "xor_byte n c = char_of (of_char c XOR n)"

definition hmac_sha256 :: "string \<Rightarrow> string \<Rightarrow> string" where
  "hmac_sha256 key m =
     (let k0 = (if 64 < length key then sha256 key else key);
          k = k0 @ replicate (64 - length k0) (char_of (0 :: nat))
      in sha256 (map (xor_byte 0x5c) k @ sha256 (map (xor_byte 0x36) k @ m)))"

section \<open>Hexadecimal\<close>

definition hex_EncodeToString :: "string \<Rightarrow> string" where
  "hex_EncodeToString s =
     concat (map (\<lambda>c. let n = of_char c :: nat in [hex_digit (n div 16), hex_digit (n mod 16)]) s)"

section \<open>Lengths\<close>

lemma be_bytes_length [simp]: "length (be_bytes k n) = k"
  by (induction k arbitrary: n) simp_all

lemma sha_round_length [simp]: "length s = 8 \<Longrightarrow> length (sha_round kw s) = 8"
  by (auto simp: sha_round_def Let_def split: list.split)

lemma sha_rounds_length [simp]: "length s = 8 \<Longrightarrow> length (fold sha_round kws s) = 8"
  by (induction kws arbitrary: s) simp_all

lemma sha_blocks_length: "length H = 8 \<Longrightarrow> length (fold sha_block bs H) = 8"
  by (induction bs arbitrary: H) (simp_all add: sha_block_def)

lemma length_first_primes: "length first_primes = 64"
  by (simp add: first_primes_def)

lemma sha256_length [simp]: "length (sha256 m) = 32"
proof -
  have "length (fold sha_block (blocks 64 (sha_pad m)) sha_H0) = 8"
    by (rule sha_blocks_length) (simp add: sha_H0_def length_first_primes)
  then show ?thesis by (simp add: sha256_def length_concat o_def sum_list_triv)
qed

lemma hmac_length [simp]: "length (hmac_sha256 k m) = 32"
  by (simp add: hmac_sha256_def Let_def)

text \<open>The padded message is a whole number of blocks.\<close>

lemma sha_pad_length: "length (sha_pad m) mod 64 = 0"
proof -
  define q r where "q = length m div 64" and "r = length m mod 64"
  have m: "length m = 64 * q + r" and "r < 64" by (simp_all add: q_def r_def)
  have pad: "length (sha_pad m) = length m + 9 + (119 - r) mod 64" by (simp add: sha_pad_def r_def)
  show ?thesis
  proof (cases "r \<le> 55")
    case True
    then have "119 - r = 64 + (55 - r)" by simp
    then have "(119 - r) mod 64 = (55 - r) mod 64" by (simp only: mod_add_self1)
    then have "(119 - r) mod 64 = 55 - r" by (simp only: mod_less)
    with pad m True have "length (sha_pad m) = 64 * (q + 1)" by simp
    then show ?thesis by simp
  next
    case False
    with \<open>r < 64\<close> pad m have "length (sha_pad m) = 64 * (q + 2)" by simp
    then show ?thesis by simp
  qed
qed

lemma hex_length [simp]: "length (hex_EncodeToString s) = 2 * length s"
  by (induction s) (simp_all add: hex_EncodeToString_def Let_def)

lemma of_char_hex_digit: "n < 16 \<Longrightarrow> (of_char (hex_digit n) :: nat) = (if n < 10 then 48 + n else 87 + n)"
  by (simp add: hex_digit_def)

lemma hex_digit_inj:
  assumes "a < 16" "b < 16" "hex_digit a = hex_digit b"
  shows "a = b"
proof -
  have "(if a < 10 then 48 + a else 87 + a) = (if b < 10 then 48 + b else 87 + b)"
    unfolding of_char_hex_digit [OF assms(1), symmetric] of_char_hex_digit [OF assms(2), symmetric]
    by (simp only: assms(3))
  then show "a = b" using assms(1,2) by (cases "a < 10"; cases "b < 10") simp_all
qed

lemma hex_byte_inj:
  assumes "hex_digit (of_char c div 16) = hex_digit (of_char d div 16)"
    "hex_digit (of_char c mod 16) = hex_digit (of_char d mod 16)"
  shows "c = d"
proof -
  have bound: "(of_char x :: nat) div 16 < 16" for x :: char
    by (rule less_mult_imp_div_less) simp
  have "(of_char c :: nat) div 16 = of_char d div 16" "(of_char c :: nat) mod 16 = of_char d mod 16"
    using assms bound by (auto intro: hex_digit_inj)
  then have "(of_char c :: nat) = of_char d" by (metis div_mult_mod_eq)
  then show ?thesis by simp
qed

lemma hex_EncodeToString_inj: "hex_EncodeToString s = hex_EncodeToString t \<Longrightarrow> s = t"
proof (induction s arbitrary: t)
  case Nil
  then show ?case by (cases t) (simp_all add: hex_EncodeToString_def Let_def)
next
  case (Cons c s)
  then obtain d u where "t = d # u" by (cases t) (simp_all add: hex_EncodeToString_def Let_def)
  with Cons show ?case by (auto simp: hex_EncodeToString_def Let_def intro: hex_byte_inj)
qed

end
