(* ===== verification/Reference_Json.thy ===== *)
theory Reference_Json
  imports Redis_Client
begin

text \<open>
  A concrete instance of the \<open>encoding/json\<close> parameter: a self-delimiting text format in which a
  structure is the list of its fields, every byte of a field preceded by a dot and every field
  closed by a semicolon. It is total and decodes what it encodes, so every job survives
  serialisation. It stands in for JSON where a theorem is applied to concrete values.
\<close>

definition enc_field :: "string \<Rightarrow> string" where
  "enc_field s = concat (map (\<lambda>c. [CHR ''.'', c]) s) @ '';''"

definition enc_fields :: "string list \<Rightarrow> string" where
  "enc_fields fs = concat (map enc_field fs)"

fun dec_fields :: "string \<Rightarrow> string \<Rightarrow> string list option" where
  "dec_fields acc [] = (if acc = [] then Some [] else None)"
| "dec_fields acc (x # xs) =
     (if x = CHR '';'' then map_option (\<lambda>fs. acc # fs) (dec_fields [] xs)
      else if x = CHR ''.'' then (case xs of [] \<Rightarrow> None | c # cs \<Rightarrow> dec_fields (acc @ [c]) cs)
      else None)"

definition ref_bad :: goerr where "ref_bad = ErrorString ''unexpected end of input''"

definition enc_opt :: "time option \<Rightarrow> string" where
  "enc_opt t = (case t of None \<Rightarrow> '''' | Some n \<Rightarrow> itoa n)"

definition dec_opt :: "string \<Rightarrow> time option" where
  "dec_opt s = (if s = '''' then None else parse_int s)"

definition dec_int :: "string \<Rightarrow> int" where
  "dec_int s = (case parse_int s of Some n \<Rightarrow> n | None \<Rightarrow> 0)"

definition ref_marshal_Job :: "Job \<Rightarrow> goerr + string" where
  "ref_marshal_Job j = Inr (enc_fields [job_ID j, job_JobType j, job_Payload j, job_Status j,
     itoa (job_RetryCount j), itoa (job_MaxRetries j), job_Priority j, job_IdempotencyKey j,
     job_TraceID j, job_ErrorMessage j, itoa (job_CreatedAt j), itoa (job_UpdatedAt j),
     enc_opt (job_ProcessedAt j)])"

definition ref_unmarshal_Job :: "string \<Rightarrow> goerr + Job" where
  "ref_unmarshal_Job s = (case dec_fields [] s of
     Some [a, b, c, d, e, f, g, h, i, j, k, l, m] \<Rightarrow>
       Inr \<lparr> job_ID = a, job_JobType = b, job_Payload = c, job_Status = d,
             job_RetryCount = dec_int e, job_MaxRetries = dec_int f, job_Priority = g,
             job_IdempotencyKey = h, job_TraceID = i, job_ErrorMessage = j,
             job_CreatedAt = dec_int k, job_UpdatedAt = dec_int l, job_ProcessedAt = dec_opt m \<rparr>
   | _ \<Rightarrow> Inl ref_bad)"

definition ref_json :: json_lib where
  "ref_json =
     \<lparr> json_Valid = (\<lambda>s. dec_fields [] s \<noteq> None),
       json_Marshal_Job = ref_marshal_Job, json_Unmarshal_Job = ref_unmarshal_Job,
       json_Unmarshal_Registration = (\<lambda>s. case dec_fields [] s of
           Some [a, b, c, d, e] \<Rightarrow> Inr \<lparr> rp_EventID = a, rp_AttendeeName = b, rp_Email = c,
             rp_Phone = d, rp_TicketType = e \<rparr>
         | _ \<Rightarrow> Inl ref_bad),
       json_Unmarshal_Payment = (\<lambda>s. case dec_fields [] s of
           Some [a, b, c, d, e] \<Rightarrow> Inr \<lparr> pw_GatewayOrderID = a, pw_PaymentID = b,
             pw_PaymentStatus = c, pw_AmountCents = dec_int d, pw_Currency = e \<rparr>
         | _ \<Rightarrow> Inl ref_bad),
       json_Unmarshal_QRScan = (\<lambda>s. case dec_fields [] s of
           Some [a, b, c, d] \<Rightarrow> Inr \<lparr> qp_QRCode = a, qp_EventID = b, qp_GateID = c, qp_ScannedBy = d \<rparr>
         | _ \<Rightarrow> Inl ref_bad),
       json_Unmarshal_Notification = (\<lambda>s. case dec_fields [] s of
           Some [a, b, c, d, e, f] \<Rightarrow> Inr \<lparr> np_Channel = a, np_Recipient = b, np_Template = c,
             np_Subject = d, np_Body = e, np_EventID = f \<rparr>
         | _ \<Rightarrow> Inl ref_bad),
       json_Marshal_Notification = (\<lambda>n. Inr (enc_fields [np_Channel n, np_Recipient n,
           np_Template n, np_Subject n, np_Body n, np_EventID n])) \<rparr>"

lemma dec_enc_field: "dec_fields acc (enc_field s @ rest) =
    map_option (\<lambda>fs. (acc @ s) # fs) (dec_fields [] rest)"
  by (induction s arbitrary: acc) (auto simp: enc_field_def)

lemma dec_enc_fields [simp]: "dec_fields [] (enc_fields fs) = Some fs"
  by (induction fs) (simp_all add: enc_fields_def dec_enc_field)

lemma dec_int_itoa [simp]: "dec_int (itoa n) = n"
  by (simp add: dec_int_def)

lemma dec_opt_enc [simp]: "dec_opt (enc_opt t) = t"
  by (cases t) (simp_all add: dec_opt_def enc_opt_def)

lemma wire_ref_json [simp]: "wire ref_json j"
  by (simp add: wire_def ref_json_def ref_marshal_Job_def ref_unmarshal_Job_def)

lemma ref_json_roundtrip [simp]:
  "json_Unmarshal_Notification ref_json (enc_fields [a, b, c, d, e, f]) =
     Inr \<lparr> np_Channel = a, np_Recipient = b, np_Template = c, np_Subject = d, np_Body = e, np_EventID = f \<rparr>"
  "json_Marshal_Notification ref_json n = Inr (enc_fields [np_Channel n, np_Recipient n,
     np_Template n, np_Subject n, np_Body n, np_EventID n])"
  "json_Unmarshal_QRScan ref_json (enc_fields [a, b, c, d]) =
     Inr \<lparr> qp_QRCode = a, qp_EventID = b, qp_GateID = c, qp_ScannedBy = d \<rparr>"
  "json_Unmarshal_Payment ref_json (enc_fields [a, b, c, itoa k, e]) =
     Inr \<lparr> pw_GatewayOrderID = a, pw_PaymentID = b, pw_PaymentStatus = c, pw_AmountCents = k, pw_Currency = e \<rparr>"
  "json_Unmarshal_Registration ref_json (enc_fields [a, b, c, d, e]) =
     Inr \<lparr> rp_EventID = a, rp_AttendeeName = b, rp_Email = c, rp_Phone = d, rp_TicketType = e \<rparr>"
  "json_Valid ref_json (enc_fields fs)"
  by (simp_all add: ref_json_def)

end
