(* ===== verification/Security.thy ===== *)
theory Security
  imports Crypto Ports Reference_Json
begin

text \<open>
  \<open>internal/security\<close>: the signatures of payment webhooks and the tokens of the admin API. The JWT
  library is a parameter with the laws it documents; HMAC-SHA256 is the one of the theory Crypto.
\<close>

section \<open>Webhook signatures (hmac.go)\<close>

definition ComputeHMACSHA256 :: "string \<Rightarrow> string \<Rightarrow> string" where
  "ComputeHMACSHA256 secret payload = hex_EncodeToString (hmac_sha256 secret payload)"

definition VerifyHMACSHA256 :: "string \<Rightarrow> string \<Rightarrow> string \<Rightarrow> bool" where
  "VerifyHMACSHA256 secret payload signature =
     (if signature = '''' then False
      else let provided = strings_TrimPrefix signature ''sha256='';
               expected = ComputeHMACSHA256 secret payload
           in expected = provided)"

lemma hex_digit_plain: "n < 16 \<Longrightarrow> hex_digit n \<noteq> CHR ''s''"
  using of_char_hex_digit [of n] by (auto split: if_splits)

lemma hex_no_prefix: "\<not> strings_HasPrefix (hex_EncodeToString s) ''sha256=''"
proof (cases s)
  case (Cons c cs)
  have "(of_char c :: nat) div 16 < 16" by (rule less_mult_imp_div_less) simp
  with Cons show ?thesis
    using hex_digit_plain by (simp add: strings_HasPrefix_def hex_EncodeToString_def Let_def)
qed (simp add: strings_HasPrefix_def hex_EncodeToString_def)

lemma hmac_text_nonempty: "ComputeHMACSHA256 k m \<noteq> ''''"
proof
  assume "ComputeHMACSHA256 k m = ''''"
  then have "length (ComputeHMACSHA256 k m) = 0" by simp
  then show False by (simp add: ComputeHMACSHA256_def)
qed

text \<open>
  C35: a signature is accepted exactly if it is the lower-case hexadecimal HMAC-SHA256 of the body
  under the shared secret, with or without the prefix \<open>sha256=\<close>; in particular an empty signature
  and a doubled prefix are refused.
\<close>

theorem webhook_signature_exact:
  "VerifyHMACSHA256 secret payload signature \<longleftrightarrow>
     (let mac = hex_EncodeToString (hmac_sha256 secret payload)
      in signature = mac \<or> signature = ''sha256='' @ mac)"
proof -
  let ?m = "ComputeHMACSHA256 secret payload"
  have np: "\<not> strings_HasPrefix ?m ''sha256=''" unfolding ComputeHMACSHA256_def by (rule hex_no_prefix)
  have "strings_TrimPrefix signature ''sha256='' = ?m \<longleftrightarrow> signature = ?m \<or> signature = ''sha256='' @ ?m"
  proof (cases "strings_HasPrefix signature ''sha256=''")
    case True
    then obtain t where t: "signature = ''sha256='' @ t" by (auto simp only: HasPrefix_iff)
    with True np have "signature \<noteq> ?m" by metis
    with t show ?thesis by (simp only: TrimPrefix_append) auto
  next
    case False
    moreover have "strings_HasPrefix (''sha256='' @ ?m) ''sha256=''" by (simp add: strings_HasPrefix_def)
    ultimately show ?thesis by (auto simp: strings_TrimPrefix_def)
  qed
  then show ?thesis
    using hmac_text_nonempty [of secret payload]
    by (auto simp: VerifyHMACSHA256_def ComputeHMACSHA256_def Let_def)
qed


section \<open>Admin tokens (jwt.go)\<close>

record Claims =
  cl_Role :: string
  cl_Issuer :: string
  cl_Subject :: string
  cl_Audience :: "string list"
  cl_ExpiresAt :: "time option"
  cl_NotBefore :: "time option"
  cl_IssuedAt :: "time option"
  cl_ID :: string

text \<open>A token of the library: its algorithm, whether its method is an HMAC, its claims, its validity.\<close>

record Token =
  tk_Alg :: string
  tk_HMAC :: bool
  tk_Claims :: Claims
  tk_Valid :: bool

text \<open>
  \<open>golang-jwt\<close> as the sources call it. \<open>jwt_ParseWithClaims\<close> takes the token, the function that
  gives the key, the methods of \<open>WithValidMethods\<close>, the issuer of \<open>WithIssuer\<close> and the time at
  which the library looks at its clock.
\<close>

record jwt_lib =
  jwt_NewNumericDate :: "time \<Rightarrow> time"
  jwt_SignedString_HS256 :: "Claims \<Rightarrow> string \<Rightarrow> goerr + string"
  jwt_ParseWithClaims :: "string \<Rightarrow> (Token \<Rightarrow> goerr + string) \<Rightarrow> string list \<Rightarrow> string option \<Rightarrow> time \<Rightarrow> goerr + Token"

record JWTManager =
  jm_secret :: string
  jm_issuer :: string

definition NewJWTManager :: "string \<Rightarrow> string \<Rightarrow> JWTManager" where
  "NewJWTManager secret issuer = \<lparr> jm_secret = secret, jm_issuer = issuer \<rparr>"

definition token_claims :: "jwt_lib \<Rightarrow> JWTManager \<Rightarrow> string \<Rightarrow> string \<Rightarrow> duration \<Rightarrow> time \<Rightarrow> Claims" where
  "token_claims L m subject role ttl now =
     \<lparr> cl_Role = role, cl_Issuer = jm_issuer m, cl_Subject = subject, cl_Audience = [],
       cl_ExpiresAt = Some (jwt_NewNumericDate L (now + ttl)),
       cl_NotBefore = Some (jwt_NewNumericDate L now), cl_IssuedAt = Some (jwt_NewNumericDate L now),
       cl_ID = '''' \<rparr>"

definition Generate ::
  "jwt_lib \<Rightarrow> runtime \<Rightarrow> JWTManager \<Rightarrow> string \<Rightarrow> string \<Rightarrow> duration \<Rightarrow> ('r, 'd) world \<Rightarrow>
    (goerr + string) \<times> ('r, 'd) world" where
  "Generate L E m subject role ttl w =
     (let (now, w1) = time_Now E w
      in (jwt_SignedString_HS256 L (token_claims L m subject role ttl now) (jm_secret m), w1))"

definition keyFunc :: "JWTManager \<Rightarrow> Token \<Rightarrow> goerr + string" where
  "keyFunc m t =
     (if \<not> tk_HMAC t
      then Inl (Wrap '''' (Sentinel ErrInvalidToken) ('': unexpected signing method '' @ strconv_Quote (tk_Alg t)))
      else Inr (jm_secret m))"

definition Verify ::
  "jwt_lib \<Rightarrow> runtime \<Rightarrow> JWTManager \<Rightarrow> string \<Rightarrow> ('r, 'd) world \<Rightarrow> (goerr + Claims) \<times> ('r, 'd) world" where
  "Verify L E m tokenString w =
     (let (now, w1) = time_Now E w;
          issuer = (if jm_issuer m \<noteq> '''' then Some (jm_issuer m) else None)
      in case jwt_ParseWithClaims L tokenString (keyFunc m) [''HS256''] issuer now of
           Inl e \<Rightarrow> (Inl (Wrap '''' (Sentinel ErrInvalidToken) ('': '' @ Error e)), w1)
         | Inr parsed \<Rightarrow>
             if \<not> tk_Valid parsed then (Inl (Sentinel ErrInvalidToken), w1) else (Inr (tk_Claims parsed), w1))"

section \<open>What the library promises\<close>

text \<open>
  \<open>genuine alg key tok cl\<close>: the text is a well-formed token whose header names the algorithm, whose
  signature is the one of that algorithm under the key, and whose claims are \<open>cl\<close>. The laws are
  those of the documentation of the library's version 5: a numeric date is a whole second; a
  signed token is genuine, and so are the claims read from it if their dates are whole seconds
  and their texts valid; parsing checks the algorithm against the list, asks for the key,
  verifies the signature, then the validity period and the issuer.
\<close>

definition whole_dates :: "Claims \<Rightarrow> bool" where
  "whole_dates cl \<longleftrightarrow> list_all (\<lambda>d. case d of None \<Rightarrow> True | Some t \<Rightarrow> second dvd t)
     [cl_ExpiresAt cl, cl_NotBefore cl, cl_IssuedAt cl]"

definition in_period :: "Claims \<Rightarrow> time \<Rightarrow> bool" where
  "in_period cl now \<longleftrightarrow> (case cl_ExpiresAt cl of None \<Rightarrow> True | Some t \<Rightarrow> now < t) \<and>
     (case cl_NotBefore cl of None \<Rightarrow> True | Some t \<Rightarrow> t \<le> now)"

definition from_issuer :: "Claims \<Rightarrow> string option \<Rightarrow> bool" where
  "from_issuer cl iss \<longleftrightarrow> (case iss of None \<Rightarrow> True | Some i \<Rightarrow> cl_Issuer cl = i)"

locale jwt_laws =
  fixes L :: jwt_lib
    and genuine :: "string \<Rightarrow> string \<Rightarrow> string \<Rightarrow> Claims \<Rightarrow> bool"
    and okclaims :: "Claims \<Rightarrow> bool"
  assumes numeric_date: "jwt_NewNumericDate L d = d - d mod second"
    and sign: "okclaims cl \<Longrightarrow> whole_dates cl \<Longrightarrow>
      \<exists>tok. jwt_SignedString_HS256 L cl key = Inr tok \<and> genuine ''HS256'' key tok cl"
    and genuine_unique: "genuine alg key tok cl \<Longrightarrow> genuine alg' key' tok cl' \<Longrightarrow> alg = alg' \<and> cl = cl'"
    and parse_sound: "jwt_ParseWithClaims L tok kf methods iss now = Inr t \<Longrightarrow>
      tk_Valid t \<and> tk_Alg t \<in> set methods \<and> in_period (tk_Claims t) now \<and> from_issuer (tk_Claims t) iss \<and>
      (\<exists>key. kf (t\<lparr>tk_Valid := False\<rparr>) = Inr key \<and> genuine (tk_Alg t) key tok (tk_Claims t))"
    and parse_complete: "genuine ''HS256'' key tok cl \<Longrightarrow> ''HS256'' \<in> set methods \<Longrightarrow>
      kf \<lparr> tk_Alg = ''HS256'', tk_HMAC = True, tk_Claims = cl, tk_Valid = False \<rparr> = Inr key \<Longrightarrow>
      in_period cl now \<Longrightarrow> from_issuer cl iss \<Longrightarrow>
      jwt_ParseWithClaims L tok kf methods iss now =
        Inr \<lparr> tk_Alg = ''HS256'', tk_HMAC = True, tk_Claims = cl, tk_Valid = True \<rparr>"
begin

text \<open>What the manager accepts.\<close>

lemma verify_iff:
  "fst (Verify L E m tok w) = Inr cl \<longleftrightarrow>
     genuine ''HS256'' (jm_secret m) tok cl \<and> in_period cl (time_at E (ticks w)) \<and>
     (jm_issuer m \<noteq> '''' \<longrightarrow> cl_Issuer cl = jm_issuer m)"
  (is "?l \<longleftrightarrow> ?r")
proof
  assume ?l
  then obtain t where t: "jwt_ParseWithClaims L tok (keyFunc m) [''HS256'']
      (if jm_issuer m \<noteq> '''' then Some (jm_issuer m) else None) (time_at E (ticks w)) = Inr t"
    "tk_Claims t = cl"
    by (auto simp: Verify_def time_Now_def split: sum.splits if_splits)
  from parse_sound [OF t(1)] t(2) show ?r
    by (auto simp: keyFunc_def from_issuer_def split: if_splits)
next
  assume r: ?r
  let ?i = "if jm_issuer m \<noteq> '''' then Some (jm_issuer m) else None"
  from r have "from_issuer cl ?i" by (simp add: from_issuer_def)
  with parse_complete [of "jm_secret m" tok cl "[''HS256'']" "keyFunc m" "time_at E (ticks w)" ?i] r
  show ?l by (auto simp: Verify_def time_Now_def keyFunc_def)
qed

lemma generated:
  assumes "okclaims (token_claims L m subject role ttl (time_at E (ticks w)))"
  obtains tok where "Generate L E m subject role ttl w = (Inr tok, w\<lparr>ticks := Suc (ticks w)\<rparr>)"
    "genuine ''HS256'' (jm_secret m) tok (token_claims L m subject role ttl (time_at E (ticks w)))"
proof -
  have "whole_dates (token_claims L m subject role ttl t)" for t
    by (simp add: whole_dates_def token_claims_def numeric_date)
  from sign [OF assms this] obtain tok where
    "jwt_SignedString_HS256 L (token_claims L m subject role ttl (time_at E (ticks w))) (jm_secret m) = Inr tok"
    "genuine ''HS256'' (jm_secret m) tok (token_claims L m subject role ttl (time_at E (ticks w)))"
    by blast
  then show thesis by (auto simp: Generate_def time_Now_def intro: that)
qed

text \<open>A generated token under any verifier with the same secret.\<close>

lemma verify_generated:
  assumes gen: "genuine ''HS256'' (jm_secret m) tok cl" and secret: "jm_secret v = jm_secret m"
  shows "Verify L E v tok w = (if in_period cl (time_at E (ticks w)) \<and> (jm_issuer v \<noteq> '''' \<longrightarrow> cl_Issuer cl = jm_issuer v)
       then Inr cl else fst (Verify L E v tok w), w\<lparr>ticks := Suc (ticks w)\<rparr>)"
    and "\<not> (in_period cl (time_at E (ticks w)) \<and> (jm_issuer v \<noteq> '''' \<longrightarrow> cl_Issuer cl = jm_issuer v)) \<Longrightarrow>
      \<exists>e. Verify L E v tok w = (Inl e, w\<lparr>ticks := Suc (ticks w)\<rparr>) \<and> errors_Is e ErrInvalidToken"
proof -
  have w: "snd (Verify L E v tok w) = w\<lparr>ticks := Suc (ticks w)\<rparr>"
    by (auto simp: Verify_def time_Now_def split: sum.split)
  show "Verify L E v tok w = (if in_period cl (time_at E (ticks w)) \<and> (jm_issuer v \<noteq> '''' \<longrightarrow> cl_Issuer cl = jm_issuer v)
       then Inr cl else fst (Verify L E v tok w), w\<lparr>ticks := Suc (ticks w)\<rparr>)"
    using verify_iff [of E v tok w cl] gen secret w by (auto simp: prod_eq_iff)
  assume no: "\<not> (in_period cl (time_at E (ticks w)) \<and> (jm_issuer v \<noteq> '''' \<longrightarrow> cl_Issuer cl = jm_issuer v))"
  then have "fst (Verify L E v tok w) \<noteq> Inr cl'" for cl'
    using verify_iff [of E v tok w cl'] genuine_unique [OF gen, of _ _ cl'] secret by auto
  then obtain e where "fst (Verify L E v tok w) = Inl e" by (cases "fst (Verify L E v tok w)") auto
  then show "\<exists>e. Verify L E v tok w = (Inl e, w\<lparr>ticks := Suc (ticks w)\<rparr>) \<and> errors_Is e ErrInvalidToken"
    using w by (auto simp: Verify_def time_Now_def split: sum.splits if_splits)
qed

end

section \<open>A concrete library\<close>

text \<open>Tokens in the text format of the theory Reference-Json, signed with HMAC-SHA256.\<close>

definition ref_claim_texts :: "Claims \<Rightarrow> string list" where
  "ref_claim_texts cl = [''HS256'', cl_Role cl, cl_Issuer cl, cl_Subject cl, enc_fields (cl_Audience cl),
     enc_opt (cl_ExpiresAt cl), enc_opt (cl_NotBefore cl), enc_opt (cl_IssuedAt cl), cl_ID cl]"

definition ref_token :: "Claims \<Rightarrow> string \<Rightarrow> string" where
  "ref_token cl key = enc_fields (ref_claim_texts cl @ [hmac_sha256 key (enc_fields (ref_claim_texts cl))])"

definition ref_claims :: "string \<Rightarrow> (Claims \<times> string) option" where
  "ref_claims tok = (case dec_fields [] tok of
     Some [h, a, b, c, d, e, f, g, i, sig] \<Rightarrow>
       (let cl = \<lparr> cl_Role = a, cl_Issuer = b, cl_Subject = c, cl_Audience = the (dec_fields [] d),
                   cl_ExpiresAt = dec_opt e, cl_NotBefore = dec_opt f, cl_IssuedAt = dec_opt g, cl_ID = i \<rparr>
        in if ref_claim_texts cl = [h, a, b, c, d, e, f, g, i] then Some (cl, sig) else None)
   | _ \<Rightarrow> None)"

definition ref_genuine :: "string \<Rightarrow> string \<Rightarrow> string \<Rightarrow> Claims \<Rightarrow> bool" where
  "ref_genuine alg key tok cl \<longleftrightarrow> alg = ''HS256'' \<and>
     ref_claims tok = Some (cl, hmac_sha256 key (enc_fields (ref_claim_texts cl)))"

definition ref_jwt :: jwt_lib where
  "ref_jwt = \<lparr> jwt_NewNumericDate = (\<lambda>t. t - t mod second),
     jwt_SignedString_HS256 = (\<lambda>cl key. Inr (ref_token cl key)),
     jwt_ParseWithClaims = (\<lambda>tok kf methods iss now.
       case ref_claims tok of
         None \<Rightarrow> Inl (ErrorString ''token is malformed'')
       | Some (cl, sig) \<Rightarrow>
           if ''HS256'' \<notin> set methods then Inl (ErrorString ''signing method is invalid'')
           else case kf \<lparr> tk_Alg = ''HS256'', tk_HMAC = True, tk_Claims = cl, tk_Valid = False \<rparr> of
             Inl e \<Rightarrow> Inl e
           | Inr key \<Rightarrow>
               if sig \<noteq> hmac_sha256 key (enc_fields (ref_claim_texts cl))
               then Inl (ErrorString ''signature is invalid'')
               else if \<not> in_period cl now \<or> \<not> from_issuer cl iss then Inl (ErrorString ''claims are invalid'')
               else Inr \<lparr> tk_Alg = ''HS256'', tk_HMAC = True, tk_Claims = cl, tk_Valid = True \<rparr>) \<rparr>"

lemma ref_claims_token: "ref_claims (ref_token cl key) = Some (cl, hmac_sha256 key (enc_fields (ref_claim_texts cl)))"
  by (simp add: ref_claims_def ref_token_def ref_claim_texts_def)

interpretation rjwt: jwt_laws ref_jwt ref_genuine "\<lambda>_. True"
proof
  show "\<exists>tok. jwt_SignedString_HS256 ref_jwt cl key = Inr tok \<and> ref_genuine ''HS256'' key tok cl" for cl key
    by (simp add: ref_jwt_def ref_genuine_def ref_claims_token)
next
  fix tok kf methods iss now t
  assume "jwt_ParseWithClaims ref_jwt tok kf methods iss now = Inr t"
  then show "tk_Valid t \<and> tk_Alg t \<in> set methods \<and> in_period (tk_Claims t) now \<and> from_issuer (tk_Claims t) iss \<and>
      (\<exists>key. kf (t\<lparr>tk_Valid := False\<rparr>) = Inr key \<and> ref_genuine (tk_Alg t) key tok (tk_Claims t))"
    by (auto simp: ref_jwt_def ref_genuine_def split: option.splits prod.splits if_splits sum.splits)
qed (auto simp: ref_jwt_def ref_genuine_def)

section \<open>Tokens\<close>

text \<open>
  C36: a token is accepted exactly in its period. A token generated for a subject and a role is
  accepted, with that subject, role and issuer, from the second of its generation until the
  second in which its time to live ends, and refused as invalid outside; a manager with the same
  secret and another, non-empty issuer refuses it at any time.
\<close>

theorem token_accepted_in_period:
  assumes laws: "jwt_laws L genuine okclaims" and m: "m = NewJWTManager secret issuer"
    and t: "t = time_at E (ticks w)" "okclaims (token_claims L m subject role ttl t)"
    and now: "now = time_at E (ticks w')"
  shows "\<exists>tok. Generate L E m subject role ttl w = (Inr tok, w\<lparr>ticks := Suc (ticks w)\<rparr>) \<and>
    (if t - t mod second \<le> now \<and> now < (t + ttl) - (t + ttl) mod second
     then \<exists>cl. Verify L E m tok w' = (Inr cl, w'\<lparr>ticks := Suc (ticks w')\<rparr>) \<and>
       cl_Role cl = role \<and> cl_Subject cl = subject \<and> cl_Issuer cl = issuer
     else \<exists>e. Verify L E m tok w' = (Inl e, w'\<lparr>ticks := Suc (ticks w')\<rparr>) \<and> errors_Is e ErrInvalidToken) \<and>
    (\<forall>other. other \<noteq> '''' \<longrightarrow> other \<noteq> issuer \<longrightarrow>
      (\<exists>e. fst (Verify L E (NewJWTManager secret other) tok w') = Inl e \<and> errors_Is e ErrInvalidToken))"
proof -
  define cl where "cl = token_claims L m subject role ttl t"
  obtain tok where tok: "Generate L E m subject role ttl w = (Inr tok, w\<lparr>ticks := Suc (ticks w)\<rparr>)"
    "genuine ''HS256'' (jm_secret m) tok cl"
    using jwt_laws.generated [OF laws] t unfolding cl_def by metis
  have iss: "cl_Issuer cl = issuer" "jm_issuer m = issuer" "cl_Role cl = role" "cl_Subject cl = subject"
    by (simp_all add: cl_def token_claims_def m NewJWTManager_def)
  have period: "in_period cl now \<longleftrightarrow> t - t mod second \<le> now \<and> now < (t + ttl) - (t + ttl) mod second"
    unfolding in_period_def cl_def token_claims_def jwt_laws.numeric_date [OF laws] by auto
  have same: "jm_secret (NewJWTManager secret other) = jm_secret m" "jm_issuer (NewJWTManager secret other) = other" for other
    by (simp_all add: m NewJWTManager_def)
  note own = jwt_laws.verify_generated [OF laws tok(2) refl, of E w', folded now, unfolded period iss]
  have "\<exists>e. fst (Verify L E (NewJWTManager secret other) tok w') = Inl e \<and> errors_Is e ErrInvalidToken"
    if "other \<noteq> ''''" "other \<noteq> issuer" for other
    using jwt_laws.verify_generated(2) [OF laws tok(2) same(1), of E w' other] that iss(1) same(2)
    by (metis fst_conv)
  with tok(1) own iss show ?thesis by auto
qed

theorem token_accepted_in_period_witness:
  "\<exists>tok cl w. Generate ref_jwt \<lparr> time_at = (\<lambda>n. int n * second), uuid_at = (\<lambda>n. ''''), rand_at = (\<lambda>n k. 0) \<rparr>
     (NewJWTManager ''s'' ''gateway'') ''ops'' ''admin'' hour
     \<lparr> redis = (), db = (), metrics = Metrics_New, ticks = 0, uuids = 0, rands = 0, pending = [],
       retryBase = 0, retryMax = 0, crashed = False \<rparr> = (Inr tok, w) \<and>
   fst (Verify ref_jwt \<lparr> time_at = (\<lambda>n. int n * second), uuid_at = (\<lambda>n. ''''), rand_at = (\<lambda>n k. 0) \<rparr>
     (NewJWTManager ''s'' ''gateway'') tok w) = Inr cl \<and> cl_Role cl = ''admin''"
proof -
  define E where "E = \<lparr> time_at = (\<lambda>n. int n * second), uuid_at = (\<lambda>n. '''' :: string), rand_at = (\<lambda>n k. 0 :: int) \<rparr>"
  define w where "w = \<lparr> redis = (), db = (), metrics = Metrics_New, ticks = 0, uuids = 0, rands = 0, pending = [],
       retryBase = 0, retryMax = 0, crashed = False \<rparr>"
  from token_accepted_in_period [OF rjwt.jwt_laws_axioms refl refl TrueI refl, where E = E and w = w
      and w' = "w\<lparr>ticks := 1\<rparr>" and secret = "''s''" and issuer = "''gateway''" and subject = "''ops''"
      and role = "''admin''" and ttl = hour]
  show ?thesis unfolding E_def [symmetric] w_def [symmetric] by (auto simp: E_def w_def)
qed

end
