(* ===== verification/Float64.thy ===== *)
theory Float64
  imports Complex_Main Gateway_Prelude
begin

text \<open>
  Go's \<open>float64\<close> as far as the rate limiter uses it: finite values are rationals, and every
  arithmetic operation is the exact one followed by rounding to 53 significant bits, to nearest
  with ties to even. The exponent is not bounded, so that neither overflow to infinity nor
  subnormal numbers are modelled. The lemmas are the ones numerical proofs need: rounding is
  monotone, it keeps integers up to 2^53, and its relative error is at most 2^-53.
\<close>

section \<open>Rounding\<close>

text \<open>The number of binary digits of a natural number.\<close>

fun nbits :: "nat \<Rightarrow> nat" where
  "nbits n = (if n = 0 then 0 else Suc (nbits (n div 2)))"

declare nbits.simps [simp del]

lemma nbits_bounds: "0 < n \<Longrightarrow> 2 ^ (nbits n - 1) \<le> n \<and> n < 2 ^ nbits n \<and> 0 < nbits n"
proof (induction n rule: nbits.induct)
  case (1 n)
  show ?case
  proof (cases "n = 1")
    case True
    then show ?thesis by (simp add: nbits.simps)
  next
    case False
    then have "0 < n div 2" using "1.prems" by simp
    with "1.IH" "1.prems" have IH: "2 ^ (nbits (n div 2) - 1) \<le> n div 2" "n div 2 < 2 ^ nbits (n div 2)"
      "0 < nbits (n div 2)" by simp_all
    have "(2 :: nat) ^ nbits (n div 2) = 2 * 2 ^ (nbits (n div 2) - 1)"
      using IH(3) by (cases "nbits (n div 2)") simp_all
    moreover have "2 * (n div 2) \<le> n" "n < 2 * (n div 2) + 2" by simp_all
    ultimately have "2 ^ nbits (n div 2) \<le> n" "n < 2 * 2 ^ nbits (n div 2)" using IH(1,2) by linarith+
    with "1.prems" show ?thesis by (subst (1 2 3) nbits.simps) simp
  qed
qed

text \<open>The exponent of a positive rational: the \<open>e\<close> with \<open>2^e \<le> x < 2^(e+1)\<close>.\<close>

definition float_exp :: "rat \<Rightarrow> int" where
  "float_exp x =
     (let (p, q) = quotient_of x; k = int (nbits (nat p)) - int (nbits (nat q))
      in if 2 powi k \<le> x then k else k - 1)"

definition round_even :: "rat \<Rightarrow> int" where
  "round_even y = (let f = \<lfloor>y\<rfloor>; d = y - of_int f
                   in if d < 1 / 2 \<or> (d = 1 / 2 \<and> even f) then f else f + 1)"

definition fl64 :: "rat \<Rightarrow> rat" where
  "fl64 x = (if x = 0 then 0
             else let u = 2 powi (float_exp \<bar>x\<bar> - 52)
                  in sgn x * of_int (round_even (\<bar>x\<bar> / u)) * u)"

section \<open>Exponents\<close>

lemma power_int_of_nat: "(2 :: rat) powi (int m) = of_nat (2 ^ m)"
  by simp

lemma nbits_rat:
  assumes "0 < p"
  shows "(of_int p :: rat) < 2 ^ nbits (nat p)" "(2 :: rat) ^ nbits (nat p) \<le> 2 * of_int p"
proof -
  have n: "(of_nat (nat p) :: rat) = of_int p" using assms by simp
  have b: "nat p < 2 ^ nbits (nat p)" "2 ^ nbits (nat p) \<le> 2 * nat p"
    using nbits_bounds [of "nat p"] assms by (simp, cases "nbits (nat p)") simp_all
  from b(1) have "(of_nat (nat p) :: rat) < of_nat (2 ^ nbits (nat p))" by (simp only: of_nat_less_iff)
  then show "(of_int p :: rat) < 2 ^ nbits (nat p)" unfolding n by simp
  from b(2) have "(of_nat (2 ^ nbits (nat p)) :: rat) \<le> of_nat (2 * nat p)" by (simp only: of_nat_le_iff)
  then show "(2 :: rat) ^ nbits (nat p) \<le> 2 * of_int p" using n by simp
qed

lemma float_exp_bounds:
  assumes "0 < x"
  shows "2 powi (float_exp x) \<le> x \<and> x < 2 powi (float_exp x + 1)"
proof -
  obtain p q where pq: "quotient_of x = (p, q)" by fastforce
  have q: "0 < q" using quotient_of_denom_pos [OF pq] .
  have x: "x = of_int p / of_int q" using quotient_of_div [OF pq] .
  have p: "0 < p" using assms q unfolding x by (simp add: zero_less_divide_iff)
  define a where "a = nbits (nat p)"
  define b where "b = nbits (nat q)"
  note hp = nbits_rat [OF p, folded a_def] and hq = nbits_rat [OF q, folded b_def]
  have k: "(2 :: rat) powi (int a - int b) = 2 ^ a / 2 ^ b"
    by (simp add: power_int_diff)
  have up: "x < 2 powi (int a - int b + 1)"
  proof -
    have "x * 2 ^ b \<le> x * (2 * of_int q)" using hq(2) assms by simp
    also have "\<dots> = 2 * of_int p" using q by (simp add: x)
    also have "\<dots> < 2 * 2 ^ a" using hp(1) by simp
    finally have "x < 2 * (2 ^ a / 2 ^ b)" by (simp add: field_simps)
    moreover have "(2 :: rat) powi (int a - int b + 1) = 2 * (2 ^ a / 2 ^ b)"
      by (subst power_int_add) (simp_all add: k)
    ultimately show ?thesis by simp
  qed
  have low: "2 powi (int a - int b - 1) \<le> x"
  proof -
    have "(2 :: rat) ^ a \<le> 2 * of_int p" by (rule hp(2))
    also have "\<dots> = 2 * (x * of_int q)" using q by (simp add: x)
    also have "\<dots> \<le> 2 * (x * 2 ^ b)" using hq(1) assms by simp
    finally have "2 ^ a / 2 ^ b / 2 \<le> x" by (simp add: field_simps)
    moreover have "(2 :: rat) powi (int a - int b - 1) = 2 ^ a / 2 ^ b / 2"
      by (subst power_int_diff) (simp_all add: k)
    ultimately show ?thesis by simp
  qed
  have e: "float_exp x = (if 2 powi (int a - int b) \<le> x then int a - int b else int a - int b - 1)"
    by (simp add: float_exp_def pq a_def b_def)
  show ?thesis
    using up low by (simp add: e)
qed

section \<open>Rounding to an integer\<close>

lemma round_even_int [simp]: "round_even (of_int n) = n"
  by (simp add: round_even_def)

lemma round_even_err: "\<bar>of_int (round_even y) - y\<bar> \<le> 1 / 2"
proof -
  define f :: rat where "f = of_int \<lfloor>y\<rfloor>"
  have "f \<le> y" "y < f + 1" unfolding f_def by linarith+
  then show ?thesis
    by (auto simp: round_even_def Let_def f_def [symmetric] abs_le_iff)
qed

lemma round_even_mono:
  assumes "x \<le> y"
  shows "round_even x \<le> round_even y"
proof (cases "\<lfloor>x\<rfloor> = \<lfloor>y\<rfloor>")
  case True
  then show ?thesis using assms by (auto simp: round_even_def Let_def)
next
  case False
  then have "\<lfloor>x\<rfloor> < \<lfloor>y\<rfloor>" using assms floor_mono [OF assms] by linarith
  then show ?thesis by (auto simp: round_even_def Let_def)
qed

section \<open>Rounding to 53 bits\<close>

lemma fl64_zero [simp]: "fl64 0 = 0"
  by (simp add: fl64_def)

lemma fl64_pos:
  assumes "0 < x"
  shows "fl64 x = of_int (round_even (x / 2 powi (float_exp x - 52))) * 2 powi (float_exp x - 52)"
  using assms by (simp add: fl64_def Let_def)

lemma fl64_binade:
  assumes "0 < x"
  shows "2 powi (float_exp x) \<le> fl64 x \<and> fl64 x \<le> 2 powi (float_exp x + 1)"
proof -
  define u :: rat where "u = 2 powi (float_exp x - 52)"
  have u: "0 < u" by (simp add: u_def)
  have e: "2 powi (float_exp x) = 2 ^ 52 * u" "2 powi (float_exp x + 1) = 2 ^ 53 * u"
    by (simp_all add: u_def power_int_diff power_int_add)
  have "2 ^ 52 \<le> x / u" "x / u \<le> 2 ^ 53"
    using float_exp_bounds [OF assms] u unfolding e by (simp_all add: field_simps)
  then have "round_even (of_int (2 ^ 52)) \<le> round_even (x / u)"
    "round_even (x / u) \<le> round_even (of_int (2 ^ 53))"
    by (intro round_even_mono; simp)+
  then have "2 ^ 52 \<le> round_even (x / u)" "round_even (x / u) \<le> 2 ^ 53"
    by (simp_all only: round_even_int)
  then have "(of_int (2 ^ 52) :: rat) \<le> of_int (round_even (x / u))"
    "(of_int (round_even (x / u)) :: rat) \<le> of_int (2 ^ 53)"
    by (simp_all only: of_int_le_iff)
  then show ?thesis
    using u unfolding fl64_pos [OF assms] e u_def [symmetric] by simp
qed

lemma power_int_2_mono: "i \<le> j \<Longrightarrow> (2 :: rat) powi i \<le> 2 powi j"
  by (intro power_int_increasing) simp_all

lemma float_exp_mono:
  assumes "0 < x" "x \<le> y"
  shows "float_exp x \<le> float_exp y"
proof (rule ccontr)
  assume "\<not> ?thesis"
  then have "(2 :: rat) powi (float_exp y + 1) \<le> 2 powi (float_exp x)" by (intro power_int_2_mono) simp
  with float_exp_bounds [of x] float_exp_bounds [of y] assms show False by auto
qed

lemma fl64_mono:
  assumes "0 \<le> x" "x \<le> y"
  shows "fl64 x \<le> fl64 y"
proof (cases "x = 0")
  case True
  have "0 \<le> fl64 y"
  proof (cases "y = 0")
    case False
    with assms have "0 < y" by simp
    from fl64_binade [OF this] show ?thesis
      using zero_less_power_int [of "2 :: rat" "float_exp y"] by linarith
  qed simp
  with True show ?thesis by simp
next
  case False
  with assms have pos: "0 < x" "0 < y" by simp_all
  show ?thesis
  proof (cases "float_exp x = float_exp y")
    case True
    have "x / 2 powi (float_exp y - 52) \<le> y / 2 powi (float_exp y - 52)"
      using assms by (simp add: divide_right_mono)
    from round_even_mono [OF this]
    show ?thesis unfolding fl64_pos [OF pos(1)] fl64_pos [OF pos(2)] True by simp
  next
    case False
    then have "float_exp x + 1 \<le> float_exp y" using float_exp_mono [OF pos(1) assms(2)] by simp
    then have "(2 :: rat) powi (float_exp x + 1) \<le> 2 powi (float_exp y)" by (rule power_int_2_mono)
    with fl64_binade [OF pos(1)] fl64_binade [OF pos(2)] show ?thesis by linarith
  qed
qed

lemma fl64_nonneg [simp]: "0 \<le> x \<Longrightarrow> 0 \<le> fl64 x"
  using fl64_mono [of 0 x] by simp

lemma fl64_err:
  assumes "0 \<le> x"
  shows "\<bar>fl64 x - x\<bar> \<le> x / 2 ^ 53"
proof (cases "x = 0")
  case False
  with assms have pos: "0 < x" by simp
  define u :: rat where "u = 2 powi (float_exp x - 52)"
  have u: "0 < u" by (simp add: u_def)
  have e: "2 powi (float_exp x) = 2 ^ 52 * u" by (simp add: u_def power_int_diff)
  have "fl64 x - x = (of_int (round_even (x / u)) - x / u) * u"
    using u unfolding fl64_pos [OF pos] u_def [symmetric] by (simp add: field_simps)
  then have "\<bar>fl64 x - x\<bar> = \<bar>of_int (round_even (x / u)) - x / u\<bar> * u"
    using u by (simp add: abs_mult)
  also have "\<dots> \<le> 1 / 2 * u" using round_even_err [of "x / u"] u by (intro mult_right_mono) simp_all
  also have "\<dots> \<le> x / 2 ^ 53" using float_exp_bounds [OF pos] by (simp add: e)
  finally show ?thesis .
qed simp

definition roundoff :: rat where "roundoff = 1 / 2 ^ 53"

lemma roundoff_pos [simp]: "0 < roundoff" "0 \<le> roundoff"
  by (simp_all add: roundoff_def)

lemma fl64_le: "0 \<le> x \<Longrightarrow> fl64 x \<le> (1 + roundoff) * x"
  using abs_le_D1 [OF fl64_err [of x]] unfolding roundoff_def by (simp add: field_simps)

text \<open>Integers up to \<open>2^53\<close> are exact.\<close>

lemma fl64_int:
  assumes "0 \<le> n" "n \<le> 2 ^ 53"
  shows "fl64 (of_int n) = of_int n"
proof (cases "n = 0")
  case False
  with assms(1) have pos: "0 < (of_int n :: rat)" by simp
  define x :: rat where "x = of_int n"
  have x: "0 < x" using pos by (simp add: x_def)
  show ?thesis
  proof (cases "n = 2 ^ 53")
    case True
    have "x < 2 powi (float_exp x + 1)" using float_exp_bounds [OF x] by simp
    then have "(2 :: rat) powi 53 < 2 powi (float_exp x + 1)" using True by (simp add: x_def)
    then have "53 < float_exp x + 1" using power_int_2_mono [of "float_exp x + 1" 53] by linarith
    moreover have "float_exp x \<le> 53"
    proof (rule ccontr)
      assume "\<not> ?thesis"
      then have "(2 :: rat) powi 54 \<le> 2 powi (float_exp x)" by (intro power_int_2_mono) simp
      with float_exp_bounds [OF x] True show False by (simp add: x_def)
    qed
    ultimately have "float_exp x = 53" by simp
    then have "fl64 x = of_int (round_even (of_int (2 ^ 52))) * 2"
      unfolding fl64_pos [OF x] using True by (simp add: x_def)
    then have "fl64 x = 2 ^ 53" by (simp only: round_even_int) simp
    then show ?thesis using True by (simp add: x_def)
  next
    case False
    then have "n < 2 ^ 53" using assms by simp
    then have "x < of_int (2 ^ 53)" unfolding x_def by (simp only: of_int_less_iff)
    then have "x < 2 powi 53" by simp
    then have le: "float_exp x \<le> 52"
      using float_exp_bounds [OF x] power_int_2_mono [of 53 "float_exp x"] by linarith
    define k where "k = nat (52 - float_exp x)"
    have u: "2 powi (float_exp x - 52) = inverse ((2 :: rat) ^ k)"
      using le by (simp add: k_def power_int_def power_inverse [symmetric] inverse_eq_divide power_one_over)
    have "x / inverse (2 ^ k) = of_int (n * 2 ^ k)" by (simp add: x_def field_simps)
    then show ?thesis
      unfolding x_def [symmetric] fl64_pos [OF x] u by (simp only: round_even_int) (simp add: x_def)
  qed
qed simp

lemma fl64_numeral [simp]: "numeral k \<le> (2 :: int) ^ 53 \<Longrightarrow> fl64 (numeral k) = numeral k"
  "fl64 1 = 1"
  using fl64_int [of "numeral k"] fl64_int [of 1] by simp_all

end
