(* ===== verification/Rate_Limiter.thy ===== *)
theory Rate_Limiter
  imports Float64 Ports "HOL-Library.AList"
begin

text \<open>
  The token buckets of \<open>internal/ratelimiter\<close>: the bucket itself in \<open>float64\<close> arithmetic, the
  global limiter, and the per-key limiter with the eviction its janitor performs. The operations of
  a bucket and the rounds of the janitor hold their mutex from start to end, so that they are steps
  on the state. \<open>KeyedLimiter.Allow\<close> holds the limiter's mutex for the lookup and then the
  bucket's; it is one step here, as the janitor does not evict an entry that was just seen. The
  argument \<open>now\<close> is the value \<open>time.Now()\<close> returns; its monotonic reading makes the differences
  not negative, which the theorems assume as a sorted sequence of calls.
\<close>

section \<open>Buckets (token_bucket.go)\<close>

text \<open>\<open>Time.Sub\<close> saturates at the range of \<open>Duration\<close>; \<open>Duration.Seconds\<close>.\<close>

definition time_Sub :: "time \<Rightarrow> time \<Rightarrow> duration" where
  "time_Sub t u = max (- (2 ^ 63)) (min (2 ^ 63 - 1) (t - u))"

definition Seconds :: "duration \<Rightarrow> rat" where
  "Seconds d = fl64 (fl64 (of_int (go_div d second)) + fl64 (fl64 (of_int (go_mod d second)) / 1000000000))"

record Bucket =
  bk_capacity :: rat
  bk_tokens :: rat
  bk_refillPerSec :: rat
  bk_last :: time

definition NewBucket :: "rat \<Rightarrow> int \<Rightarrow> time \<Rightarrow> Bucket" where
  "NewBucket rps burst now =
     (let rps' = (if rps \<le> 0 then 1 else rps);
          burst' = (if burst \<le> 0 then 1 else burst)
      in \<lparr> bk_capacity = fl64 (of_int burst'), bk_tokens = fl64 (of_int burst'),
           bk_refillPerSec = rps', bk_last = now \<rparr>)"

definition refill :: "time \<Rightarrow> Bucket \<Rightarrow> Bucket" where
  "refill now b =
     (let elapsed = Seconds (time_Sub now (bk_last b))
      in b\<lparr>bk_last := now,
           bk_tokens := min (bk_capacity b) (fl64 (bk_tokens b + fl64 (elapsed * bk_refillPerSec b)))\<rparr>)"

definition Bucket_Allow :: "time \<Rightarrow> Bucket \<Rightarrow> bool \<times> Bucket" where
  "Bucket_Allow now b =
     (let b1 = refill now b
      in if 1 \<le> bk_tokens b1 then (True, b1\<lparr>bk_tokens := fl64 (bk_tokens b1 - 1)\<rparr>) else (False, b1))"

definition Bucket_Tokens :: "time \<Rightarrow> Bucket \<Rightarrow> rat \<times> Bucket" where
  "Bucket_Tokens now b = (let b1 = refill now b in (bk_tokens b1, b1))"

section \<open>Limiters (limiter.go)\<close>

record GlobalLimiter =
  gl_bucket :: Bucket

definition NewGlobalLimiter :: "rat \<Rightarrow> int \<Rightarrow> time \<Rightarrow> GlobalLimiter" where
  "NewGlobalLimiter rps burst now = \<lparr> gl_bucket = NewBucket rps burst now \<rparr>"

definition GlobalLimiter_Allow :: "string \<Rightarrow> time \<Rightarrow> GlobalLimiter \<Rightarrow> bool \<times> GlobalLimiter" where
  "GlobalLimiter_Allow key now g =
     (let (ok, b) = Bucket_Allow now (gl_bucket g) in (ok, g\<lparr>gl_bucket := b\<rparr>))"

record limiter_entry =
  en_bucket :: Bucket
  en_seen :: time

text \<open>
  The map of buckets is an association list with distinct keys. \<open>kl_stopped\<close> says that the stop
  channel is closed, \<open>kl_once\<close> that \<open>once.Do\<close> has run.
\<close>

record KeyedLimiter =
  kl_buckets :: "(string \<times> limiter_entry) list"
  kl_rps :: rat
  kl_burst :: int
  kl_idleTTL :: duration
  kl_stopped :: bool
  kl_once :: bool

definition NewKeyedLimiter :: "rat \<Rightarrow> int \<Rightarrow> duration \<Rightarrow> KeyedLimiter" where
  "NewKeyedLimiter rps burst idleTTL =
     \<lparr> kl_buckets = [], kl_rps = rps, kl_burst = burst,
       kl_idleTTL = (if idleTTL \<le> 0 then 10 * minute else idleTTL),
       kl_stopped = False, kl_once = False \<rparr>"

text \<open>
  The clock is read when a bucket is made, for the entry and by the bucket: the three readings
  are \<open>t0\<close>, \<open>t1\<close> and \<open>t2\<close>.
\<close>

definition KeyedLimiter_Allow :: "string \<Rightarrow> time \<Rightarrow> time \<Rightarrow> time \<Rightarrow> KeyedLimiter \<Rightarrow> bool \<times> KeyedLimiter" where
  "KeyedLimiter_Allow key t0 t1 t2 k =
     (let b0 = (case map_of (kl_buckets k) key of
                  Some e \<Rightarrow> en_bucket e | None \<Rightarrow> NewBucket (kl_rps k) (kl_burst k) t0);
          (ok, b1) = Bucket_Allow t2 b0
      in (ok, k\<lparr>kl_buckets := AList.update key \<lparr> en_bucket = b1, en_seen = t1 \<rparr> (kl_buckets k)\<rparr>))"

text \<open>One round of the janitor, and the janitor's loop over the events it waits for.\<close>

definition janitor_sweep :: "time \<Rightarrow> KeyedLimiter \<Rightarrow> KeyedLimiter" where
  "janitor_sweep now k =
     (let cutoff = now - kl_idleTTL k
      in k\<lparr>kl_buckets := filter (\<lambda>(key, e). \<not> en_seen e < cutoff) (kl_buckets k)\<rparr>)"

datatype janitor_event = Stopped | Ticked time

fun janitor :: "janitor_event list \<Rightarrow> KeyedLimiter \<Rightarrow> KeyedLimiter" where
  "janitor [] k = k"
| "janitor (Stopped # evs) k = k"
| "janitor (Ticked now # evs) k = janitor evs (janitor_sweep now k)"

definition KeyedLimiter_Close :: "KeyedLimiter \<Rightarrow> KeyedLimiter" where
  "KeyedLimiter_Close k = (if kl_once k then k else k\<lparr>kl_once := True, kl_stopped := True\<rparr>)"

definition KeyedLimiter_Size :: "KeyedLimiter \<Rightarrow> int" where
  "KeyedLimiter_Size k = int (length (kl_buckets k))"

section \<open>Elapsed time\<close>

lemma time_Sub_bounds:
  assumes "u \<le> t"
  shows "0 \<le> time_Sub t u" "time_Sub t u \<le> t - u" "time_Sub t u < 2 ^ 63"
  using assms by (auto simp: time_Sub_def)

lemma time_Sub_mono: "u \<le> t \<Longrightarrow> t \<le> t' \<Longrightarrow> time_Sub t u \<le> time_Sub t' u"
  by (auto simp: time_Sub_def)

lemma nanos_exact:
  assumes "0 \<le> d"
  shows "fl64 (of_int (go_mod d second)) = of_int (d mod second)"
proof -
  have "d mod second \<le> 2 ^ 53"
    using pos_mod_bound [of second d] by simp
  then show ?thesis using assms by (simp add: go_mod_nonneg fl64_int)
qed

lemma Seconds_nonneg: "0 \<le> d \<Longrightarrow> 0 \<le> Seconds d"
  by (simp add: Seconds_def nanos_exact go_div_nonneg)

lemma Seconds_le:
  assumes "0 \<le> d"
  shows "Seconds d \<le> (1 + roundoff) ^ 2 * (of_int d / 1000000000)"
proof -
  define s :: rat where "s = of_int (d div second)"
  define n :: rat where "n = of_int (d mod second) / 1000000000"
  have "of_int d = (of_int (second * (d div second) + d mod second) :: rat)" by simp
  also have "\<dots> = 1000000000 * s + of_int (d mod second)"
    unfolding s_def of_int_add of_int_mult by simp
  finally have sn: "0 \<le> s" "0 \<le> n" "s + n = of_int d / 1000000000"
    using assms by (simp_all add: s_def n_def add_divide_distrib)
  have "fl64 s + fl64 n \<le> (1 + roundoff) * (s + n)"
    using fl64_le [OF sn(1)] fl64_le [OF sn(2)] by (simp add: algebra_simps)
  then have "(1 + roundoff) * (fl64 s + fl64 n) \<le> (1 + roundoff) * ((1 + roundoff) * (s + n))"
    by (rule mult_left_mono) simp
  moreover have "Seconds d \<le> (1 + roundoff) * (fl64 s + fl64 n)"
    using fl64_le [of "fl64 s + fl64 n"] sn assms
    by (simp add: Seconds_def nanos_exact go_div_nonneg s_def n_def)
  ultimately have "Seconds d \<le> (1 + roundoff) * ((1 + roundoff) * (s + n))" by linarith
  then show ?thesis unfolding sn(3) power2_eq_square mult.assoc .
qed

section \<open>The bucket invariant\<close>

definition bucket_ok :: "Bucket \<Rightarrow> bool" where
  "bucket_ok b \<longleftrightarrow> 0 \<le> bk_tokens b \<and> bk_tokens b \<le> bk_capacity b \<and> 0 < bk_refillPerSec b \<and>
     (\<exists>n. bk_capacity b = of_int n \<and> 1 \<le> n \<and> n \<le> 2 ^ 53)"

lemma NewBucket_ok: "burst \<le> 2 ^ 53 \<Longrightarrow> bucket_ok (NewBucket rps burst now)"
  by (auto simp: bucket_ok_def NewBucket_def Let_def fl64_int intro: exI [of _ "1 :: int"] exI [of _ burst])

lemma refill_simps [simp]:
  "bk_capacity (refill now b) = bk_capacity b" "bk_refillPerSec (refill now b) = bk_refillPerSec b"
  "bk_last (refill now b) = now"
  by (simp_all add: refill_def Let_def)

lemma Allow_simps [simp]:
  "bk_capacity (snd (Bucket_Allow now b)) = bk_capacity b"
  "bk_refillPerSec (snd (Bucket_Allow now b)) = bk_refillPerSec b"
  "bk_last (snd (Bucket_Allow now b)) = now"
  by (simp_all add: Bucket_Allow_def Let_def)

lemma gain_nonneg:
  "bucket_ok b \<Longrightarrow> bk_last b \<le> now \<Longrightarrow>
    0 \<le> fl64 (Seconds (time_Sub now (bk_last b)) * bk_refillPerSec b)"
  by (simp add: bucket_ok_def Seconds_nonneg time_Sub_bounds)

lemma refill_ok:
  assumes "bucket_ok b" "bk_last b \<le> now"
  shows "bucket_ok (refill now b)"
  using assms gain_nonneg [OF assms] by (auto simp: bucket_ok_def refill_def Let_def)

lemma spend_le:
  assumes "bucket_ok b" "1 \<le> bk_tokens b"
  shows "fl64 (bk_tokens b - 1) \<le> bk_capacity b" "0 \<le> fl64 (bk_tokens b - 1)"
proof -
  obtain n where n: "bk_capacity b = of_int n" "1 \<le> n" "n \<le> 2 ^ 53"
    using assms(1) by (auto simp: bucket_ok_def)
  have "bk_tokens b - 1 \<le> of_int (n - 1)" using assms(1) n(1) by (simp add: bucket_ok_def)
  from fl64_mono [OF _ this] assms(2) have "fl64 (bk_tokens b - 1) \<le> fl64 (of_int (n - 1))" by simp
  also have "\<dots> \<le> bk_capacity b" using n fl64_int [of "n - 1"] by simp
  finally show "fl64 (bk_tokens b - 1) \<le> bk_capacity b" .
  show "0 \<le> fl64 (bk_tokens b - 1)" using assms(2) by simp
qed

lemma Allow_ok:
  assumes "bucket_ok b" "bk_last b \<le> now"
  shows "bucket_ok (snd (Bucket_Allow now b))"
  using refill_ok [OF assms] spend_le [OF refill_ok [OF assms]]
  by (auto simp: Bucket_Allow_def Let_def bucket_ok_def)

section \<open>A run of calls\<close>

fun allow_run :: "time list \<Rightarrow> Bucket \<Rightarrow> nat \<times> Bucket" where
  "allow_run [] b = (0, b)"
| "allow_run (t # ts) b =
     (let (ok, b1) = Bucket_Allow t b; (n, b2) = allow_run ts b1 in ((if ok then Suc n else n), b2))"

text \<open>How many tokens one call can add or lose beyond the exact amounts, by rounding.\<close>

lemma refill_le:
  assumes "bucket_ok b" "bk_last b \<le> now"
  shows "bk_tokens (refill now b) \<le> bk_tokens b +
    (1 + roundoff) ^ 3 * bk_refillPerSec b * (of_int (now - bk_last b) / 1000000000) +
    bk_capacity b * roundoff"
proof -
  define r where "r = bk_refillPerSec b"
  define d where "d = time_Sub now (bk_last b)"
  define e :: rat where "e = of_int (now - bk_last b) / 1000000000"
  define g where "g = fl64 (Seconds d * r)"
  have r: "0 < r" using assms(1) by (simp add: r_def bucket_ok_def)
  have d: "0 \<le> d" "d \<le> now - bk_last b" using time_Sub_bounds [OF assms(2)] by (simp_all add: d_def)
  have "(of_int d :: rat) \<le> of_int (now - bk_last b)" using d(2) by (simp only: of_int_le_iff)
  then have de: "of_int d / 1000000000 \<le> e" unfolding e_def by (rule divide_right_mono) simp
  have "(1 + roundoff) ^ 2 * (of_int d / 1000000000) \<le> (1 + roundoff) ^ 2 * e"
    using de by (rule mult_left_mono) simp
  with Seconds_le [OF d(1)] have "Seconds d \<le> (1 + roundoff) ^ 2 * e" by linarith
  then have sr: "Seconds d * r \<le> (1 + roundoff) ^ 2 * e * r" using r by (simp add: mult_right_mono)
  have "g \<le> (1 + roundoff) * (Seconds d * r)"
    unfolding g_def using Seconds_nonneg [OF d(1)] r by (intro fl64_le) simp
  also have "\<dots> \<le> (1 + roundoff) * ((1 + roundoff) ^ 2 * e * r)" using sr by (intro mult_left_mono) simp_all
  finally have g: "g \<le> (1 + roundoff) ^ 3 * r * e" by (simp add: power3_eq_cube power2_eq_square mult_ac)
  have g0: "0 \<le> g" using gain_nonneg [OF assms] by (simp add: g_def d_def r_def)
  have t0: "0 \<le> bk_tokens b" "0 \<le> bk_capacity b" using assms(1) by (simp_all add: bucket_ok_def)
  have "min (bk_capacity b) (fl64 (bk_tokens b + g)) \<le> bk_tokens b + g + bk_capacity b * roundoff"
  proof (cases "bk_tokens b + g \<le> bk_capacity b")
    case True
    then have "(bk_tokens b + g) * roundoff \<le> bk_capacity b * roundoff" by (rule mult_right_mono) simp
    with fl64_le [of "bk_tokens b + g"] t0 g0 show ?thesis by (simp add: algebra_simps)
  next
    case False
    have "0 \<le> bk_capacity b * roundoff" using t0 by simp
    with False show ?thesis by linarith
  qed
  moreover have "bk_tokens (refill now b) = min (bk_capacity b) (fl64 (bk_tokens b + g))"
    by (simp add: refill_def Let_def g_def d_def r_def)
  ultimately show ?thesis using g unfolding r_def [symmetric] e_def [symmetric] by linarith
qed

lemma Allow_le:
  assumes "bucket_ok b" "bk_last b \<le> now"
  shows "of_bool (fst (Bucket_Allow now b)) + bk_tokens (snd (Bucket_Allow now b)) \<le> bk_tokens b +
    (1 + roundoff) ^ 3 * bk_refillPerSec b * (of_int (now - bk_last b) / 1000000000) +
    2 * bk_capacity b * roundoff"
proof -
  define t where "t = bk_tokens (refill now b)"
  have ok: "bucket_ok (refill now b)" by (rule refill_ok [OF assms])
  have c: "0 \<le> bk_capacity b * roundoff" using assms(1) by (auto simp: bucket_ok_def)
  have "t - 1 \<le> bk_capacity b" using ok by (simp add: bucket_ok_def t_def)
  then have "(t - 1) * roundoff \<le> bk_capacity b * roundoff" by (rule mult_right_mono) simp
  then have "1 \<le> t \<Longrightarrow> fl64 (t - 1) \<le> t - 1 + bk_capacity b * roundoff"
    using fl64_le [of "t - 1"] by (simp add: algebra_simps)
  then show ?thesis
    using refill_le [OF assms] c by (auto simp: Bucket_Allow_def Let_def t_def [symmetric])
qed

lemma allow_run_Cons:
  "fst (allow_run (t # ts) b) =
     (if fst (Bucket_Allow t b) then 1 else 0) + fst (allow_run ts (snd (Bucket_Allow t b)))"
  "snd (allow_run (t # ts) b) = snd (allow_run ts (snd (Bucket_Allow t b)))"
  by (simp_all add: case_prod_beta)

lemma allow_run_bound:
  assumes "bucket_ok b" "sorted (bk_last b # ts)"
  shows "of_nat (fst (allow_run ts b)) + bk_tokens (snd (allow_run ts b)) \<le> bk_tokens b +
    (1 + roundoff) ^ 3 * bk_refillPerSec b *
      (of_int (last (bk_last b # ts) - bk_last b) / 1000000000) +
    of_nat (length ts) * (2 * bk_capacity b * roundoff) \<and> bucket_ok (snd (allow_run ts b))"
  using assms
proof (induction ts arbitrary: b)
  case (Cons t ts)
  define b1 where "b1 = snd (Bucket_Allow t b)"
  define k where "k = (1 + roundoff) ^ 3 * bk_refillPerSec b"
  define c where "c = 2 * bk_capacity b * roundoff"
  have s: "bk_last b \<le> t" "sorted (bk_last b1 # ts)" using Cons.prems(2) by (simp_all add: b1_def)
  have l: "bk_refillPerSec b1 = bk_refillPerSec b" "bk_capacity b1 = bk_capacity b" "bk_last b1 = t"
    by (simp_all add: b1_def)
  have IH: "of_nat (fst (allow_run ts b1)) + bk_tokens (snd (allow_run ts b1)) \<le> bk_tokens b1 +
    k * (of_int (last (t # ts) - t) / 1000000000) + of_nat (length ts) * c"
    "bucket_ok (snd (allow_run ts b1))"
    using Cons.IH [OF Allow_ok [OF Cons.prems(1) s(1), folded b1_def] s(2)]
    unfolding l k_def c_def by simp_all
  have step: "of_bool (fst (Bucket_Allow t b)) + bk_tokens b1 \<le> bk_tokens b +
      k * (of_int (t - bk_last b) / 1000000000) + c"
    using Allow_le [OF Cons.prems(1) s(1)] unfolding k_def c_def b1_def by simp
  have split: "k * (of_int (last (t # ts) - bk_last b) / 1000000000) =
      k * (of_int (last (t # ts) - t) / 1000000000) + k * (of_int (t - bk_last b) / 1000000000)"
    by (simp add: field_simps)
  have len: "of_nat (length (t # ts)) * c = of_nat (length ts) * c + c"
    by (simp add: algebra_simps)
  have hd: "last (bk_last b # t # ts) = last (t # ts)" by simp
  have cnt: "(of_nat (fst (allow_run (t # ts) b)) :: rat) =
      of_bool (fst (Bucket_Allow t b)) + of_nat (fst (allow_run ts b1))"
    unfolding allow_run_Cons b1_def by simp
  show ?case
    using IH step
    unfolding hd allow_run_Cons(2) b1_def [symmetric] cnt k_def [symmetric] c_def [symmetric] split len
    by linarith
qed simp

text \<open>A full bucket admits as many calls as its burst, whenever they come.\<close>

lemma allow_run_burst:
  assumes "bucket_ok b" "sorted (bk_last b # ts)" "of_nat (length ts) \<le> bk_tokens b"
    "of_int m \<le> bk_tokens b" "int (length ts) \<le> m" "m \<le> 2 ^ 53"
  shows "fst (allow_run ts b) = length ts"
  using assms
proof (induction ts arbitrary: b m)
  case (Cons t ts)
  have s: "bk_last b \<le> t" "sorted (bk_last (snd (Bucket_Allow t b)) # ts)" using Cons.prems(2) by simp_all
  have m: "1 \<le> m" using Cons.prems(5) by simp
  have "fl64 (of_int m) \<le> fl64 (bk_tokens b + fl64 (Seconds (time_Sub t (bk_last b)) * bk_refillPerSec b))"
    using Cons.prems(4) gain_nonneg [OF Cons.prems(1) s(1)] m by (intro fl64_mono) simp_all
  moreover have "of_int m \<le> bk_capacity b" using Cons.prems(1,4) by (simp add: bucket_ok_def)
  ultimately have r: "of_int m \<le> bk_tokens (refill t b)"
    using m Cons.prems(6) by (simp add: refill_def Let_def fl64_int)
  have one: "(1 :: rat) \<le> of_int m" using m by simp
  then have adm: "Bucket_Allow t b = (True, (refill t b)\<lparr>bk_tokens := fl64 (bk_tokens (refill t b) - 1)\<rparr>)"
    using r by (simp add: Bucket_Allow_def Let_def)
  have "fl64 (of_int (m - 1)) \<le> fl64 (bk_tokens (refill t b) - 1)"
    using r m by (intro fl64_mono) simp_all
  then have left: "of_int (m - 1) \<le> bk_tokens (snd (Bucket_Allow t b))"
    using m Cons.prems(6) fl64_int [of "m - 1"] by (simp add: adm)
  have "int (length ts) \<le> m - 1" using Cons.prems(5) by simp
  then have "(of_int (int (length ts)) :: rat) \<le> of_int (m - 1)" by (simp only: of_int_le_iff)
  then have "of_nat (length ts) \<le> bk_tokens (snd (Bucket_Allow t b))" using left by simp
  from Cons.IH [OF Allow_ok [OF Cons.prems(1) s(1)] s(2) this left] Cons.prems(5,6) adm show ?case
    unfolding allow_run_Cons by simp
qed simp

section \<open>Keys are isolated, eviction is harmless\<close>

lemma keyed_isolation:
  assumes "key' \<noteq> key"
  shows "map_of (kl_buckets (snd (KeyedLimiter_Allow key t0 t1 t2 k))) key' = map_of (kl_buckets k) key'"
  using assms by (simp add: KeyedLimiter_Allow_def Let_def case_prod_beta update_conv')

text \<open>Seconds are monotone, so that enough idle time refills a bucket completely.\<close>

lemma Seconds_mono:
  assumes "0 \<le> d" "d \<le> d'" "d' < 2 ^ 63"
  shows "Seconds d \<le> Seconds d'"
proof -
  define s where "s = d div second"
  define s' where "s' = d' div second"
  have s: "0 \<le> s" "s \<le> s'" using assms by (simp_all add: s_def s'_def zdiv_mono1 pos_imp_zdiv_nonneg_iff)
  have "s' \<le> 2 ^ 63 div second" unfolding s'_def using assms(3) by (intro zdiv_mono1) simp_all
  then have big: "s' + 1 \<le> 2 ^ 53" by simp
  have e: "fl64 (of_int s) = of_int s" "fl64 (of_int s') = of_int s'"
    using s big by (simp_all add: fl64_int)
  define n where "n = fl64 (of_int (d mod second) / 1000000000)"
  define n' where "n' = fl64 (of_int (d' mod second) / 1000000000)"
  have sec: "Seconds d = fl64 (of_int s + n)" "Seconds d' = fl64 (of_int s' + n')"
    using assms e by (simp_all add: Seconds_def nanos_exact go_div_nonneg s_def s'_def n_def n'_def)
  have "d mod second \<le> second" using pos_mod_bound [of second d] by simp
  then have "(of_int (d mod second) :: rat) \<le> of_int second" by (simp only: of_int_le_iff)
  then have "fl64 (of_int (d mod second) / 1000000000) \<le> fl64 1" by (intro fl64_mono) simp_all
  then have n: "0 \<le> n" "n \<le> 1" "0 \<le> n'" by (simp_all add: n_def n'_def)
  have "of_int s + n \<le> of_int s' + n'"
  proof (cases "s = s'")
    case True
    have "d = second * s + d mod second" "d' = second * s' + d' mod second"
      by (simp_all add: s_def s'_def)
    with True assms(2) have "d mod second \<le> d' mod second" by linarith
    then have "(of_int (d mod second) :: rat) \<le> of_int (d' mod second)" by (simp only: of_int_le_iff)
    then have "n \<le> n'" unfolding n_def n'_def by (intro fl64_mono divide_right_mono) simp_all
    with True show ?thesis by simp
  next
    case False
    with s have "s + 1 \<le> s'" by simp
    then have "(of_int (s + 1) :: rat) \<le> of_int s'" by (simp only: of_int_le_iff)
    with n show ?thesis by simp
  qed
  then show ?thesis unfolding sec using s n by (intro fl64_mono) simp_all
qed

text \<open>
  If the refill over the idle time covers the capacity, a bucket that was idle that long is full.
\<close>

definition covers :: "Bucket \<Rightarrow> duration \<Rightarrow> bool" where
  "covers b d \<longleftrightarrow> bk_capacity b \<le> fl64 (Seconds d * bk_refillPerSec b)"

lemma idle_bucket_full:
  assumes "bucket_ok b" "covers b d" "0 \<le> d" "d < 2 ^ 63" "bk_last b + d \<le> now"
  shows "bk_tokens (refill now b) = bk_capacity b"
proof -
  have le: "bk_last b \<le> now" using assms(3,5) by simp
  have "d \<le> time_Sub now (bk_last b)" using assms(3-5) by (auto simp: time_Sub_def)
  from Seconds_mono [OF assms(3) this time_Sub_bounds(3) [OF le]]
  have "Seconds d * bk_refillPerSec b \<le> Seconds (time_Sub now (bk_last b)) * bk_refillPerSec b"
    using assms(1) by (simp add: bucket_ok_def mult_right_mono)
  then have g: "bk_capacity b \<le> fl64 (Seconds (time_Sub now (bk_last b)) * bk_refillPerSec b)"
    using fl64_mono [of "Seconds d * bk_refillPerSec b"] Seconds_nonneg [OF assms(3)] assms(1,2)
    by (fastforce simp: covers_def bucket_ok_def)
  obtain n where n: "bk_capacity b = of_int n" "1 \<le> n" "n \<le> 2 ^ 53"
    using assms(1) by (auto simp: bucket_ok_def)
  have "fl64 (of_int n) \<le>
      fl64 (bk_tokens b + fl64 (Seconds (time_Sub now (bk_last b)) * bk_refillPerSec b))"
    using g n assms(1) by (intro fl64_mono) (simp_all add: bucket_ok_def)
  then show ?thesis using n by (simp add: refill_def Let_def fl64_int)
qed

lemma new_bucket_full:
  assumes "bucket_ok (NewBucket rps burst t0)" "t0 \<le> now"
  shows "bk_tokens (refill now (NewBucket rps burst t0)) = bk_capacity (NewBucket rps burst t0)"
proof -
  let ?b = "NewBucket rps burst t0"
  obtain n where n: "bk_capacity ?b = of_int n" "1 \<le> n" "n \<le> 2 ^ 53"
    using assms(1) by (auto simp: bucket_ok_def)
  have t: "bk_tokens ?b = of_int n" "bk_last ?b = t0"
    using n(1) by (simp_all add: NewBucket_def Let_def)
  have "fl64 (of_int n) \<le> fl64 (bk_tokens ?b + fl64 (Seconds (time_Sub now t0) * bk_refillPerSec ?b))"
    using gain_nonneg [OF assms(1)] assms(2) t n by (intro fl64_mono) simp_all
  then show ?thesis using n t by (simp add: refill_def Let_def fl64_int)
qed

text \<open>The entries the limiter keeps for its own parameters.\<close>

definition limiter_ok :: "KeyedLimiter \<Rightarrow> bool" where
  "limiter_ok k \<longleftrightarrow> distinct (map fst (kl_buckets k)) \<and> kl_burst k \<le> 2 ^ 53 \<and>
     (\<forall>(key, e) \<in> set (kl_buckets k). bucket_ok (en_bucket e) \<and>
        bk_capacity (en_bucket e) = bk_capacity (NewBucket (kl_rps k) (kl_burst k) 0) \<and>
        bk_refillPerSec (en_bucket e) = bk_refillPerSec (NewBucket (kl_rps k) (kl_burst k) 0))"

lemma NewBucket_params:
  "bk_capacity (NewBucket rps burst t) = bk_capacity (NewBucket rps burst 0)"
  "bk_refillPerSec (NewBucket rps burst t) = bk_refillPerSec (NewBucket rps burst 0)"
  "bk_last (NewBucket rps burst t) = t"
  by (simp_all add: NewBucket_def Let_def)

text \<open>Two buckets with equal parameters that are full after the refill answer alike.\<close>

lemma full_buckets_agree:
  assumes "bk_tokens (refill now a) = bk_capacity a" "bk_tokens (refill now b) = bk_capacity b"
    "bk_capacity a = bk_capacity b" "bk_refillPerSec a = bk_refillPerSec b"
  shows "Bucket_Allow now a = Bucket_Allow now b"
proof -
  have "refill now a = refill now b"
    using assms by (intro Bucket.equality) simp_all
  then show ?thesis by (simp add: Bucket_Allow_def)
qed

lemma eviction_harmless:
  assumes k: "limiter_ok k" "covers (NewBucket (kl_rps k) (kl_burst k) 0) (kl_idleTTL k)"
    "0 \<le> kl_idleTTL k" "kl_idleTTL k < 2 ^ 63"
    and e: "map_of (kl_buckets k) key = Some e" "bk_last (en_bucket e) + kl_idleTTL k \<le> t2"
    and evicted: "en_seen e < now - kl_idleTTL k" and t0: "t0 \<le> t2"
  shows "map_of (kl_buckets (janitor_sweep now k)) key = None \<and>
    fst (KeyedLimiter_Allow key t0 t1 t2 (janitor_sweep now k)) = fst (KeyedLimiter_Allow key t0 t1 t2 k) \<and>
    map_of (kl_buckets (snd (KeyedLimiter_Allow key t0 t1 t2 (janitor_sweep now k)))) key =
      map_of (kl_buckets (snd (KeyedLimiter_Allow key t0 t1 t2 k))) key"
proof -
  let ?n = "NewBucket (kl_rps k) (kl_burst k) t0"
  have b: "bucket_ok (en_bucket e)" "bk_capacity (en_bucket e) = bk_capacity ?n"
    "bk_refillPerSec (en_bucket e) = bk_refillPerSec ?n"
    using k(1) map_of_SomeD [OF e(1)] NewBucket_params [of "kl_rps k" "kl_burst k" t0]
    by (auto simp: limiter_ok_def)
  have c: "covers (en_bucket e) (kl_idleTTL k)"
    using k(2) b(2,3) NewBucket_params [of "kl_rps k" "kl_burst k" t0] by (simp add: covers_def)
  have n: "bucket_ok ?n" using k(1) by (intro NewBucket_ok) (simp add: limiter_ok_def)
  have same: "Bucket_Allow t2 ?n = Bucket_Allow t2 (en_bucket e)"
    using idle_bucket_full [OF b(1) c k(3,4) e(2)] new_bucket_full [OF n t0] b(2,3)
    by (intro full_buckets_agree) simp_all
  have "map_of (filter (\<lambda>(key, e). \<not> en_seen e < now - kl_idleTTL k) (kl_buckets k)) key = None"
    using k(1) e(1) evicted map_of_SomeD [OF e(1)]
    by (auto simp: limiter_ok_def map_of_eq_None_iff dest: eq_key_imp_eq_value)
  with same e(1) show ?thesis
    by (simp add: KeyedLimiter_Allow_def janitor_sweep_def Let_def case_prod_beta update_conv')
qed

lemma keyed_ok:
  assumes "limiter_ok k" "t0 \<le> t2"
    and "\<And>e. map_of (kl_buckets k) key = Some e \<Longrightarrow> bk_last (en_bucket e) \<le> t2"
  shows "limiter_ok (snd (KeyedLimiter_Allow key t0 t1 t2 k))"
proof -
  define b0 where "b0 = (case map_of (kl_buckets k) key of Some e \<Rightarrow> en_bucket e
    | None \<Rightarrow> NewBucket (kl_rps k) (kl_burst k) t0)"
  have b0: "bucket_ok b0" "bk_last b0 \<le> t2"
    "bk_capacity b0 = bk_capacity (NewBucket (kl_rps k) (kl_burst k) 0)"
    "bk_refillPerSec b0 = bk_refillPerSec (NewBucket (kl_rps k) (kl_burst k) 0)"
    using assms NewBucket_ok [of "kl_burst k" "kl_rps k" t0] NewBucket_params [of "kl_rps k" "kl_burst k" t0]
    by (auto simp: b0_def limiter_ok_def split: option.split dest!: map_of_SomeD)
  have k': "snd (KeyedLimiter_Allow key t0 t1 t2 k) = k\<lparr>kl_buckets :=
      AList.update key \<lparr> en_bucket = snd (Bucket_Allow t2 b0), en_seen = t1 \<rparr> (kl_buckets k)\<rparr>"
    by (simp add: KeyedLimiter_Allow_def Let_def case_prod_beta b0_def)
  have d: "distinct (map fst (AList.update key e (kl_buckets k)))" for e
    using assms(1) by (simp add: limiter_ok_def distinct_update)
  have mem: "x \<in> set (AList.update key e (kl_buckets k)) \<Longrightarrow> x = (key, e) \<or> x \<in> set (kl_buckets k)" for x e
    using d [of e] assms(1)
    by (cases x) (auto simp: limiter_ok_def update_conv' dest!: map_of_is_SomeI split: if_splits
        dest: map_of_SomeD)
  show ?thesis
    unfolding k' using assms(1) b0 d Allow_ok [OF b0(1,2)]
    by (auto simp: limiter_ok_def dest!: mem)
qed

section \<open>The limiter against a bucket for every key\<close>

text \<open>
  The specification: every key has a bucket of its own from its first call on, and nothing is ever
  evicted. The limiter is run on the calls and the sweeps of its janitor in the order they happen.
\<close>

datatype limiter_event = Call string time time time | Sweep time

fun limiter_run :: "limiter_event list \<Rightarrow> KeyedLimiter \<Rightarrow> bool list" where
  "limiter_run [] k = []"
| "limiter_run (Call key t0 t1 t2 # evs) k =
     (let (ok, k') = KeyedLimiter_Allow key t0 t1 t2 k in ok # limiter_run evs k')"
| "limiter_run (Sweep now # evs) k = limiter_run evs (janitor_sweep now k)"

fun buckets_run :: "rat \<Rightarrow> int \<Rightarrow> limiter_event list \<Rightarrow> (string \<rightharpoonup> Bucket) \<Rightarrow> bool list" where
  "buckets_run rps burst [] m = []"
| "buckets_run rps burst (Call key t0 t1 t2 # evs) m =
     (let (ok, b) = Bucket_Allow t2 (case m key of Some b \<Rightarrow> b | None \<Rightarrow> NewBucket rps burst t0)
      in ok # buckets_run rps burst evs (m(key \<mapsto> b)))"
| "buckets_run rps burst (Sweep now # evs) m = buckets_run rps burst evs m"

text \<open>The clock does not run backwards, and a call takes at most \<open>g\<close> from the entry to the bucket.\<close>

fun timed :: "duration \<Rightarrow> time \<Rightarrow> limiter_event list \<Rightarrow> bool" where
  "timed g now [] = True"
| "timed g now (Call key t0 t1 t2 # evs) =
     (now \<le> t0 \<and> t0 \<le> t1 \<and> t1 \<le> t2 \<and> t2 \<le> t1 + g \<and> timed g t2 evs)"
| "timed g now (Sweep t # evs) = (now \<le> t \<and> timed g t evs)"

text \<open>
  An entry holds the bucket of the specification; a key without one has no bucket there either, or
  one that has been idle for long enough to be full.
\<close>

definition idle_since :: "KeyedLimiter \<Rightarrow> duration \<Rightarrow> time \<Rightarrow> Bucket \<Rightarrow> bool" where
  "idle_since k d now b \<longleftrightarrow> bucket_ok b \<and> bk_last b + d \<le> now \<and>
     bk_capacity b = bk_capacity (NewBucket (kl_rps k) (kl_burst k) 0) \<and>
     bk_refillPerSec b = bk_refillPerSec (NewBucket (kl_rps k) (kl_burst k) 0)"

definition evicts_only_idle :: "duration \<Rightarrow> time \<Rightarrow> KeyedLimiter \<Rightarrow> (string \<rightharpoonup> Bucket) \<Rightarrow> bool" where
  "evicts_only_idle g now k m \<longleftrightarrow> limiter_ok k \<and>
     (\<forall>key. case map_of (kl_buckets k) key of
        Some e \<Rightarrow> m key = Some (en_bucket e) \<and> bk_last (en_bucket e) \<le> now \<and>
          bk_last (en_bucket e) \<le> en_seen e + g
      | None \<Rightarrow> (case m key of None \<Rightarrow> True | Some b \<Rightarrow> idle_since k (kl_idleTTL k - g) now b))"

lemma evicts_only_idleD:
  assumes "evicts_only_idle g now k m"
  shows "limiter_ok k"
    "map_of (kl_buckets k) key = Some e \<Longrightarrow>
      m key = Some (en_bucket e) \<and> bk_last (en_bucket e) \<le> now \<and> bk_last (en_bucket e) \<le> en_seen e + g"
    "map_of (kl_buckets k) key = None \<Longrightarrow> m key = Some b \<Longrightarrow> idle_since k (kl_idleTTL k - g) now b"
  using assms by (auto simp: evicts_only_idle_def split: option.splits dest: spec [of _ key])

lemma evicts_only_idleI:
  assumes "limiter_ok k"
    and "\<And>key e. map_of (kl_buckets k) key = Some e \<Longrightarrow>
      m key = Some (en_bucket e) \<and> bk_last (en_bucket e) \<le> now \<and> bk_last (en_bucket e) \<le> en_seen e + g"
    and "\<And>key b. map_of (kl_buckets k) key = None \<Longrightarrow> m key = Some b \<Longrightarrow>
      idle_since k (kl_idleTTL k - g) now b"
  shows "evicts_only_idle g now k m"
  using assms by (auto simp: evicts_only_idle_def split: option.split)

lemma idle_since_later:
  "idle_since k d now b \<Longrightarrow> now \<le> t \<Longrightarrow> kl_rps k' = kl_rps k \<Longrightarrow> kl_burst k' = kl_burst k \<Longrightarrow>
    idle_since k' d t b"
  by (auto simp: idle_since_def)

lemma limiter_params [simp]:
  "kl_rps (snd (KeyedLimiter_Allow key t0 t1 t2 k)) = kl_rps k"
  "kl_burst (snd (KeyedLimiter_Allow key t0 t1 t2 k)) = kl_burst k"
  "kl_idleTTL (snd (KeyedLimiter_Allow key t0 t1 t2 k)) = kl_idleTTL k"
  "kl_rps (janitor_sweep t k) = kl_rps k" "kl_burst (janitor_sweep t k) = kl_burst k"
  "kl_idleTTL (janitor_sweep t k) = kl_idleTTL k"
  by (simp_all add: KeyedLimiter_Allow_def janitor_sweep_def Let_def case_prod_beta)

lemma Allow_entry:
  assumes "evicts_only_idle g now k m" "now \<le> t0" "t0 \<le> t2"
    and "covers (NewBucket (kl_rps k) (kl_burst k) 0) (kl_idleTTL k - g)"
      "0 \<le> kl_idleTTL k - g" "kl_idleTTL k - g < 2 ^ 63"
  shows "Bucket_Allow t2 (case map_of (kl_buckets k) key of
      Some e \<Rightarrow> en_bucket e | None \<Rightarrow> NewBucket (kl_rps k) (kl_burst k) t0) =
    Bucket_Allow t2 (case m key of Some b \<Rightarrow> b | None \<Rightarrow> NewBucket (kl_rps k) (kl_burst k) t0)"
proof (cases "map_of (kl_buckets k) key")
  case None
  let ?n = "NewBucket (kl_rps k) (kl_burst k) t0"
  note n = NewBucket_params [of "kl_rps k" "kl_burst k" t0]
  have "Bucket_Allow t2 ?n = Bucket_Allow t2 b" if b: "m key = Some b" for b
  proof -
    have i: "idle_since k (kl_idleTTL k - g) now b" by (rule evicts_only_idleD(3) [OF assms(1) None b])
    then have full: "bk_tokens (refill t2 b) = bk_capacity b"
      using assms(2-6) by (intro idle_bucket_full [of b "kl_idleTTL k - g"]) (simp_all add: idle_since_def covers_def)
    have "bucket_ok ?n" using evicts_only_idleD(1) [OF assms(1)] by (intro NewBucket_ok) (simp add: limiter_ok_def)
    from full_buckets_agree [OF new_bucket_full [OF this assms(3)] full] i n show ?thesis
      by (simp add: idle_since_def)
  qed
  with None show ?thesis by (simp split: option.split)
qed (use evicts_only_idleD(2) [OF assms(1)] in simp)

lemma call_preserves:
  assumes inv: "evicts_only_idle g now k m" and t: "now \<le> t0" "t0 \<le> t1" "t1 \<le> t2" "t2 \<le> t1 + g"
    and c: "covers (NewBucket (kl_rps k) (kl_burst k) 0) (kl_idleTTL k - g)"
      "0 \<le> kl_idleTTL k - g" "kl_idleTTL k - g < 2 ^ 63"
    and b: "b = Bucket_Allow t2 (case m key of Some b \<Rightarrow> b | None \<Rightarrow> NewBucket (kl_rps k) (kl_burst k) t0)"
  shows "fst (KeyedLimiter_Allow key t0 t1 t2 k) = fst b"
    "evicts_only_idle g t2 (snd (KeyedLimiter_Allow key t0 t1 t2 k)) (m(key \<mapsto> snd b))"
proof -
  have t02: "t0 \<le> t2" using t by simp
  have r: "KeyedLimiter_Allow key t0 t1 t2 k =
      (fst b, k\<lparr>kl_buckets := AList.update key \<lparr> en_bucket = snd b, en_seen = t1 \<rparr> (kl_buckets k)\<rparr>)"
    using Allow_entry [OF inv t(1) t02 c, of key] by (simp add: KeyedLimiter_Allow_def Let_def case_prod_beta b)
  then show "fst (KeyedLimiter_Allow key t0 t1 t2 k) = fst b" by simp
  have ok: "limiter_ok (snd (KeyedLimiter_Allow key t0 t1 t2 k))"
    by (rule keyed_ok [OF evicts_only_idleD(1) [OF inv] t02])
      (use evicts_only_idleD(2) [OF inv, of key] t in fastforce)
  have last: "bk_last (snd b) = t2" by (simp add: b)
  have l: "map_of (kl_buckets (snd (KeyedLimiter_Allow key t0 t1 t2 k))) =
      (map_of (kl_buckets k))(key \<mapsto> \<lparr> en_bucket = snd b, en_seen = t1 \<rparr>)"
    by (simp add: r update_conv')
  show "evicts_only_idle g t2 (snd (KeyedLimiter_Allow key t0 t1 t2 k)) (m(key \<mapsto> snd b))"
  proof (rule evicts_only_idleI [OF ok])
    fix x e assume "map_of (kl_buckets (snd (KeyedLimiter_Allow key t0 t1 t2 k))) x = Some e"
    then show "(m(key \<mapsto> snd b)) x = Some (en_bucket e) \<and> bk_last (en_bucket e) \<le> t2 \<and>
        bk_last (en_bucket e) \<le> en_seen e + g"
      using evicts_only_idleD(2) [OF inv, of x e] last t unfolding l by (auto split: if_splits)
  next
    fix x c assume "map_of (kl_buckets (snd (KeyedLimiter_Allow key t0 t1 t2 k))) x = None"
      "(m(key \<mapsto> snd b)) x = Some c"
    then have "idle_since k (kl_idleTTL k - g) now c"
      using evicts_only_idleD(3) [OF inv, of x c] unfolding l by (simp split: if_splits)
    then show "idle_since (snd (KeyedLimiter_Allow key t0 t1 t2 k))
        (kl_idleTTL (snd (KeyedLimiter_Allow key t0 t1 t2 k)) - g) t2 c"
      using t by (auto elim: idle_since_later)
  qed
qed

lemma sweep_ok: "limiter_ok k \<Longrightarrow> limiter_ok (janitor_sweep now k)"
  by (auto simp: limiter_ok_def janitor_sweep_def Let_def intro: distinct_map_filter)

lemma sweep_lookup:
  assumes "limiter_ok k"
  shows "map_of (kl_buckets (janitor_sweep now k)) key =
    (case map_of (kl_buckets k) key of None \<Rightarrow> None
     | Some e \<Rightarrow> if en_seen e < now - kl_idleTTL k then None else Some e)"
proof -
  have "map_of (filter (\<lambda>(key, e). \<not> P e) al) key =
      (case map_of al key of None \<Rightarrow> None | Some e \<Rightarrow> if P e then None else Some e)"
    if "distinct (map fst al)" for P and al :: "(string \<times> limiter_entry) list"
    using that by (induction al) (auto split: option.splits simp: map_of_eq_None_iff)
  with assms show ?thesis by (simp add: janitor_sweep_def Let_def limiter_ok_def)
qed

lemma sweep_preserves:
  assumes inv: "evicts_only_idle g now k m" and t: "now \<le> t"
  shows "evicts_only_idle g t (janitor_sweep t k) m"
proof -
  note ok = evicts_only_idleD(1) [OF inv]
  have e: "idle_since k (kl_idleTTL k - g) t (en_bucket e)"
    if "map_of (kl_buckets k) key = Some e" "en_seen e < t - kl_idleTTL k" for key e
    using that ok evicts_only_idleD(2) [OF inv that(1)] map_of_SomeD [OF that(1)]
    by (auto simp: idle_since_def limiter_ok_def)
  show ?thesis
  proof (rule evicts_only_idleI [OF sweep_ok [OF ok]])
    fix key x assume "map_of (kl_buckets (janitor_sweep t k)) key = Some x"
    then show "m key = Some (en_bucket x) \<and> bk_last (en_bucket x) \<le> t \<and> bk_last (en_bucket x) \<le> en_seen x + g"
      using evicts_only_idleD(2) [OF inv, of key x] t
      by (auto simp: sweep_lookup [OF ok] split: option.splits if_splits)
  next
    fix key b assume a: "map_of (kl_buckets (janitor_sweep t k)) key = None" "m key = Some b"
    have "idle_since k (kl_idleTTL k - g) t b"
    proof (cases "map_of (kl_buckets k) key")
      case None
      then show ?thesis
        using idle_since_later [OF evicts_only_idleD(3) [OF inv None a(2)] t] by simp
    next
      case (Some x)
      with a evicts_only_idleD(2) [OF inv Some] e [OF Some] show ?thesis
        by (simp add: sweep_lookup [OF ok] split: if_splits)
    qed
    then show "idle_since (janitor_sweep t k) (kl_idleTTL (janitor_sweep t k) - g) t b"
      by (auto elim: idle_since_later)
  qed
qed

lemma limiter_run_refines:
  assumes "evicts_only_idle g now k m" "timed g now evs"
    and "covers (NewBucket (kl_rps k) (kl_burst k) 0) (kl_idleTTL k - g)"
      "0 \<le> kl_idleTTL k - g" "kl_idleTTL k - g < 2 ^ 63"
  shows "limiter_run evs k = buckets_run (kl_rps k) (kl_burst k) evs m"
  using assms
proof (induction evs arbitrary: now k m)
  case (Cons ev evs)
  show ?case
  proof (cases ev)
    case (Call key t0 t1 t2)
    define b where "b = Bucket_Allow t2 (case m key of Some b \<Rightarrow> b | None \<Rightarrow> NewBucket (kl_rps k) (kl_burst k) t0)"
    have t: "now \<le> t0" "t0 \<le> t1" "t1 \<le> t2" "t2 \<le> t1 + g" "timed g t2 evs"
      using Cons.prems(2) Call by simp_all
    note p = call_preserves [OF Cons.prems(1) t(1-4) Cons.prems(3-5) b_def]
    have "limiter_run evs (snd (KeyedLimiter_Allow key t0 t1 t2 k)) =
        buckets_run (kl_rps k) (kl_burst k) evs (m(key \<mapsto> snd b))"
      using Cons.IH [OF p(2) t(5)] Cons.prems(3-5) unfolding limiter_params by blast
    with p(1) show ?thesis unfolding Call b_def by (simp add: case_prod_beta)
  next
    case (Sweep t)
    with Cons.prems(2-5) Cons.IH [OF sweep_preserves [OF Cons.prems(1)], of t] show ?thesis by simp
  qed
qed simp

section \<open>What the limiters promise\<close>

text \<open>
  C16: the number of requests a bucket admits is bounded. However the calls are spread over time,
  a new bucket admits at most its burst plus its rate times the seconds that passed, up to the
  rounding of the \<open>float64\<close> operations (three relative roundings of the refill and two of at most
  the capacity per call), and its balance stays between zero and the burst. A rate or a burst that
  is not positive counts as one.
\<close>

theorem bucket_admission_bounded:
  assumes "burst \<le> 2 ^ 53" "sorted (t0 # ts)"
    and "B = (if burst \<le> 0 then 1 else burst)" "rate = (if rps \<le> 0 then 1 else rps)"
  shows "of_nat (fst (allow_run ts (NewBucket rps burst t0))) \<le> of_int B +
      (1 + roundoff) ^ 3 * rate * (of_int (last (t0 # ts) - t0) / 1000000000) +
      of_nat (length ts) * (2 * of_int B * roundoff) \<and>
    0 \<le> bk_tokens (snd (allow_run ts (NewBucket rps burst t0))) \<and>
    bk_tokens (snd (allow_run ts (NewBucket rps burst t0))) \<le> of_int B"
proof -
  let ?b = "NewBucket rps burst t0"
  have cap: "bk_capacity ?b = of_int B" "bk_tokens ?b = of_int B" "bk_refillPerSec ?b = rate" "bk_last ?b = t0"
    using assms(1,3,4) fl64_int [of B] by (simp_all add: NewBucket_def Let_def)
  have ok: "bucket_ok ?b" by (rule NewBucket_ok [OF assms(1)])
  have "bk_capacity (snd (allow_run ts b)) = bk_capacity b" for b
    by (induction ts arbitrary: b) (simp_all add: allow_run_Cons(2) del: allow_run.simps(2))
  with allow_run_bound [OF ok, of ts] assms(2) cap show ?thesis
    by (auto simp: bucket_ok_def)
qed

theorem bucket_admission_bounded_witness:
  "of_nat (fst (allow_run [0, 0, second] (NewBucket 1 1 0))) \<le>
     (1 :: rat) + (1 + roundoff) ^ 3 + 3 * (2 * roundoff)"
  using bucket_admission_bounded [of 1 0 "[0, 0, second]" 1 1 1] by simp

text \<open>
  A client may use its whole burst. As many calls as the burst of a new bucket are all
  admitted, whenever they are made.
\<close>

lemma bucket_admits_burst:
  assumes "burst \<le> 2 ^ 53" "sorted (t0 # ts)" "int (length ts) \<le> (if burst \<le> 0 then 1 else burst)"
  shows "fst (allow_run ts (NewBucket rps burst t0)) = length ts"
proof -
  define B where "B = (if burst \<le> 0 then 1 else burst)"
  have cap: "bk_tokens (NewBucket rps burst t0) = of_int B" "bk_last (NewBucket rps burst t0) = t0"
    and B: "B \<le> 2 ^ 53"
    using assms(1) fl64_int [of B] by (simp_all add: NewBucket_def Let_def B_def)
  have "(of_int (int (length ts)) :: rat) \<le> of_int B" using assms(3) by (simp only: of_int_le_iff B_def)
  then show ?thesis
    using allow_run_burst [OF NewBucket_ok [OF assms(1)], where m = B and ts = ts] assms(2,3) cap B
    by (simp add: B_def)
qed

text \<open>
  C17: the per-key limiter behaves as if every key had a bucket of its own that is never evicted.
  For every sequence of calls and janitor sweeps in the order of the clock the answers are those of
  that specification, provided the idle time before an eviction, less the time a call may take,
  refills a bucket completely.
\<close>

theorem keyed_limiter_isolates_keys:
  assumes "k = NewKeyedLimiter rps burst ttl" "burst \<le> 2 ^ 53" "timed g now evs"
    and "0 \<le> kl_idleTTL k - g" "kl_idleTTL k - g < 2 ^ 63"
    and "covers (NewBucket rps burst 0) (kl_idleTTL k - g)"
  shows "limiter_run evs k = buckets_run rps burst evs Map.empty"
proof -
  have p: "kl_rps k = rps" "kl_burst k = burst" "kl_buckets k = []"
    by (simp_all add: assms(1) NewKeyedLimiter_def)
  have "evicts_only_idle g now k Map.empty"
    using assms(2) p by (intro evicts_only_idleI) (simp_all add: limiter_ok_def)
  from limiter_run_refines [OF this assms(3)] assms(4-6) p show ?thesis by simp
qed

theorem keyed_limiter_isolates_keys_witness:
  "limiter_run [Call ''a'' 0 0 0, Sweep (hour), Call ''a'' hour hour hour] (NewKeyedLimiter 2 3 0) =
   buckets_run 2 3 [Call ''a'' 0 0 0, Sweep (hour), Call ''a'' hour hour hour] Map.empty"
proof -
  have "covers (NewBucket 2 3 0) (10 * minute)"
    using fl64_int [of 3] fl64_int [of 600] fl64_int [of 1200]
    by (simp add: covers_def NewBucket_def Seconds_def go_div_nonneg go_mod_nonneg)
  then show ?thesis
    using keyed_limiter_isolates_keys [OF refl, of 3 0 0
        "[Call ''a'' 0 0 0, Sweep (hour), Call ''a'' hour hour hour]" 2 0]
    by (simp add: NewKeyedLimiter_def)
qed

end
