(* ===== verification/Http.thy ===== *)
theory Http
  imports Go_Json Security Rate_Limiter
begin

text \<open>
  Requests and responses as the API sees them: the parts of \<open>net/http\<close>, \<open>net/textproto\<close>,
  \<open>net/url\<close>, \<open>net\<close>, \<open>strings\<close> and \<open>strconv\<close> the sources call, the correlation ids on the context
  (\<open>internal/logger\<close>) and the helpers of \<open>internal/api/httpx\<close>.
\<close>

section \<open>Headers\<close>

text \<open>A header maps canonical names to values; \<open>CanonicalMIMEHeaderKey\<close> leaves invalid names alone.\<close>

type_synonym header = "(string \<times> string list) list"

definition is_lower :: "char \<Rightarrow> bool" where "is_lower c \<longleftrightarrow> 97 \<le> byte_of c \<and> byte_of c \<le> 122"
definition is_upper :: "char \<Rightarrow> bool" where "is_upper c \<longleftrightarrow> 65 \<le> byte_of c \<and> byte_of c \<le> 90"

definition is_token_char :: "char \<Rightarrow> bool" where
  "is_token_char c \<longleftrightarrow> is_lower c \<or> is_upper c \<or> is_digit c \<or> byte_of c \<in> {33, 35, 36, 37, 38, 39, 42, 43, 45, 46, 94, 95, 96, 124, 126}"

fun canonical_from :: "bool \<Rightarrow> string \<Rightarrow> string" where
  "canonical_from up [] = []"
| "canonical_from up (c # s) =
     (let c' = (if up \<and> is_lower c then char_of (byte_of c - 32)
                else if \<not> up \<and> is_upper c then char_of (byte_of c + 32) else c)
      in c' # canonical_from (c' = CHR ''-'') s)"

definition CanonicalMIMEHeaderKey :: "string \<Rightarrow> string" where
  "CanonicalMIMEHeaderKey s = (if list_all is_token_char s then canonical_from True s else s)"

definition Header_Get :: "header \<Rightarrow> string \<Rightarrow> string" where
  "Header_Get h k = (case map_of h (CanonicalMIMEHeaderKey k) of Some (v # _) \<Rightarrow> v | _ \<Rightarrow> '''')"

definition Header_Set :: "header \<Rightarrow> string \<Rightarrow> string \<Rightarrow> header" where
  "Header_Set h k v = AList.update (CanonicalMIMEHeaderKey k) [v] h"

lemma Header_Get_Set:
  "Header_Get (Header_Set h k v) k' =
     (if CanonicalMIMEHeaderKey k' = CanonicalMIMEHeaderKey k then v else Header_Get h k')"
  by (simp add: Header_Get_def Header_Set_def update_conv')

section \<open>The context of a request (logger.go, auth.go)\<close>

text \<open>Whether the context has ended, and the values the program stores on it.\<close>

record rctx =
  rc_err :: ctx
  rc_requestID :: "string option"
  rc_traceID :: "string option"
  rc_claims :: "Claims option"

definition WithIDs :: "rctx \<Rightarrow> string \<Rightarrow> string \<Rightarrow> rctx" where
  "WithIDs c requestID traceID = c\<lparr>rc_requestID := Some requestID, rc_traceID := Some traceID\<rparr>"

definition stringFrom :: "string option \<Rightarrow> string" where
  "stringFrom v = (case v of Some s \<Rightarrow> s | None \<Rightarrow> '''')"

definition ctx_RequestID :: "rctx \<Rightarrow> string" where "ctx_RequestID c = stringFrom (rc_requestID c)"
definition ctx_TraceID :: "rctx \<Rightarrow> string" where "ctx_TraceID c = stringFrom (rc_traceID c)"

text \<open>The fields a child logger adds to each of its lines, and the encoding of a configured format.\<close>

definition FromContext :: "rctx \<Rightarrow> (string \<times> string) list \<Rightarrow> (string \<times> string) list" where
  "FromContext c base = base @ [(''request_id'', ctx_RequestID c), (''trace_id'', ctx_TraceID c)]"

definition log_encoding :: "string \<Rightarrow> string" where
  "log_encoding format = (if format = ''console'' then ''console'' else ''json'')"

definition ClaimsFrom :: "rctx \<Rightarrow> Claims option" where "ClaimsFrom c = rc_claims c"

section \<open>Requests\<close>

text \<open>
  The body: the bytes the client sends, the error with which reading ends if the client fails,
  and the limit of a \<open>MaxBytesReader\<close> around it.
\<close>

record body =
  bd_bytes :: string
  bd_err :: "goerr option"
  bd_limit :: "int option"

text \<open>
  \<open>rq_RawPath\<close> is the encoded form of the path that \<open>net/url\<close> keeps where it is not the default
  encoding, and empty otherwise. The last two fields are the state of chi's route context: the rest
  of the path and the parameter.
\<close>

record Request =
  rq_Method :: string
  rq_Path :: string
  rq_RawPath :: string
  rq_RawQuery :: string
  rq_Header :: header
  rq_RemoteAddr :: string
  rq_ContentLength :: int
  rq_Body :: body
  rq_ctx :: rctx
  rq_RoutePath :: string
  rq_id :: string

datatype read_error = MaxBytesError int | ReadError goerr

definition MaxBytesReader :: "body \<Rightarrow> int \<Rightarrow> body" where
  "MaxBytesReader b n = b\<lparr>bd_limit := Some (case bd_limit b of None \<Rightarrow> max 0 n | Some m \<Rightarrow> min m (max 0 n))\<rparr>"

definition io_ReadAll :: "body \<Rightarrow> read_error + string" where
  "io_ReadAll b =
     (case bd_limit b of
        Some n \<Rightarrow> if n < int (length (bd_bytes b)) then Inl (MaxBytesError n)
                  else (case bd_err b of Some e \<Rightarrow> Inl (ReadError e) | None \<Rightarrow> Inr (bd_bytes b))
      | None \<Rightarrow> (case bd_err b of Some e \<Rightarrow> Inl (ReadError e) | None \<Rightarrow> Inr (bd_bytes b)))"

subsection \<open>Query strings\<close>

fun split_on :: "char \<Rightarrow> string \<Rightarrow> string list" where
  "split_on d [] = [[]]"
| "split_on d (c # s) = (if c = d then [] # split_on d s
     else case split_on d s of x # xs \<Rightarrow> (c # x) # xs | [] \<Rightarrow> [[c]])"

fun QueryUnescape :: "string \<Rightarrow> string option" where
  "QueryUnescape [] = Some []"
| "QueryUnescape (c # s) =
     (if c = CHR ''%'' then
        (case s of a # b # t \<Rightarrow>
           if is_hex a \<and> is_hex b
           then map_option ((#) (char_of (16 * hex_val a + hex_val b))) (QueryUnescape t) else None
         | _ \<Rightarrow> None)
      else map_option ((#) (if c = CHR ''+'' then CHR '' '' else c)) (QueryUnescape s))"

definition query_pair :: "string \<Rightarrow> (string \<times> string) option" where
  "query_pair s =
     (if s = '''' \<or> CHR '';'' \<in> set s then None
      else let k = takeWhile (\<lambda>c. c \<noteq> CHR ''='') s; v = drop (Suc (length k)) s
           in case (QueryUnescape k, QueryUnescape v) of (Some k', Some v') \<Rightarrow> Some (k', v') | _ \<Rightarrow> None)"

definition ParseQuery :: "string \<Rightarrow> (string \<times> string) list" where
  "ParseQuery q = List.map_filter query_pair (split_on (CHR ''&'') q)"

definition Values_Get :: "(string \<times> string) list \<Rightarrow> string \<Rightarrow> string" where
  "Values_Get q k = (case map_of q k of Some v \<Rightarrow> v | None \<Rightarrow> '''')"

definition strconv_Atoi :: "string \<Rightarrow> int option" where
  "strconv_Atoi s =
     (let (neg, ds) = (case s of c # t \<Rightarrow> if c = CHR ''-'' then (True, t) else if c = CHR ''+'' then (False, t) else (False, s)
                       | [] \<Rightarrow> (False, s))
      in if ds = '''' \<or> \<not> list_all is_digit ds then None
         else let n = (if neg then - digits_val ds else digits_val ds)
              in if - (2 ^ 63) \<le> n \<and> n < 2 ^ 63 then Some n else None)"

subsection \<open>Addresses and spaces\<close>

text \<open>\<open>net.SplitHostPort\<close>: the host, or nothing where it reports an error.\<close>

definition last_index :: "char \<Rightarrow> string \<Rightarrow> nat option" where
  "last_index c s = (if c \<in> set s then Some (length s - Suc (length (takeWhile (\<lambda>x. x \<noteq> c) (rev s)))) else None)"

definition SplitHostPort :: "string \<Rightarrow> string option" where
  "SplitHostPort s =
     (case last_index (CHR '':'') s of
        None \<Rightarrow> None
      | Some i \<Rightarrow>
          if hd s = CHR ''['' then
            (let n = length (takeWhile (\<lambda>c. c \<noteq> CHR '']'') s)
             in if n = length s \<or> n + 1 \<noteq> i then None
                else if CHR ''['' \<in> set (drop 1 s) \<or> CHR '']'' \<in> set (drop (n + 1) s) then None
                else Some (take (n - 1) (drop 1 s)))
          else (let host = take i s
                in if CHR '':'' \<in> set host \<or> CHR ''['' \<in> set s \<or> CHR '']'' \<in> set s then None else Some host))"

definition utf8_spaces :: "string list" where
  "utf8_spaces = map EncodeRune
     ([9, 10, 11, 12, 13, 32, 0x85, 0xA0, 0x1680] @ [0x2000..<0x200B] @ [0x2028, 0x2029, 0x202F, 0x205F, 0x3000])"

definition space_front :: "string \<Rightarrow> nat" where
  "space_front s = (case find (strings_HasPrefix s) utf8_spaces of None \<Rightarrow> 0 | Some p \<Rightarrow> length p)"

definition space_back :: "string \<Rightarrow> nat" where
  "space_back s = (case find (\<lambda>p. strings_HasPrefix (rev s) (rev p)) utf8_spaces of None \<Rightarrow> 0 | Some p \<Rightarrow> length p)"

fun TrimLeft :: "string \<Rightarrow> string" where
  "TrimLeft s = (if s = [] \<or> space_front s = 0 then s else TrimLeft (drop (space_front s) s))"

fun TrimRight :: "string \<Rightarrow> string" where
  "TrimRight s = (if s = [] \<or> space_back s = 0 then s else TrimRight (take (length s - space_back s) s))"

declare TrimLeft.simps [simp del] TrimRight.simps [simp del]

definition TrimSpace :: "string \<Rightarrow> string" where "TrimSpace s = TrimRight (TrimLeft s)"

section \<open>Responses\<close>

text \<open>
  The writer of a response: the header map, the status and the header it had when the status was
  written (a status of 0 says that none was written yet), and the body so far.
\<close>

record ResponseWriter =
  rw_Header :: header
  rw_status :: int
  rw_sent :: header
  rw_body :: string

definition new_response :: ResponseWriter where
  "new_response = \<lparr> rw_Header = [], rw_status = 0, rw_sent = [], rw_body = '''' \<rparr>"

definition set_header :: "string \<Rightarrow> string \<Rightarrow> ResponseWriter \<Rightarrow> ResponseWriter" where
  "set_header k v w = w\<lparr>rw_Header := Header_Set (rw_Header w) k v\<rparr>"

definition WriteHeader :: "int \<Rightarrow> ResponseWriter \<Rightarrow> ResponseWriter" where
  "WriteHeader status w = (if rw_status w \<noteq> 0 then w else w\<lparr>rw_status := status, rw_sent := rw_Header w\<rparr>)"

definition Write :: "string \<Rightarrow> ResponseWriter \<Rightarrow> ResponseWriter" where
  "Write b w = (let w1 = WriteHeader 200 w in w1\<lparr>rw_body := rw_body w1 @ b\<rparr>)"

text \<open>\<open>json.NewEncoder(w).Encode(v)\<close>: nothing is written if the value cannot be encoded.\<close>

definition Encode :: "jtree \<Rightarrow> ResponseWriter \<Rightarrow> ResponseWriter" where
  "Encode v w = (case json_encode (\<lambda>_. '''') v of Inl _ \<Rightarrow> w | Inr b \<Rightarrow> Write (b @ [CHR 0x0A]) w)"

definition WriteJSON :: "int \<Rightarrow> jtree \<Rightarrow> ResponseWriter \<Rightarrow> ResponseWriter" where
  "WriteJSON status v w =
     Encode v (WriteHeader status (set_header ''Content-Type'' ''application/json; charset=utf-8'' w))"

definition ErrorBody :: "string \<Rightarrow> string \<Rightarrow> string \<Rightarrow> string \<Rightarrow> jtree" where
  "ErrorBody err detail requestID traceID = JObj ([(''error'', JStr err)] @ omitempty ''detail'' detail @
     omitempty ''request_id'' requestID @ omitempty ''trace_id'' traceID)"

definition WriteError :: "Request \<Rightarrow> int \<Rightarrow> string \<Rightarrow> string \<Rightarrow> ResponseWriter \<Rightarrow> ResponseWriter" where
  "WriteError r status code detail w =
     WriteJSON status (ErrorBody code detail (ctx_RequestID (rq_ctx r)) (ctx_TraceID (rq_ctx r))) w"

lemma WriteHeader_simps [simp]:
  "rw_Header (WriteHeader st w) = rw_Header w"
  "rw_status (WriteHeader st w) = (if rw_status w = 0 then st else rw_status w)"
  "rw_sent (WriteHeader st w) = (if rw_status w = 0 then rw_Header w else rw_sent w)"
  "rw_body (WriteHeader st w) = rw_body w"
  by (simp_all add: WriteHeader_def)

lemma Encode_simps [simp]:
  "rw_Header (Encode v w) = rw_Header w"
  "rw_status w \<noteq> 0 \<Longrightarrow> rw_status (Encode v w) = rw_status w"
  "rw_status w \<noteq> 0 \<Longrightarrow> rw_sent (Encode v w) = rw_sent w"
  by (simp_all add: Encode_def Write_def Let_def split: sum.split)

lemma WriteJSON_simps [simp]:
  "rw_Header (WriteJSON st v w) = Header_Set (rw_Header w) ''Content-Type'' ''application/json; charset=utf-8''"
  "st \<noteq> 0 \<Longrightarrow> rw_status (WriteJSON st v w) = (if rw_status w = 0 then st else rw_status w)"
  "st \<noteq> 0 \<Longrightarrow> rw_sent (WriteJSON st v w) = (if rw_status w = 0 then
     Header_Set (rw_Header w) ''Content-Type'' ''application/json; charset=utf-8'' else rw_sent w)"
  by (simp_all add: WriteJSON_def set_header_def)

lemma WriteError_simps [simp]:
  "rw_Header (WriteError r st a b w) = Header_Set (rw_Header w) ''Content-Type'' ''application/json; charset=utf-8''"
  "st \<noteq> 0 \<Longrightarrow> rw_status (WriteError r st a b w) = (if rw_status w = 0 then st else rw_status w)"
  "st \<noteq> 0 \<Longrightarrow> rw_sent (WriteError r st a b w) = (if rw_status w = 0 then
     Header_Set (rw_Header w) ''Content-Type'' ''application/json; charset=utf-8'' else rw_sent w)"
  by (simp_all add: WriteError_def)

section \<open>The server\<close>

text \<open>
  The world of the services, the two limiters, and the lines of the access log. A handler takes
  the request, the writer and the state; its first result says that it panicked.
\<close>

record access =
  ac_requestID :: string
  ac_traceID :: string
  ac_method :: string
  ac_path :: string
  ac_status :: int
  ac_bytes :: int
  ac_latency :: duration
  ac_remote :: string

record ('r, 'd) server =
  sv_world :: "('r, 'd) world"
  sv_global :: GlobalLimiter
  sv_client :: KeyedLimiter
  sv_log :: "access list"

type_synonym ('r, 'd) handler =
  "Request \<Rightarrow> ResponseWriter \<Rightarrow> ('r, 'd) server \<Rightarrow> bool \<times> ResponseWriter \<times> ('r, 'd) server"

definition on_world :: "(('r, 'd) world \<Rightarrow> 'a \<times> ('r, 'd) world) \<Rightarrow> ('r, 'd) server \<Rightarrow> 'a \<times> ('r, 'd) server" where
  "on_world f s = (fst (f (sv_world s)), s\<lparr>sv_world := snd (f (sv_world s))\<rparr>)"

definition answer :: "ResponseWriter \<Rightarrow> ('r, 'd) server \<Rightarrow> bool \<times> ResponseWriter \<times> ('r, 'd) server" where
  "answer w s = (False, w, s)"

lemma on_world_simps [world_simps]:
  "fst (on_world f s) = fst (f (sv_world s))" "snd (on_world f s) = s\<lparr>sv_world := snd (f (sv_world s))\<rparr>"
  by (simp_all add: on_world_def)

end
