(* ===== verification/Middleware.thy ===== *)
theory Middleware
  imports Http
begin

text \<open>
  The middleware of \<open>internal/api/middleware\<close>. A middleware takes the next handler. The access log
  is the list of lines the program writes at the end of a request; other log output and the latency
  histogram are not kept.
\<close>

type_synonym ('r, 'd) middleware = "('r, 'd) handler \<Rightarrow> ('r, 'd) handler"

section \<open>Correlation ids (requestid.go)\<close>

definition HeaderRequestID :: string where "HeaderRequestID = ''X-Request-ID''"
definition HeaderTraceID :: string where "HeaderTraceID = ''X-Trace-ID''"

definition id_or_new ::
  "runtime \<Rightarrow> string \<Rightarrow> ('r, 'd) server \<Rightarrow> string \<times> ('r, 'd) server" where
  "id_or_new E i s = (if i = '''' then on_world (uuid_NewString E) s else (i, s))"

definition RequestID :: "runtime \<Rightarrow> ('r, 'd) middleware" where
  "RequestID E next r w s =
     (let (requestID, s1) = id_or_new E (Header_Get (rq_Header r) HeaderRequestID) s;
          (traceID, s2) = id_or_new E (Header_Get (rq_Header r) HeaderTraceID) s1;
          w1 = set_header HeaderTraceID traceID (set_header HeaderRequestID requestID w)
      in next (r\<lparr>rq_ctx := WithIDs (rq_ctx r) requestID traceID\<rparr>) w1 s2)"

section \<open>Recovery, logging, metrics (recovery.go, logging.go, metrics.go)\<close>

definition Recovery :: "('r, 'd) middleware" where
  "Recovery next r w s =
     (let (panicked, w1, s1) = next r w s
      in if panicked
         then (False, WriteError r 500 ''internal_error'' ''unexpected server error'' w1, s1)
         else (False, w1, s1))"

text \<open>
  The status and the size that the wrapped writer reports are those of the response, as everything
  behind the middleware is written through it. A panic passes by without a line.
\<close>

definition Logging :: "runtime \<Rightarrow> ('r, 'd) middleware" where
  "Logging E next r w s =
     (let (start, s1) = on_world (time_Now E) s;
          (panicked, w1, s2) = next r w s1
      in if panicked then (True, w1, s2)
         else let (stop, s3) = on_world (time_Now E) s2
              in (False, w1, s3\<lparr>sv_log := sv_log s3 @
                   [\<lparr> ac_requestID = ctx_RequestID (rq_ctx r), ac_traceID = ctx_TraceID (rq_ctx r),
                      ac_method = rq_Method r, ac_path = rq_Path r, ac_status = rw_status w1,
                      ac_bytes = int (length (rw_body w1)), ac_latency = time_Sub stop start,
                      ac_remote = rq_RemoteAddr r \<rparr>]\<rparr>))"

text \<open>\<open>pattern\<close> is what chi's route context holds after the request was routed.\<close>

definition Metrics_mw :: "(Request \<Rightarrow> string) \<Rightarrow> ('r, 'd) middleware" where
  "Metrics_mw pattern next r w s =
     (let (panicked, w1, s1) = next r w s
      in if panicked then (True, w1, s1)
         else let route = (if pattern r = '''' then ''unmatched'' else pattern r)
              in (False, w1, s1\<lparr>sv_world := bump (\<lambda>m. m\<lparr>m_HTTPRequests :=
                   inc (rq_Method r, route, itoa (rw_status w1)) (m_HTTPRequests m)\<rparr>) (sv_world s1)\<rparr>))"

section \<open>Limits (ratelimit.go, bodylimit.go, backpressure.go)\<close>

type_synonym ('r, 'd) limiter = "string \<Rightarrow> ('r, 'd) server \<Rightarrow> bool \<times> ('r, 'd) server"

text \<open>The two limiters behind \<open>domain.RateLimiter\<close>, with their readings of the clock.\<close>

definition global_limiter :: "runtime \<Rightarrow> ('r, 'd) limiter" where
  "global_limiter E key s =
     (let (now, s1) = on_world (time_Now E) s;
          (ok, g) = GlobalLimiter_Allow key now (sv_global s1)
      in (ok, s1\<lparr>sv_global := g\<rparr>))"

definition client_limiter :: "runtime \<Rightarrow> ('r, 'd) limiter" where
  "client_limiter E key s =
     (let (t0, s1) = on_world (time_Now E) s;
          (t1, s2) = on_world (time_Now E) s1;
          (t2, s3) = on_world (time_Now E) s2;
          (ok, k) = KeyedLimiter_Allow key t0 t1 t2 (sv_client s3)
      in (ok, s3\<lparr>sv_client := k\<rparr>))"

definition RateLimit :: "('r, 'd) limiter \<Rightarrow> string \<Rightarrow> (Request \<Rightarrow> string) \<Rightarrow> ('r, 'd) middleware" where
  "RateLimit limiter scope key next r w s =
     (let (ok, s1) = limiter (key r) s
      in if \<not> ok
         then (False, WriteError r 429 ''rate_limited'' ''too many requests, slow down'' (set_header ''Retry-After'' ''1'' w),
               s1\<lparr>sv_world := bump (\<lambda>m. m\<lparr>m_RateLimited := inc scope (m_RateLimited m)\<rparr>) (sv_world s1)\<rparr>)
         else next r w s1)"

definition ClientIPKey :: "Request \<Rightarrow> string" where
  "ClientIPKey r = (case SplitHostPort (rq_RemoteAddr r) of Some host \<Rightarrow> host | None \<Rightarrow> rq_RemoteAddr r)"

definition GlobalKey :: "Request \<Rightarrow> string" where "GlobalKey r = ''global''"

definition BodyLimit :: "int \<Rightarrow> ('r, 'd) middleware" where
  "BodyLimit maxBytes next r w s =
     (if 0 < maxBytes then
        (if maxBytes < rq_ContentLength r
         then (False, WriteError r 413 ''payload_too_large'' ''request body exceeds limit'' w, s)
         else next (r\<lparr>rq_Body := MaxBytesReader (rq_Body r) maxBytes\<rparr>) w s)
      else next r w s)"

definition Backpressure :: "'r Queue_port \<Rightarrow> int \<Rightarrow> ('r, 'd) middleware" where
  "Backpressure q threshold next r w s =
     (if 0 < threshold then
        (let (depth, s1) = on_world (on_redis (qTotalDepth q (rc_err (rq_ctx r)))) s
         in case depth of
              Inl _ \<Rightarrow> next r w s1
            | Inr n \<Rightarrow>
                if threshold \<le> n
                then (False, WriteError r 503 ''service_unavailable'' ''queue saturated, please retry shortly''
                               (set_header ''Retry-After'' ''2'' w),
                      s1\<lparr>sv_world := bump (\<lambda>m. m\<lparr>m_LoadShed := Suc (m_LoadShed m)\<rparr>) (sv_world s1)\<rparr>)
                else next r w s1)
      else next r w s)"

section \<open>Authentication (auth.go)\<close>

definition bearer_token :: "string \<Rightarrow> string" where
  "bearer_token authz = TrimSpace (strings_TrimPrefix authz ''Bearer '')"

definition JWTAuth :: "jwt_lib \<Rightarrow> runtime \<Rightarrow> JWTManager \<Rightarrow> string \<Rightarrow> ('r, 'd) middleware" where
  "JWTAuth L E jm requiredRole next r w s =
     (let authz = Header_Get (rq_Header r) ''Authorization''
      in if \<not> strings_HasPrefix authz ''Bearer ''
         then (False, WriteError r 401 ''unauthorized'' ''missing or malformed Authorization header'' w, s)
         else
           (let (v, s1) = on_world (Verify L E jm (bearer_token authz)) s
            in case v of
                 Inl _ \<Rightarrow> (False, WriteError r 401 ''unauthorized'' ''invalid or expired token'' w, s1)
               | Inr claims \<Rightarrow>
                   if requiredRole \<noteq> '''' \<and> cl_Role claims \<noteq> requiredRole
                   then (False, WriteError r 403 ''forbidden'' ''insufficient role'' w, s1)
                   else next (r\<lparr>rq_ctx := (rq_ctx r)\<lparr>rc_claims := Some claims\<rparr>\<rparr>) w s1))"

section \<open>Refused requests\<close>

text \<open>
  What a middleware that refuses leaves as it was: every table, list and key. The clock, the
  limiters, the metrics and the log are not part of it.
\<close>

definition untouched :: "('r, 'd) server \<Rightarrow> ('r, 'd) server \<Rightarrow> bool" where
  "untouched s s' \<longleftrightarrow> redis (sv_world s') = redis (sv_world s) \<and> db (sv_world s') = db (sv_world s) \<and>
     pending (sv_world s') = pending (sv_world s) \<and> crashed (sv_world s') = crashed (sv_world s)"

lemma untouched_refl [simp]: "untouched s s" by (simp add: untouched_def)

lemma untouched_trans: "untouched s s1 \<Longrightarrow> untouched s1 s2 \<Longrightarrow> untouched s s2"
  by (simp add: untouched_def)

lemma untouched_limiter:
  "untouched s (snd (global_limiter E key s))" "untouched s (snd (client_limiter E key s))"
  by (simp_all add: untouched_def global_limiter_def client_limiter_def world_simps)

lemma verify_world: "snd (Verify L E m tok w) = w\<lparr>ticks := Suc (ticks w)\<rparr>"
  by (simp add: Verify_def world_simps split: sum.split)

lemma untouched_verify: "untouched s (snd (on_world (Verify L E m tok) s))"
  by (simp add: untouched_def on_world_def verify_world)

lemma untouched_ids: "untouched s (snd (id_or_new E i s))"
  by (simp add: untouched_def id_or_new_def world_simps)

text \<open>The correlation headers, in the header map and in what is sent to the client.\<close>

definition ids_kept :: "ResponseWriter \<Rightarrow> ResponseWriter \<Rightarrow> bool" where
  "ids_kept w w' \<longleftrightarrow> (\<forall>k \<in> {HeaderRequestID, HeaderTraceID}.
     Header_Get (rw_Header w') k = Header_Get (rw_Header w) k \<and>
     (rw_status w' \<noteq> 0 \<longrightarrow> Header_Get (rw_sent w') k = Header_Get (rw_Header w) k))"

definition keeps_ids :: "('r, 'd) handler \<Rightarrow> bool" where
  "keeps_ids h \<longleftrightarrow> (\<forall>r w s. rw_status w = 0 \<longrightarrow> ids_kept w (fst (snd (h r w s))))"

lemma header_names:
  "CanonicalMIMEHeaderKey HeaderRequestID = ''X-Request-Id''" "CanonicalMIMEHeaderKey HeaderTraceID = ''X-Trace-Id''"
  "CanonicalMIMEHeaderKey ''Content-Type'' = ''Content-Type''" "CanonicalMIMEHeaderKey ''Retry-After'' = ''Retry-After''"
  unfolding HeaderRequestID_def HeaderTraceID_def by code_simp+

lemma ids_other:
  assumes "k \<in> {HeaderRequestID, HeaderTraceID}" "k' \<in> {''Content-Type'', ''Retry-After''}"
  shows "Header_Get (Header_Set h k' v) k = Header_Get h k"
  using assms by (auto simp: Header_Get_Set header_names)

lemma ids_kept_refl: "rw_status w = 0 \<Longrightarrow> ids_kept w w" by (simp add: ids_kept_def)

lemma ids_kept_json: "rw_status w = 0 \<Longrightarrow> st \<noteq> 0 \<Longrightarrow> ids_kept w (WriteJSON st v w)"
  by (simp add: ids_kept_def ids_other)

lemma ids_kept_error: "rw_status w = 0 \<Longrightarrow> st \<noteq> 0 \<Longrightarrow> ids_kept w (WriteError r st a b w)"
  by (simp add: ids_kept_def ids_other)

lemma ids_kept_retry_error:
  "rw_status w = 0 \<Longrightarrow> st \<noteq> 0 \<Longrightarrow> ids_kept w (WriteError r st a b (set_header ''Retry-After'' v w))"
  by (simp add: ids_kept_def ids_other set_header_def)

lemma ids_kept_recovered:
  "ids_kept w w1 \<Longrightarrow> st \<noteq> 0 \<Longrightarrow> ids_kept w (WriteError r st a b w1)"
  by (auto simp: ids_kept_def ids_other)

lemmas ids_kept_intros = ids_kept_refl ids_kept_json ids_kept_error ids_kept_retry_error

lemma keeps_idsI: "(\<And>r w s. rw_status w = 0 \<Longrightarrow> ids_kept w (fst (snd (h r w s)))) \<Longrightarrow> keeps_ids h"
  by (simp add: keeps_ids_def)

lemma keeps_idsD: "keeps_ids h \<Longrightarrow> rw_status w = 0 \<Longrightarrow> ids_kept w (fst (snd (h r w s)))"
  by (simp add: keeps_ids_def)

text \<open>Every middleware behind the correlation ids keeps them.\<close>

lemma keeps_ids_middleware:
  assumes "keeps_ids h"
  shows "keeps_ids (Recovery h)" "keeps_ids (Logging E h)" "keeps_ids (Metrics_mw pat h)"
    "keeps_ids (RateLimit lm scope key h)" "keeps_ids (BodyLimit n h)" "keeps_ids (Backpressure q n h)"
    "keeps_ids (JWTAuth L E jm role h)"
  by (rule keeps_idsI;
      auto intro!: ids_kept_intros intro: ids_kept_recovered keeps_idsD [OF assms]
        simp: Recovery_def Logging_def Metrics_mw_def RateLimit_def BodyLimit_def Backpressure_def JWTAuth_def
          Let_def case_prod_beta split: sum.split)+

end
