(* ===== verification/Redis_Adapters.thy ===== *)
theory Redis_Adapters
  imports Redis_Client
begin

text \<open>
  The Redis adapters: \<open>internal/queue/redis_queue.go\<close> (the priority queue and the dead-letter
  list) and \<open>internal/cache/redis_cache.go\<close> (keys with a time to live). Under the documented
  behaviour of the commands they implement the port contracts: the locale \<open>redis_env\<close> is
  shown to be a \<open>redis_contract\<close>.
\<close>

section \<open>The queue (internal/queue)\<close>

definition KeyHigh :: string where "KeyHigh = ''jobs:high''"
definition KeyMedium :: string where "KeyMedium = ''jobs:medium''"
definition KeyLow :: string where "KeyLow = ''jobs:low''"
definition KeyDeadLetter :: string where "KeyDeadLetter = ''jobs:dead-letter''"

lemmas listkey_defs = KeyHigh_def KeyMedium_def KeyLow_def KeyDeadLetter_def

definition orderedKeys :: "string list" where
  "orderedKeys = [KeyHigh, KeyMedium, KeyLow]"

text \<open>The effective poll timeout of a new queue.\<close>

definition NewRedisQueue :: "duration \<Rightarrow> duration" where
  "NewRedisQueue pollTimeout = (if pollTimeout \<le> 0 then 5 * second else pollTimeout)"

definition keyForPriority :: "Priority \<Rightarrow> string" where
  "keyForPriority p = (if p = PriorityHigh then KeyHigh
                       else if p = PriorityLow then KeyLow else KeyMedium)"

definition RedisQueue_Push ::
  "'r redis_client \<Rightarrow> json_lib \<Rightarrow> ctx \<Rightarrow> Job \<Rightarrow> 'r \<Rightarrow> goerr option \<times> 'r" where
  "RedisQueue_Push R J c job r =
     (case json_Marshal_Job J job of
        Inl e \<Rightarrow> (Some (Wrap ''marshal job: '' e ''''), r)
      | Inr b \<Rightarrow> (let (x, r') = rLPush R c (keyForPriority (job_Priority job)) b r
                 in (err_of x, r')))"

definition RedisQueue_Pop ::
  "'r redis_client \<Rightarrow> json_lib \<Rightarrow> duration \<Rightarrow> ctx \<Rightarrow> 'r \<Rightarrow> (goerr + Job option) \<times> 'r" where
  "RedisQueue_Pop R J pollTimeout c r =
     (let (x, r') = rBRPop R c pollTimeout orderedKeys r in
      case x of
        Inl e \<Rightarrow> if errors_Is e redis_Nil then (Inr None, r')
                 else if errors_Is e context_Canceled \<or> errors_Is e context_DeadlineExceeded
                 then (Inr None, r')
                 else (Inl e, r')
      | Inr res \<Rightarrow>
          if length res \<noteq> 2
          then (Inl (ErrorString (''unexpected BRPOP result length '' @ itoa (int (length res)))), r')
          else (case json_Unmarshal_Job J (res ! 1) of
                  Inl e \<Rightarrow> (Inl (Wrap ''unmarshal job: '' e ''''), r')
                | Inr job \<Rightarrow> (Inr (Some job), r')))"

definition RedisQueue_PushDeadLetter ::
  "'r redis_client \<Rightarrow> json_lib \<Rightarrow> ctx \<Rightarrow> Job \<Rightarrow> 'r \<Rightarrow> goerr option \<times> 'r" where
  "RedisQueue_PushDeadLetter R J c job r =
     (case json_Marshal_Job J job of
        Inl e \<Rightarrow> (Some (Wrap ''marshal dead-letter job: '' e ''''), r)
      | Inr b \<Rightarrow> (let (x, r') = rLPush R c KeyDeadLetter b r in (err_of x, r')))"

definition RedisQueue_Depth ::
  "'r redis_client \<Rightarrow> ctx \<Rightarrow> Priority \<Rightarrow> 'r \<Rightarrow> (goerr + int) \<times> 'r" where
  "RedisQueue_Depth R c p r = rLLen R c (keyForPriority p) r"

definition RedisQueue_TotalDepth :: "'r redis_client \<Rightarrow> ctx \<Rightarrow> 'r \<Rightarrow> (goerr + int) \<times> 'r" where
  "RedisQueue_TotalDepth R c r =
     (let (x, r') = rPipeLLen R c orderedKeys r in
      case x of Inl e \<Rightarrow> (Inl e, r') | Inr ns \<Rightarrow> (Inr (fold (\<lambda>n total. wrap64 (total + n)) ns 0), r'))"

definition RedisQueue_DeadLetterDepth ::
  "'r redis_client \<Rightarrow> ctx \<Rightarrow> 'r \<Rightarrow> (goerr + int) \<times> 'r" where
  "RedisQueue_DeadLetterDepth R c r = rLLen R c KeyDeadLetter r"

fun decode_dead :: "json_lib \<Rightarrow> string list \<Rightarrow> goerr + Job list" where
  "decode_dead J [] = Inr []"
| "decode_dead J (v # vs) =
     (case json_Unmarshal_Job J v of
        Inl e \<Rightarrow> Inl (Wrap ''unmarshal dead-letter job: '' e '''')
      | Inr job \<Rightarrow> (case decode_dead J vs of Inl e \<Rightarrow> Inl e | Inr js \<Rightarrow> Inr (job # js)))"

definition RedisQueue_ListDeadLetter ::
  "'r redis_client \<Rightarrow> json_lib \<Rightarrow> ctx \<Rightarrow> int \<Rightarrow> 'r \<Rightarrow> (goerr + Job list) \<times> 'r" where
  "RedisQueue_ListDeadLetter R J c limit r =
     (let limit' = (if limit \<le> 0 then 50 else limit);
          (x, r') = rLRange R c KeyDeadLetter 0 (limit' - 1) r in
      case x of Inl e \<Rightarrow> (Inl e, r') | Inr vals \<Rightarrow> (decode_dead J vals, r'))"

definition RedisQueue_Ping :: "'r redis_client \<Rightarrow> ctx \<Rightarrow> 'r \<Rightarrow> goerr option \<times> 'r" where
  "RedisQueue_Ping R c r = (let (x, r') = rPing R c r in (err_of x, r'))"

definition RedisQueue_port :: "'r redis_client \<Rightarrow> json_lib \<Rightarrow> duration \<Rightarrow> 'r Queue_port" where
  "RedisQueue_port R J pollTimeout =
     \<lparr> qPush = RedisQueue_Push R J, qPop = RedisQueue_Pop R J (NewRedisQueue pollTimeout),
       qPushDeadLetter = RedisQueue_PushDeadLetter R J, qDepth = RedisQueue_Depth R,
       qTotalDepth = RedisQueue_TotalDepth R, qDeadLetterDepth = RedisQueue_DeadLetterDepth R,
       qListDeadLetter = RedisQueue_ListDeadLetter R J, qPing = RedisQueue_Ping R \<rparr>"

section \<open>The cache (internal/cache)\<close>

definition RedisCache_SetNX ::
  "'r redis_client \<Rightarrow> ctx \<Rightarrow> string \<Rightarrow> string \<Rightarrow> duration \<Rightarrow> 'r \<Rightarrow> (goerr + bool) \<times> 'r" where
  "RedisCache_SetNX R c k v ttl r = rSetNX R c k v ttl r"

definition RedisCache_Get ::
  "'r redis_client \<Rightarrow> ctx \<Rightarrow> string \<Rightarrow> 'r \<Rightarrow> (goerr + string option) \<times> 'r" where
  "RedisCache_Get R c k r =
     (let (x, r') = rGet R c k r in
      case x of
        Inl e \<Rightarrow> if errors_Is e redis_Nil then (Inr None, r') else (Inl e, r')
      | Inr v \<Rightarrow> (Inr (Some v), r'))"

definition RedisCache_Set ::
  "'r redis_client \<Rightarrow> ctx \<Rightarrow> string \<Rightarrow> string \<Rightarrow> duration \<Rightarrow> 'r \<Rightarrow> goerr option \<times> 'r" where
  "RedisCache_Set R c k v ttl r = (let (x, r') = rSet R c k v ttl r in (err_of x, r'))"

definition RedisCache_Incr :: "'r redis_client \<Rightarrow> ctx \<Rightarrow> string \<Rightarrow> 'r \<Rightarrow> (goerr + int) \<times> 'r" where
  "RedisCache_Incr R c k r = rIncr R c k r"

definition RedisCache_Del :: "'r redis_client \<Rightarrow> ctx \<Rightarrow> string \<Rightarrow> 'r \<Rightarrow> goerr option \<times> 'r" where
  "RedisCache_Del R c k r = (let (x, r') = rDel R c k r in (err_of x, r'))"

definition RedisCache_Ping :: "'r redis_client \<Rightarrow> ctx \<Rightarrow> 'r \<Rightarrow> goerr option \<times> 'r" where
  "RedisCache_Ping R c r = (let (x, r') = rPing R c r in (err_of x, r'))"

definition RedisCache_port :: "'r redis_client \<Rightarrow> 'r Cache_port" where
  "RedisCache_port R =
     \<lparr> cSetNX = RedisCache_SetNX R, cGet = RedisCache_Get R, cSet = RedisCache_Set R,
       cIncr = RedisCache_Incr R, cDel = RedisCache_Del R, cPing = RedisCache_Ping R \<rparr>"

section \<open>The abstraction\<close>

definition list_keys :: "string list" where
  "list_keys = [KeyHigh, KeyMedium, KeyLow, KeyDeadLetter]"

definition cache_key :: "string \<Rightarrow> bool" where
  "cache_key k \<longleftrightarrow> k \<notin> set list_keys"

definition level_key :: "nat \<Rightarrow> string" where
  "level_key l = (if l = 0 then KeyHigh else if l = 2 then KeyLow else KeyMedium)"

definition queue_view :: "json_lib \<Rightarrow> ('r \<Rightarrow> string \<Rightarrow> string list) \<Rightarrow> 'r \<Rightarrow> nat \<Rightarrow> Job list" where
  "queue_view J lst r l =
     (if l \<le> 2 then map (\<lambda>b. projr (json_Unmarshal_Job J b)) (rev (lst r (level_key l))) else [])"

definition dead_view :: "json_lib \<Rightarrow> ('r \<Rightarrow> string \<Rightarrow> string list) \<Rightarrow> 'r \<Rightarrow> Job list" where
  "dead_view J lst r = map (\<lambda>b. projr (json_Unmarshal_Job J b)) (lst r KeyDeadLetter)"

text \<open>
  The server is up, its four lists hold decodable jobs, and no other key holds a list.
\<close>

definition server_ok ::
  "json_lib \<Rightarrow> ('r \<Rightarrow> string \<Rightarrow> string list) \<Rightarrow> ('r \<Rightarrow> string \<Rightarrow> entry option) \<Rightarrow>
    ('r \<Rightarrow> bool) \<Rightarrow> 'r \<Rightarrow> bool" where
  "server_ok J lst ents up r \<longleftrightarrow> up r \<and>
     (\<forall>k \<in> set list_keys. ents r k = None \<and>
        (\<forall>b \<in> set (lst r k). isl (json_Unmarshal_Job J b) = False)) \<and>
     (\<forall>k. cache_key k \<longrightarrow> lst r k = [])"

lemma listkeys_distinct [simp]:
  "KeyHigh \<noteq> KeyMedium" "KeyHigh \<noteq> KeyLow" "KeyHigh \<noteq> KeyDeadLetter"
  "KeyMedium \<noteq> KeyHigh" "KeyMedium \<noteq> KeyLow" "KeyMedium \<noteq> KeyDeadLetter"
  "KeyLow \<noteq> KeyHigh" "KeyLow \<noteq> KeyMedium" "KeyLow \<noteq> KeyDeadLetter"
  "KeyDeadLetter \<noteq> KeyHigh" "KeyDeadLetter \<noteq> KeyMedium" "KeyDeadLetter \<noteq> KeyLow"
  by (simp_all add: listkey_defs)

lemma keyForPriority_level: "keyForPriority p = level_key (level p)"
  by (simp add: keyForPriority_def level_key_def level_def)

lemma level_le [simp]: "level p \<le> 2"
  by (simp add: level_def)

lemma level_key_in [simp]: "level_key l \<in> set list_keys" "level_key l \<noteq> KeyDeadLetter"
  "KeyDeadLetter \<noteq> level_key l" "KeyDeadLetter \<in> set list_keys"
  by (simp_all add: level_key_def list_keys_def)

lemma level_key_inj [simp]: "l \<le> 2 \<Longrightarrow> m \<le> 2 \<Longrightarrow> level_key l = level_key m \<longleftrightarrow> l = m"
  by (auto simp: level_key_def)

lemma wireE:
  assumes "wire J j"
  obtains b where "json_Marshal_Job J j = Inr b" "json_Unmarshal_Job J b = Inr j"
  using assms by (auto simp: wire_def split: sum.splits)

lemma server_okD:
  assumes "server_ok J lst ents up r"
  shows "up r" "k \<in> set list_keys \<Longrightarrow> ents r k = None"
    "k \<in> set list_keys \<Longrightarrow> b \<in> set (lst r k) \<Longrightarrow> \<not> isl (json_Unmarshal_Job J b)"
    "cache_key k \<Longrightarrow> lst r k = []"
  using assms by (auto simp: server_ok_def)

lemma server_ok_cong:
  assumes "server_ok J lst ents up r" "up r'" "lst r' = lst r"
    and "\<And>k. k \<in> set list_keys \<Longrightarrow> ents r' k = ents r k"
  shows "server_ok J lst ents up r'"
  using assms by (auto simp: server_ok_def)

lemma server_ok_push:
  assumes "server_ok J lst ents up r" "up r'" "ents r' = ents r" "k \<in> set list_keys"
    and "lst r' = (lst r)(k := b # lst r k)" "json_Unmarshal_Job J b = Inr j"
  shows "server_ok J lst ents up r'"
  using assms by (auto simp: server_ok_def cache_key_def)

lemma server_ok_pop:
  assumes "server_ok J lst ents up r" "up r'" "ents r' = ents r" "k \<in> set list_keys"
    and "lst r' = (lst r)(k := butlast (lst r k))"
  shows "server_ok J lst ents up r'"
  using assms by (auto simp: server_ok_def cache_key_def dest: in_set_butlastD)

section \<open>The adapters implement the ports\<close>

locale redis_env = redis_laws R lst ents up elapse
  for R :: "'r redis_client" and lst ents up elapse +
  fixes J :: json_lib and pt :: duration
begin

abbreviation "ok \<equiv> server_ok J lst ents up"

lemma push_spec:
  assumes "ok r" "wire J j"
  obtains r' b where "RedisQueue_Push R J None j r = (None, r')" "up r'" "ents r' = ents r"
    "lst r' = (lst r)(level_key (level (job_Priority j)) :=
        b # lst r (level_key (level (job_Priority j))))" "json_Unmarshal_Job J b = Inr j"
proof -
  obtain b where b: "json_Marshal_Job J j = Inr b" "json_Unmarshal_Job J b = Inr j"
    using assms(2) by (rule wireE)
  from lpush [OF server_okD(1) [OF assms(1)] server_okD(2) [OF assms(1)],
      of "level_key (level (job_Priority j))" b]
  show ?thesis using b that by (auto simp: RedisQueue_Push_def keyForPriority_level)
qed

lemma dead_spec:
  assumes "ok r" "wire J j"
  obtains r' b where "RedisQueue_PushDeadLetter R J None j r = (None, r')" "up r'"
    "ents r' = ents r" "lst r' = (lst r)(KeyDeadLetter := b # lst r KeyDeadLetter)"
    "json_Unmarshal_Job J b = Inr j"
proof -
  obtain b where b: "json_Marshal_Job J j = Inr b" "json_Unmarshal_Job J b = Inr j"
    using assms(2) by (rule wireE)
  from lpush [OF server_okD(1) [OF assms(1)] server_okD(2) [OF assms(1)], of KeyDeadLetter b]
  show ?thesis using b that by (auto simp: RedisQueue_PushDeadLetter_def)
qed

lemma find_level:
  "find (\<lambda>k. lst r k \<noteq> []) orderedKeys = map_option level_key (next_level (queue_view J lst r))"
  by (simp add: orderedKeys_def next_level_def queue_view_def level_key_def)

lemma next_level_le: "next_level v = Some l \<Longrightarrow> l \<le> 2"
  by (auto simp: next_level_def split: if_splits)

lemma next_level_lists:
  "next_level (queue_view J lst r) = Some l \<Longrightarrow> lst r (level_key l) \<noteq> []"
  by (auto simp: next_level_def queue_view_def split: if_splits)

lemma ordered_ents: "ok r \<Longrightarrow> k \<in> set orderedKeys \<Longrightarrow> ents r k = None"
  by (rule server_okD(2)) (auto simp: orderedKeys_def list_keys_def)

lemma pop_none:
  assumes "ok r" "next_level (queue_view J lst r) = None"
  shows "RedisQueue_Pop R J t None r = (Inr None, r)"
  using brpop [OF server_okD(1) [OF assms(1)] ordered_ents [OF assms(1)], of orderedKeys t] assms(2)
  by (simp add: RedisQueue_Pop_def find_level)

lemma pop_some:
  assumes "ok r" "next_level (queue_view J lst r) = Some l"
  obtains r' where "RedisQueue_Pop R J t None r =
      (Inr (Some (projr (json_Unmarshal_Job J (last (lst r (level_key l)))))), r')"
    "up r'" "ents r' = ents r"
    "lst r' = (lst r)(level_key l := butlast (lst r (level_key l)))"
proof -
  have "last (lst r (level_key l)) \<in> set (lst r (level_key l))"
    using next_level_lists [OF assms(2)] by simp
  then have "\<not> isl (json_Unmarshal_Job J (last (lst r (level_key l))))"
    by (rule server_okD(3) [OF assms(1) level_key_in(1)])
  then obtain j where j: "json_Unmarshal_Job J (last (lst r (level_key l))) = Inr j"
    by (cases "json_Unmarshal_Job J (last (lst r (level_key l)))") auto
  from brpop [OF server_okD(1) [OF assms(1)] ordered_ents [OF assms(1)], of orderedKeys t] assms(2) j that
  show ?thesis by (auto simp: find_level RedisQueue_Pop_def)
qed

lemma view_push:
  assumes "lst r' = (lst r)(level_key l := b # lst r (level_key l))" "l \<le> 2"
    and "json_Unmarshal_Job J b = Inr j"
  shows "queue_view J lst r' = (queue_view J lst r)(l := queue_view J lst r l @ [j])"
  using assms by (auto simp: queue_view_def fun_eq_iff)

lemma view_pop:
  assumes "lst r' = (lst r)(level_key l := butlast (lst r (level_key l)))" "l \<le> 2"
  shows "queue_view J lst r' = (queue_view J lst r)(l := tl (queue_view J lst r l))"
  using assms by (auto simp: queue_view_def fun_eq_iff butlast_rev map_tl [symmetric])
    (metis butlast_rev rev_rev_ident)

lemma cache_spec:
  assumes "ok r" "cache_key k"
  shows "lst r k = []" "up r" "k' \<in> set list_keys \<Longrightarrow> k' \<noteq> k"
  using assms by (auto simp: server_ok_def cache_key_def)

lemma view_same: "lst r' = lst r \<Longrightarrow>
    queue_view J lst r' = queue_view J lst r \<and> dead_view J lst r' = dead_view J lst r"
  by (simp add: queue_view_def dead_view_def fun_eq_iff)

lemma cache_ok:
  assumes "ok r" "cache_key k" "up r'" "lst r' = lst r" "\<And>k'. k' \<noteq> k \<Longrightarrow> ents r' k' = ents r k'"
  shows "ok r'"
  using server_ok_cong [OF assms(1,3,4)] cache_spec(3) [OF assms(1,2)] assms(5) by blast

lemma total_spec: "ok r \<Longrightarrow> RedisQueue_TotalDepth R None r =
    (Inr (wrap64 (int (length (queue_view J lst r 0) + length (queue_view J lst r 1) +
               length (queue_view J lst r 2)))), r)"
  using pipe_llen [of r orderedKeys] server_okD(1) [of J lst ents up r] ordered_ents [of r]
  by (simp add: RedisQueue_TotalDepth_def queue_view_def level_key_def)
    (simp add: orderedKeys_def wrap64_add)

text \<open>Each cache command in full: result, entries, lists and well-formedness.\<close>

abbreviation (input) "keeps r k r' \<equiv> ok r' \<and> lst r' = lst r"

lemma setnx_full:
  assumes "ok r" "cache_key k" "whole_ms t"
  shows "\<exists>r'. rSetNX R None k v t r = (Inr (ents r k = None), r') \<and> keeps r k r' \<and>
    ents r' = (if ents r k = None then (ents r)(k \<mapsto> (v, Some t)) else ents r)"
  using setnx [OF cache_spec(2,1) [OF assms(1,2)] assms(3), of v] cache_ok [OF assms(1,2)]
  by (metis fun_upd_other)

lemma set_full:
  assumes "ok r" "cache_key k" "whole_ms t"
  shows "\<exists>r'. rSet R None k v t r = (Inr ''OK'', r') \<and> keeps r k r' \<and>
    ents r' = (ents r)(k \<mapsto> (v, Some t))"
  using set [OF cache_spec(2,1) [OF assms(1,2)] assms(3), of v] cache_ok [OF assms(1,2)]
  by (metis fun_upd_other)

lemma del_full:
  assumes "ok r" "cache_key k"
  shows "\<exists>n r'. rDel R None k r = (Inr n, r') \<and> keeps r k r' \<and> ents r' = (ents r)(k := None)"
  using del [OF cache_spec(2,1) [OF assms(1,2)]] cache_ok [OF assms(1,2)]
  by (metis fun_upd_other)

lemma incr_full:
  assumes "ok r" "cache_key k"
  shows "keeps r k (snd (rIncr R None k r))"
  using incr_lists [OF cache_spec(2,1) [OF assms(1,2)]] cache_ok [OF assms(1,2)] by blast

lemma incr_new_full:
  assumes "ok r" "cache_key k" "ents r k = None"
  shows "fst (rIncr R None k r) = Inr 1 \<and>
    ents (snd (rIncr R None k r)) = (ents r)(k \<mapsto> (itoa 1, None))"
  using incr_new [OF cache_spec(2,1) [OF assms(1,2)] assms(3)] by force

lemma incr_old_full:
  assumes "ok r" "cache_key k" "ents r k = Some (itoa n, u)" "\<bar>n\<bar> + 1 < 2 ^ 63"
  shows "fst (rIncr R None k r) = Inr (n + 1) \<and>
    ents (snd (rIncr R None k r)) = (ents r)(k \<mapsto> (itoa (n + 1), u))"
  using incr_old [OF cache_spec(2,1) [OF assms(1,2)] assms(3,4)] by force

lemma get_full:
  assumes "ok r" "cache_key k"
  shows "RedisCache_Get R None k r = (Inr (map_option fst (ents r k)), r)"
  using get [OF cache_spec(2,1) [OF assms]]
  by (auto simp: RedisCache_Get_def split: option.split)

text \<open>Each queue command in full.\<close>

lemma push_full:
  assumes "ok r" "wire J j"
  shows "\<exists>r'. RedisQueue_Push R J None j r = (None, r') \<and> ok r' \<and> ents r' = ents r \<and>
    dead_view J lst r' = dead_view J lst r \<and>
    queue_view J lst r' = (queue_view J lst r)(level (job_Priority j) :=
        queue_view J lst r (level (job_Priority j)) @ [j])"
proof -
  obtain r' b where p: "RedisQueue_Push R J None j r = (None, r')" "up r'" "ents r' = ents r"
    "lst r' = (lst r)(level_key (level (job_Priority j)) :=
        b # lst r (level_key (level (job_Priority j))))" "json_Unmarshal_Job J b = Inr j"
    using assms by (rule push_spec)
  have "ok r'" by (rule server_ok_push [OF assms(1) p(2,3) level_key_in(1) p(4,5)])
  with p show ?thesis
    using view_push [OF p(4) level_le p(5)] by (simp add: dead_view_def)
qed

lemma dead_full:
  assumes "ok r" "wire J j"
  shows "\<exists>r'. RedisQueue_PushDeadLetter R J None j r = (None, r') \<and> ok r' \<and>
    ents r' = ents r \<and> dead_view J lst r' = j # dead_view J lst r \<and>
    queue_view J lst r' = queue_view J lst r"
proof -
  obtain r' b where p: "RedisQueue_PushDeadLetter R J None j r = (None, r')" "up r'"
    "ents r' = ents r" "lst r' = (lst r)(KeyDeadLetter := b # lst r KeyDeadLetter)"
    "json_Unmarshal_Job J b = Inr j"
    using assms by (rule dead_spec)
  have "ok r'" by (rule server_ok_push [OF assms(1) p(2,3) level_key_in(4) p(4,5)])
  with p show ?thesis by (auto simp: dead_view_def queue_view_def fun_eq_iff)
qed

lemma pop_full:
  assumes "ok r"
  shows "\<exists>r'. RedisQueue_Pop R J t None r =
      (Inr (case next_level (queue_view J lst r) of None \<Rightarrow> None
            | Some l \<Rightarrow> Some (hd (queue_view J lst r l))), r') \<and> ok r' \<and> ents r' = ents r \<and>
    dead_view J lst r' = dead_view J lst r \<and>
    queue_view J lst r' = (case next_level (queue_view J lst r) of None \<Rightarrow> queue_view J lst r
      | Some l \<Rightarrow> (queue_view J lst r)(l := tl (queue_view J lst r l)))"
proof (cases "next_level (queue_view J lst r)")
  case None
  with pop_none [OF assms None] assms show ?thesis by simp
next
  case (Some l)
  then obtain r' where p: "RedisQueue_Pop R J t None r =
      (Inr (Some (projr (json_Unmarshal_Job J (last (lst r (level_key l)))))), r')"
    "up r'" "ents r' = ents r"
    "lst r' = (lst r)(level_key l := butlast (lst r (level_key l)))"
    using assms by (elim pop_some)
  have "hd (queue_view J lst r l) = projr (json_Unmarshal_Job J (last (lst r (level_key l))))"
    using next_level_lists [OF Some] next_level_le [OF Some]
    by (simp add: queue_view_def hd_map hd_rev)
  moreover have "ok r'" by (rule server_ok_pop [OF assms p(2,3) level_key_in(1) p(4)])
  ultimately show ?thesis
    using p Some view_pop [OF p(4) next_level_le [OF Some]] by (simp add: dead_view_def)
qed

text \<open>The same facts as rewrite rules on the ports.\<close>

abbreviation "CP \<equiv> RedisCache_port R"
abbreviation "QP \<equiv> RedisQueue_port R J pt"

lemma setnx_port:
  assumes "ok r" "cache_key k" "whole_ms t"
  shows "fst (cSetNX CP None k v t r) = Inr (ents r k = None)"
    "ents (snd (cSetNX CP None k v t r)) =
       (if ents r k = None then (ents r)(k \<mapsto> (v, Some t)) else ents r)"
    "ok (snd (cSetNX CP None k v t r))" "lst (snd (cSetNX CP None k v t r)) = lst r"
  using setnx_full [OF assms, of v] by (auto simp: RedisCache_port_def RedisCache_SetNX_def)

lemma set_port:
  assumes "ok r" "cache_key k" "whole_ms t"
  shows "fst (cSet CP None k v t r) = None"
    "ents (snd (cSet CP None k v t r)) = (ents r)(k \<mapsto> (v, Some t))"
    "ok (snd (cSet CP None k v t r))" "lst (snd (cSet CP None k v t r)) = lst r"
  using set_full [OF assms, of v] by (auto simp: RedisCache_port_def RedisCache_Set_def)

lemma del_port:
  assumes "ok r" "cache_key k"
  shows "fst (cDel CP None k r) = None"
    "ents (snd (cDel CP None k r)) = (ents r)(k := None)"
    "ok (snd (cDel CP None k r))" "lst (snd (cDel CP None k r)) = lst r"
  using del_full [OF assms] by (auto simp: RedisCache_port_def RedisCache_Del_def)

lemma get_port:
  assumes "ok r" "cache_key k"
  shows "cGet CP None k r = (Inr (map_option fst (ents r k)), r)"
  using get_full [OF assms] by (simp add: RedisCache_port_def)

lemma incr_port: "cIncr CP c k r = rIncr R c k r"
  by (simp add: RedisCache_port_def RedisCache_Incr_def)

lemma ended_ports:
  "cSetNX CP (Some e) k v t r = (Inl (ctx_error e), r)"
  "cGet CP (Some e) k r = (Inl (ctx_error e), r)"
  "cSet CP (Some e) k v t r = (Some (ctx_error e), r)"
  "cDel CP (Some e) k r = (Some (ctx_error e), r)"
  by (simp_all add: RedisCache_port_def RedisCache_SetNX_def RedisCache_Set_def
      RedisCache_Del_def RedisCache_Get_def ended_setnx ended_get ended_set ended_del)

lemma push_port:
  assumes "ok r" "wire J j"
  shows "fst (qPush QP None j r) = None" "ok (snd (qPush QP None j r))"
    "ents (snd (qPush QP None j r)) = ents r"
    "dead_view J lst (snd (qPush QP None j r)) = dead_view J lst r"
    "queue_view J lst (snd (qPush QP None j r)) = (queue_view J lst r)(level (job_Priority j) :=
        queue_view J lst r (level (job_Priority j)) @ [j])"
  using push_full [OF assms] by (auto simp: RedisQueue_port_def)

lemma dead_port:
  assumes "ok r" "wire J j"
  shows "fst (qPushDeadLetter QP None j r) = None" "ok (snd (qPushDeadLetter QP None j r))"
    "ents (snd (qPushDeadLetter QP None j r)) = ents r"
    "dead_view J lst (snd (qPushDeadLetter QP None j r)) = j # dead_view J lst r"
    "queue_view J lst (snd (qPushDeadLetter QP None j r)) = queue_view J lst r"
  using dead_full [OF assms] by (auto simp: RedisQueue_port_def)

lemma pop_port:
  assumes "ok r"
  shows "fst (qPop QP None r) = Inr (case next_level (queue_view J lst r) of None \<Rightarrow> None
            | Some l \<Rightarrow> Some (hd (queue_view J lst r l)))"
    "ok (snd (qPop QP None r))" "ents (snd (qPop QP None r)) = ents r"
    "dead_view J lst (snd (qPop QP None r)) = dead_view J lst r"
    "queue_view J lst (snd (qPop QP None r)) =
      (case next_level (queue_view J lst r) of None \<Rightarrow> queue_view J lst r
       | Some l \<Rightarrow> (queue_view J lst r)(l := tl (queue_view J lst r l)))"
  using pop_full [OF assms, of "NewRedisQueue pt"] by (auto simp: RedisQueue_port_def)

lemma total_port: "ok r \<Longrightarrow> qTotalDepth QP None r =
    (Inr (wrap64 (int (length (queue_view J lst r 0) + length (queue_view J lst r 1) +
               length (queue_view J lst r 2)))), r)"
  using total_spec by (simp add: RedisQueue_port_def)

lemma depth_port: "ok r \<Longrightarrow> qDepth QP None p r = (Inr (int (length (queue_view J lst r (level p)))), r)"
  using llen [of r "level_key (level p)"] server_okD(1) [of J lst ents up r]
    server_okD(2) [of J lst ents up r "level_key (level p)"]
  by (simp add: RedisQueue_port_def RedisQueue_Depth_def keyForPriority_level queue_view_def)

lemma dead_depth_port: "ok r \<Longrightarrow> qDeadLetterDepth QP None r = (Inr (int (length (dead_view J lst r))), r)"
  using llen [of r KeyDeadLetter] server_okD(1) [of J lst ents up r]
    server_okD(2) [of J lst ents up r KeyDeadLetter]
  by (simp add: RedisQueue_port_def RedisQueue_DeadLetterDepth_def dead_view_def list_keys_def)

lemma ended_queue:
  "wire J j \<Longrightarrow> \<exists>x. qPush QP (Some e) j r = (Some x, r)"
  "qPop QP (Some e) r = (Inr None, r)"
  "wire J j \<Longrightarrow> \<exists>x. qPushDeadLetter QP (Some e) j r = (Some x, r)"
  by (auto simp: RedisQueue_port_def RedisQueue_Push_def RedisQueue_Pop_def
      RedisQueue_PushDeadLetter_def ended_lpush ended_brpop elim!: wireE)

lemma cache_contract_port: "cache_contract CP ents ok cache_key elapse"
proof (unfold_locales, goal_cases)
qed (simp_all add: setnx_port set_port del_port get_port incr_port ended_ports incr_full
      incr_new_full incr_old_full ended_incr elapse_ents)

lemma queue_contract_port:
  "queue_contract QP (queue_view J lst) (dead_view J lst) ok (wire J)"
proof (unfold_locales, goal_cases)
qed (simp_all add: push_port dead_port pop_port ended_queue total_port)

end

sublocale redis_env \<subseteq> port: redis_contract "RedisCache_port R" ents "server_ok J lst ents up"
  cache_key elapse "RedisQueue_port R J pt" "queue_view J lst" "dead_view J lst" "wire J"
proof -
  have frames: "redis_contract_axioms (RedisCache_port R) ents (server_ok J lst ents up) cache_key
      elapse (RedisQueue_port R J pt) (queue_view J lst) (dead_view J lst) (wire J)"
    by unfold_locales
      (simp_all add: push_port dead_port pop_port get_port incr_port view_same [OF setnx_port(4)]
        view_same [OF set_port(4)] view_same [OF del_port(4)] view_same [OF elapse_lists]
        view_same [OF conjunct2 [OF incr_full]])
  show "redis_contract (RedisCache_port R) ents (server_ok J lst ents up) cache_key elapse
      (RedisQueue_port R J pt) (queue_view J lst) (dead_view J lst) (wire J)"
    by (rule redis_contract.intro [OF cache_contract_port queue_contract_port frames])
qed

context redis_env
begin

lemmas redis_priority_fifo = port.priority_fifo
lemmas redis_setnx_up = setnx_port(3) [unfolded RedisCache_port_def, simplified]

end

interpretation refenv: redis_env ref_client rf_lists rf_ents rf_up ref_elapse J pt for J pt
  by unfold_locales

end
