(* ===== verification/Gateway_Service.thy ===== *)
theory Gateway_Service
  imports Redis_Adapters Crypto
begin

text \<open>
  The enqueue path of \<open>internal/service\<close>: \<open>idempotency.go\<close> and \<open>gateway_service.go\<close>. The
  service is verified once against the port contracts (locale \<open>service_env\<close>), which the Redis
  adapters and every store that meets the store contract instantiate.
  \<open>crypto/sha256\<close> is the function \<open>sha256\<close> of theory \<open>Crypto\<close>.
\<close>

section \<open>Idempotency keys (idempotency.go)\<close>

definition payloadHash :: "JobType \<Rightarrow> string \<Rightarrow> string" where
  "payloadHash jobType payload = hex_EncodeToString (sha256 (jobType @ '':'' @ payload))"

definition idempotencyRedisKey :: "JobType \<Rightarrow> string \<Rightarrow> string" where
  "idempotencyRedisKey jobType key = ''idemp:'' @ jobType @ '':'' @ key"

section \<open>The service (gateway_service.go)\<close>

record GatewayConfig =
  gc_MaxRetries :: int
  gc_IdempotencyTTL :: duration

record ('r, 'd) GatewayService =
  gs_queue :: "'r Queue_port"
  gs_jobs :: "'d Store_port"
  gs_cache :: "'r Cache_port"
  gs_cfg :: GatewayConfig
  gs_json :: json_lib
  gs_rt :: runtime

definition NewGatewayService ::
  "'r Queue_port \<Rightarrow> 'd Store_port \<Rightarrow> 'r Cache_port \<Rightarrow> GatewayConfig \<Rightarrow>
    json_lib \<Rightarrow> runtime \<Rightarrow> ('r, 'd) GatewayService" where
  "NewGatewayService q jobs cache cfg J E =
     (let cfg1 = (if gc_MaxRetries cfg \<le> 0 then cfg\<lparr>gc_MaxRetries := 5\<rparr> else cfg);
          cfg2 = (if gc_IdempotencyTTL cfg1 \<le> 0 then cfg1\<lparr>gc_IdempotencyTTL := 24 * hour\<rparr> else cfg1)
      in \<lparr> gs_queue = q, gs_jobs = jobs, gs_cache = cache, gs_cfg = cfg2, gs_json = J,
           gs_rt = E \<rparr>)"

definition stub_job :: "string \<Rightarrow> JobType \<Rightarrow> string \<Rightarrow> string \<Rightarrow> Job" where
  "stub_job existingID t key traceID =
     \<lparr> job_ID = existingID, job_JobType = t, job_Payload = '''', job_Status = JobStatusQueued,
       job_RetryCount = 0, job_MaxRetries = 0, job_Priority = '''', job_IdempotencyKey = key,
       job_TraceID = traceID, job_ErrorMessage = '''', job_CreatedAt = zero_time,
       job_UpdatedAt = zero_time, job_ProcessedAt = None \<rparr>"

text \<open>The branch of \<open>Enqueue\<close> for a key that was already claimed.\<close>

definition enqueue_duplicate ::
  "('r, 'd) GatewayService \<Rightarrow> ctx \<Rightarrow> EnqueueRequest \<Rightarrow> string \<Rightarrow> string \<Rightarrow> string \<Rightarrow> string \<Rightarrow>
    ('r, 'd) world \<Rightarrow> (goerr + EnqueueResult) \<times> ('r, 'd) world" where
  "enqueue_duplicate s c req key redisKey traceID jobID w =
     (let w1 = bump (\<lambda>m. m\<lparr>m_IdempotencyHits := Suc (m_IdempotencyHits m)\<rparr>) w;
          (g, w2) = on_redis (cGet (gs_cache s) c redisKey) w1;
          found = (case g of Inr (Some v) \<Rightarrow> v | _ \<Rightarrow> '''');
          existingID = (if found = '''' then jobID else found);
          (ex, w3) = on_db (sGetByID (gs_jobs s) c existingID) w2
      in case ex of
           Inr existing \<Rightarrow> (Inr \<lparr> res_Job = existing, res_Duplicate = True \<rparr>, w3)
         | Inl _ \<Rightarrow> (Inr \<lparr> res_Job = stub_job existingID (er_JobType req) key traceID,
                          res_Duplicate = True \<rparr>, w3))"

text \<open>The branch for a key that was claimed by this request: persist, then queue.\<close>

definition enqueue_fresh ::
  "('r, 'd) GatewayService \<Rightarrow> ctx \<Rightarrow> EnqueueRequest \<Rightarrow> string \<Rightarrow> string \<Rightarrow> string \<Rightarrow> string \<Rightarrow>
    ('r, 'd) world \<Rightarrow> (goerr + EnqueueResult) \<times> ('r, 'd) world" where
  "enqueue_fresh s c req key redisKey traceID jobID w =
     (let (now, w1) = time_Now (gs_rt s) w;
          job = NewJob jobID (er_JobType req) (er_Payload req) key traceID
                  (gc_MaxRetries (gs_cfg s)) now;
          (e1, w2) = on_db (sCreate (gs_jobs s) c job) w1
      in case e1 of
           Some e \<Rightarrow> (let (_, w3) = on_redis (cDel (gs_cache s) c redisKey) w2
                      in (Inl (Wrap ''persist job: '' e ''''), w3))
         | None \<Rightarrow>
             (let (e2, w3) = on_redis (qPush (gs_queue s) c job) w2
              in case e2 of
                   Some e \<Rightarrow> (let (_, w4) = on_redis (cDel (gs_cache s) c redisKey) w3
                              in (Inl (Wrap ''queue job: '' e ''''), w4))
                 | None \<Rightarrow> (Inr \<lparr> res_Job = job, res_Duplicate = False \<rparr>, w3)))"

definition enq_key :: "('r, 'd) GatewayService \<Rightarrow> EnqueueRequest \<Rightarrow> string" where
  "enq_key s req = (if er_IdempotencyKey req = ''''
     then payloadHash (er_JobType req) (er_Payload req) else er_IdempotencyKey req)"

definition Enqueue :: "('r, 'd) GatewayService \<Rightarrow> ('r, 'd) enqueuer" where
  "Enqueue s c req w =
     (if \<not> JobType_Valid (er_JobType req) then (Inl (Sentinel ErrUnknownJobType), w)
      else if er_Payload req = [] \<or> \<not> json_Valid (gs_json s) (er_Payload req)
      then (Inl (Wrap '''' (Sentinel ErrInvalidPayload) '': body must be valid JSON''), w)
      else
        (let key = enq_key s req;
             redisKey = idempotencyRedisKey (er_JobType req) key;
             (traceID, w1) = (if er_TraceID req = '''' then uuid_NewString (gs_rt s) w
                              else (er_TraceID req, w));
             (jobID, w2) = uuid_NewString (gs_rt s) w1;
             (claim, w3) = on_redis (cSetNX (gs_cache s) c redisKey jobID
                                       (gc_IdempotencyTTL (gs_cfg s))) w2
         in case claim of
              Inl e \<Rightarrow> (Inl (Wrap ''idempotency claim: '' e ''''), w3)
            | Inr fresh \<Rightarrow>
                if \<not> fresh then enqueue_duplicate s c req key redisKey traceID jobID w3
                else enqueue_fresh s c req key redisKey traceID jobID w3))"

section \<open>Specification vocabulary\<close>

text \<open>
  The job a request turns into when it is fresh, and the requests \<open>Enqueue\<close> admits.
\<close>

definition enq_redisKey :: "('r, 'd) GatewayService \<Rightarrow> EnqueueRequest \<Rightarrow> string" where
  "enq_redisKey s req = idempotencyRedisKey (er_JobType req) (enq_key s req)"

definition enq_trace :: "('r, 'd) GatewayService \<Rightarrow> EnqueueRequest \<Rightarrow> ('r, 'd) world \<Rightarrow> string" where
  "enq_trace s req w =
     (if er_TraceID req = '''' then uuid_at (gs_rt s) (uuids w) else er_TraceID req)"

definition enq_id :: "('r, 'd) GatewayService \<Rightarrow> EnqueueRequest \<Rightarrow> ('r, 'd) world \<Rightarrow> string" where
  "enq_id s req w =
     uuid_at (gs_rt s) (if er_TraceID req = '''' then Suc (uuids w) else uuids w)"

definition enq_job :: "('r, 'd) GatewayService \<Rightarrow> EnqueueRequest \<Rightarrow> ('r, 'd) world \<Rightarrow> Job" where
  "enq_job s req w =
     NewJob (enq_id s req w) (er_JobType req) (er_Payload req) (enq_key s req) (enq_trace s req w)
       (gc_MaxRetries (gs_cfg s)) (time_at (gs_rt s) (ticks w))"

definition admissible :: "('r, 'd) GatewayService \<Rightarrow> EnqueueRequest \<Rightarrow> bool" where
  "admissible s req \<longleftrightarrow> JobType_Valid (er_JobType req) \<and> er_Payload req \<noteq> [] \<and>
     json_Valid (gs_json s) (er_Payload req)"

text \<open>The world after the identifiers of a request were drawn.\<close>

definition enq_drawn :: "EnqueueRequest \<Rightarrow> ('r, 'd) world \<Rightarrow> ('r, 'd) world" where
  "enq_drawn req w = w\<lparr>uuids := (if er_TraceID req = '''' then Suc (Suc (uuids w)) else Suc (uuids w))\<rparr>"

lemma Enqueue_admissible:
  assumes "admissible s req"
  shows "Enqueue s c req w =
    (let (claim, w3) = on_redis (cSetNX (gs_cache s) c (enq_redisKey s req) (enq_id s req w)
                          (gc_IdempotencyTTL (gs_cfg s))) (enq_drawn req w)
     in case claim of
          Inl e \<Rightarrow> (Inl (Wrap ''idempotency claim: '' e ''''), w3)
        | Inr fresh \<Rightarrow>
            if \<not> fresh then enqueue_duplicate s c req (enq_key s req) (enq_redisKey s req)
                             (enq_trace s req w) (enq_id s req w) w3
            else enqueue_fresh s c req (enq_key s req) (enq_redisKey s req)
                   (enq_trace s req w) (enq_id s req w) w3)"
  using assms
  by (cases "er_TraceID req = ''''")
    (simp_all add: Enqueue_def admissible_def enq_redisKey_def enq_trace_def enq_id_def
      enq_drawn_def uuid_NewString_def Let_def case_prod_beta split: sum.split)

lemma enq_drawn_simps [simp]:
  "redis (enq_drawn req w) = redis w" "db (enq_drawn req w) = db w"
  "metrics (enq_drawn req w) = metrics w" "ticks (enq_drawn req w) = ticks w"
  by (simp_all add: enq_drawn_def)

lemma Enqueue_uuids:
  assumes "admissible s req"
  shows "uuids (snd (Enqueue s c req w)) = uuids (enq_drawn req w)"
  using assms
  by (simp add: Enqueue_admissible enqueue_duplicate_def enqueue_fresh_def world_simps
      split: sum.split option.split)

lemma enq_job_simps [simp]:
  "job_ID (enq_job s req w) = enq_id s req w"
  "job_JobType (enq_job s req w) = er_JobType req"
  "job_Payload (enq_job s req w) = er_Payload req"
  "job_Status (enq_job s req w) = JobStatusQueued"
  "job_RetryCount (enq_job s req w) = 0"
  "job_MaxRetries (enq_job s req w) = gc_MaxRetries (gs_cfg s)"
  "job_Priority (enq_job s req w) = PriorityForType (er_JobType req)"
  "job_IdempotencyKey (enq_job s req w) = enq_key s req"
  "job_TraceID (enq_job s req w) = enq_trace s req w"
  "job_CreatedAt (enq_job s req w) = time_at (gs_rt s) (ticks w)"
  "job_UpdatedAt (enq_job s req w) = time_at (gs_rt s) (ticks w)"
  "job_ProcessedAt (enq_job s req w) = None"
  by (simp_all add: enq_job_def)

lemma NewGatewayService_simps [simp]:
  "gs_queue (NewGatewayService q jobs ch cfg J E) = q"
  "gs_jobs (NewGatewayService q jobs ch cfg J E) = jobs"
  "gs_cache (NewGatewayService q jobs ch cfg J E) = ch"
  "gs_json (NewGatewayService q jobs ch cfg J E) = J"
  "gs_rt (NewGatewayService q jobs ch cfg J E) = E"
  by (simp_all add: NewGatewayService_def Let_def)

section \<open>The service against the ports\<close>

locale service_env =
  redis_contract C ents up ckey elapse Q qv dlq wire +
  store_contract S tab dok oktext okjson np na
  for C :: "'r Cache_port" and ents up ckey elapse
    and Q :: "'r Queue_port" and qv dlq wire
    and S :: "'d Store_port" and tab dok oktext okjson np na +
  fixes s :: "('r, 'd) GatewayService"
  assumes ports: "gs_queue s = Q" "gs_jobs s = S" "gs_cache s = C"
    and ttl_ms: "whole_ms (gc_IdempotencyTTL (gs_cfg s))"
    and idemp_ckey: "ckey (''idemp:'' @ x)"
begin

lemma redisKey_ckey [simp]: "ckey (enq_redisKey s req)"
  using idemp_ckey by (simp add: enq_redisKey_def idempotencyRedisKey_def)

text \<open>A request under a free key: claimed, persisted as QUEUED, queued last at its level.\<close>

lemma fresh_full:
  assumes "admissible s req" "up (redis w)" "dok (db w)"
    and "ents (redis w) (enq_redisKey s req) = None"
    and "wire (enq_job s req w)" "okjob oktext okjson (enq_job s req w)"
    and "t_jobs (tab (db w)) (enq_id s req w) = None"
  shows "\<exists>w'. Enqueue s None req w = (Inr \<lparr> res_Job = enq_job s req w, res_Duplicate = False \<rparr>, w') \<and>
    up (redis w') \<and> dok (db w') \<and>
    ents (redis w') = (ents (redis w))(enq_redisKey s req \<mapsto>
        (enq_id s req w, Some (gc_IdempotencyTTL (gs_cfg s)))) \<and>
    qv (redis w') = (qv (redis w))(level (job_Priority (enq_job s req w)) :=
        qv (redis w) (level (job_Priority (enq_job s req w))) @ [enq_job s req w]) \<and>
    dlq (redis w') = dlq (redis w) \<and>
    tab (db w') = (tab (db w))\<lparr>t_jobs := (t_jobs (tab (db w)))(enq_id s req w \<mapsto>
        stored_job np na (enq_job s req w))\<rparr>"
  using assms ttl_ms
  by (simp add: Enqueue_admissible enqueue_fresh_def world_simps ports redis_rules store_rules
      enq_job_def [symmetric])

text \<open>A request under a claimed key: the job behind it, and nothing stored or queued.\<close>

lemma duplicate_full:
  assumes "admissible s req" "up (redis w)" "dok (db w)"
    and "ents (redis w) (enq_redisKey s req) = Some (i, t)" "i \<noteq> ''''" "oktext i"
  shows "\<exists>w'. Enqueue s None req w =
      (Inr \<lparr> res_Job = (case t_jobs (tab (db w)) i of Some j \<Rightarrow> j
               | None \<Rightarrow> stub_job i (er_JobType req) (enq_key s req) (enq_trace s req w)),
             res_Duplicate = True \<rparr>, w') \<and>
    up (redis w') \<and> db w' = db w \<and> ents (redis w') = ents (redis w) \<and>
    qv (redis w') = qv (redis w) \<and> dlq (redis w') = dlq (redis w) \<and>
    m_IdempotencyHits (metrics w') = Suc (m_IdempotencyHits (metrics w))"
  using assms ttl_ms
  by (simp add: Enqueue_admissible enqueue_duplicate_def world_simps ports redis_rules store_rules
      split: option.split)

text \<open>The row could not be written: the claim is released and nothing is queued.\<close>

lemma persist_fails:
  assumes "admissible s req" "up (redis w)"
    and "ents (redis w) (enq_redisKey s req) = None"
    and "sCreate S None (enq_job s req w) (db w) = (Some e, d')"
  shows "\<exists>w'. Enqueue s None req w = (Inl (Wrap ''persist job: '' e ''''), w') \<and>
    up (redis w') \<and> ents (redis w') = ents (redis w) \<and> qv (redis w') = qv (redis w) \<and> db w' = d'"
  using assms ttl_ms
  by (simp add: Enqueue_admissible enqueue_fresh_def world_simps ports redis_rules
      enq_job_def [symmetric] fun_upd_idem)

text \<open>
  Queueing failed after the row was written: the claim is released, the row stays. The queue of
  the service may be any, since a queue that fails keeps no contract.
\<close>

lemma push_fails:
  assumes s': "gs_jobs s' = S" "gs_cache s' = C" "gs_cfg s' = gs_cfg s"
    and "admissible s' req" "up (redis w)" "dok (db w)"
    and "ents (redis w) (enq_redisKey s' req) = None"
    and "okjob oktext okjson (enq_job s' req w)" "t_jobs (tab (db w)) (enq_id s' req w) = None"
    and "r1 = snd (cSetNX C None (enq_redisKey s' req) (enq_id s' req w)
                    (gc_IdempotencyTTL (gs_cfg s')) (redis w))"
    and "qPush (gs_queue s') None (enq_job s' req w) r1 = (Some e, r2)" "up r2" "ents r2 = ents r1" "qv r2 = qv r1"
  shows "\<exists>w'. Enqueue s' None req w = (Inl (Wrap ''queue job: '' e ''''), w') \<and>
    ents (redis w') = ents (redis w) \<and> qv (redis w') = qv (redis w) \<and>
    t_jobs (tab (db w')) = (t_jobs (tab (db w)))(enq_id s' req w \<mapsto> stored_job np na (enq_job s' req w))"
proof -
  have "ckey (enq_redisKey s' req)" using idemp_ckey by (simp add: enq_redisKey_def idempotencyRedisKey_def)
  moreover have "whole_ms (gc_IdempotencyTTL (gs_cfg s'))" using ttl_ms s'(3) by simp
  ultimately show ?thesis using s'(1,2) assms(4-)
    by (simp add: Enqueue_admissible enqueue_fresh_def world_simps redis_rules store_rules
        enq_job_def [of s', symmetric] fun_upd_idem)
qed

text \<open>The context ended before the claim: an error, nothing changed but the identifiers drawn.\<close>

lemma claim_fails:
  assumes "admissible s req"
  shows "Enqueue s (Some e) req w =
    (Inl (Wrap ''idempotency claim: '' (ctx_error e) ''''), enq_drawn req w)"
  using assms by (simp add: Enqueue_admissible world_simps ports ended_rules)

text \<open>
  A replay: the same type and key again, \<open>d\<close> later. Before the key expires it finds the job of
  the first request; from then on it is a new request.
\<close>

lemma replay_within_ttl:
  assumes "admissible s req" "up (redis w)" "dok (db w)"
    and "ents (redis w) (enq_redisKey s req) = None"
    and "wire (enq_job s req w)" "okjob oktext okjson (enq_job s req w)"
    and "t_jobs (tab (db w)) (enq_id s req w) = None" "enq_id s req w \<noteq> ''''"
    and "admissible s req2" "enq_redisKey s req2 = enq_redisKey s req"
    and "0 \<le> d" "d < gc_IdempotencyTTL (gs_cfg s)"
    and "w1 = snd (Enqueue s None req w)" "w2 = w1\<lparr>redis := elapse d (redis w1)\<rparr>" "up (redis w2)"
  shows "\<exists>w3. Enqueue s None req2 w2 =
      (Inr \<lparr> res_Job = stored_job np na (enq_job s req w), res_Duplicate = True \<rparr>, w3) \<and>
    db w3 = db w1 \<and> qv (redis w3) = qv (redis w1) \<and> dlq (redis w3) = dlq (redis w1)"
proof -
  from fresh_full [OF assms(1-7)] assms(13)
  have w1: "up (redis w1)" "dok (db w1)"
    "ents (redis w1) = (ents (redis w))(enq_redisKey s req \<mapsto>
        (enq_id s req w, Some (gc_IdempotencyTTL (gs_cfg s))))"
    "t_jobs (tab (db w1)) (enq_id s req w) = Some (stored_job np na (enq_job s req w))"
    by auto
  have e: "ents (redis w2) (enq_redisKey s req2) =
      Some (enq_id s req w, Some (gc_IdempotencyTTL (gs_cfg s) - d))"
    using w1(3) assms(10-12,14) by (simp add: elapse_ents age_def)
  have d: "dok (db w2)" using w1(2) assms(14) by simp
  have i: "oktext (enq_id s req w)" using assms(6) by (simp add: okjob_def)
  from duplicate_full [OF assms(9,15) d e assms(8) i] w1(4) assms(14) elapse_lists
  show ?thesis by auto
qed

lemma replay_after_ttl:
  assumes "admissible s req" "up (redis w)" "dok (db w)"
    and "ents (redis w) (enq_redisKey s req) = None"
    and "wire (enq_job s req w)" "okjob oktext okjson (enq_job s req w)"
    and "t_jobs (tab (db w)) (enq_id s req w) = None"
    and "admissible s req2" "enq_redisKey s req2 = enq_redisKey s req"
    and "0 \<le> d" "gc_IdempotencyTTL (gs_cfg s) \<le> d"
    and "w1 = snd (Enqueue s None req w)" "w2 = w1\<lparr>redis := elapse d (redis w1)\<rparr>" "up (redis w2)"
    and "wire (enq_job s req2 w2)" "okjob oktext okjson (enq_job s req2 w2)"
    and "t_jobs (tab (db w2)) (enq_id s req2 w2) = None"
  shows "\<exists>w3. Enqueue s None req2 w2 =
      (Inr \<lparr> res_Job = enq_job s req2 w2, res_Duplicate = False \<rparr>, w3) \<and>
    t_jobs (tab (db w3)) (enq_id s req w) = Some (stored_job np na (enq_job s req w)) \<and>
    t_jobs (tab (db w3)) (enq_id s req2 w2) = Some (stored_job np na (enq_job s req2 w2))"
proof -
  from fresh_full [OF assms(1-7)] assms(12)
  have w1: "dok (db w1)"
    "ents (redis w1) = (ents (redis w))(enq_redisKey s req \<mapsto>
        (enq_id s req w, Some (gc_IdempotencyTTL (gs_cfg s))))"
    "t_jobs (tab (db w1)) (enq_id s req w) = Some (stored_job np na (enq_job s req w))"
    by auto
  have e: "ents (redis w2) (enq_redisKey s req2) = None"
    using w1(2) assms(9-11,13) by (simp add: elapse_ents age_def)
  have d: "dok (db w2)" using w1(1) assms(13) by simp
  from fresh_full [OF assms(8,14) d e assms(15-17)] w1(3) assms(13,17) show ?thesis
    by auto
qed

end

section \<open>The service on Redis\<close>

definition gateway ::
  "'r redis_client \<Rightarrow> json_lib \<Rightarrow> duration \<Rightarrow> 'd Store_port \<Rightarrow> GatewayConfig \<Rightarrow>
    runtime \<Rightarrow> ('r, 'd) GatewayService" where
  "gateway R J pt S cfg E =
     NewGatewayService (RedisQueue_port R J pt) S (RedisCache_port R) cfg J E"

lemma gateway_simps [simp]:
  "gs_queue (gateway R J pt S cfg E) = RedisQueue_port R J pt"
  "gs_jobs (gateway R J pt S cfg E) = S"
  "gs_cache (gateway R J pt S cfg E) = RedisCache_port R"
  "gs_json (gateway R J pt S cfg E) = J"
  "gs_rt (gateway R J pt S cfg E) = E"
  by (simp_all add: gateway_def)

text \<open>The cache does not use \<open>LPUSH\<close>.\<close>

lemma cache_without_push: "RedisCache_port (R\<lparr>rLPush := f\<rparr>) = RedisCache_port R"
  by (simp add: RedisCache_port_def RedisCache_SetNX_def RedisCache_Get_def RedisCache_Set_def
      RedisCache_Incr_def RedisCache_Del_def RedisCache_Ping_def fun_eq_iff)

locale gateway_env =
  redis_env R lst ents up elapse J pt + store_contract S tab dok oktext okjson np na
  for R :: "'r redis_client" and lst ents up elapse J pt
    and S :: "'d Store_port" and tab dok oktext okjson np na +
  fixes cfg :: GatewayConfig and E :: runtime
  assumes cfg_ttl: "whole_ms (gc_IdempotencyTTL (gs_cfg (gateway R J pt S cfg E)))"

sublocale gateway_env \<subseteq> svc: service_env "RedisCache_port R" ents "server_ok J lst ents up" cache_key
  elapse "RedisQueue_port R J pt" "queue_view J lst" "dead_view J lst" "wire J"
  S tab dok oktext okjson np na "gateway R J pt S cfg E"
  by unfold_locales (simp_all add: cfg_ttl cache_key_def list_keys_def listkey_defs)

context gateway_env
begin

lemmas redis_fresh = svc.fresh_full
lemmas redis_claimed = port.setnx_up [OF _ svc.redisKey_ckey svc.ttl_ms]
lemmas redis_duplicate = svc.duplicate_full
lemmas redis_persist_fails = svc.persist_fails

text \<open>A server that carries out every command but refuses the \<open>LPUSH\<close> of the job.\<close>

lemma redis_lpush_fails:
  assumes s: "s = gateway (R\<lparr>rLPush := f\<rparr>) J pt S cfg E"
    and req: "admissible s req" and w: "server_ok J lst ents up (redis w)" "dok (db w)"
    and key: "ents (redis w) (enq_redisKey s req) = None"
    and job: "okjob oktext okjson (enq_job s req w)" "t_jobs (tab (db w)) (enq_id s req w) = None"
      "json_Marshal_Job J (enq_job s req w) = Inr b"
    and r1: "r1 = snd (RedisCache_SetNX R None (enq_redisKey s req) (enq_id s req w)
        (gc_IdempotencyTTL (gs_cfg s)) (redis w))"
    and fails: "f None (keyForPriority (job_Priority (enq_job s req w))) b r1 = (Inl e, r2)"
    and r2: "server_ok J lst ents up r2" "ents r2 = ents r1" "lst r2 = lst r1"
  shows "\<exists>w'. Enqueue s None req w = (Inl (Wrap ''queue job: '' e ''''), w') \<and>
    ents (redis w') = ents (redis w) \<and> queue_view J lst (redis w') = queue_view J lst (redis w) \<and>
    t_jobs (tab (db w')) = (t_jobs (tab (db w)))(enq_id s req w \<mapsto> stored_job np na (enq_job s req w))"
proof (rule svc.push_fails [OF _ _ _ req w key job(1,2)])
  show "gs_jobs s = S" "gs_cache s = RedisCache_port R" by (simp_all add: s cache_without_push)
  show "gs_cfg s = gs_cfg (gateway R J pt S cfg E)"
    by (simp add: s gateway_def NewGatewayService_def Let_def)
  show "r1 = snd (cSetNX (RedisCache_port R) None (enq_redisKey s req) (enq_id s req w)
      (gc_IdempotencyTTL (gs_cfg s)) (redis w))" using r1 by (simp add: RedisCache_port_def)
  show "qPush (gs_queue s) None (enq_job s req w) r1 = (Some e, r2)"
    using fails job(3) by (simp add: s RedisQueue_port_def RedisQueue_Push_def)
  show "queue_view J lst r2 = queue_view J lst r1" using r2(3) by (simp add: queue_view_def fun_eq_iff)
qed (use r2 in simp_all)

lemmas redis_claim_fails = svc.claim_fails
lemmas redis_replay_within = svc.replay_within_ttl
lemmas redis_replay_after = svc.replay_after_ttl

end

lemma gateway_envI:
  assumes "redis_laws R lst ents up elapse" "store_contract S tab dok oktext okjson np na"
    and "whole_ms (gc_IdempotencyTTL (gs_cfg (gateway R J pt S cfg E)))"
  shows "gateway_env R lst ents up elapse J pt S tab dok oktext okjson np na cfg E"
  using assms by (simp add: gateway_env_def redis_env_def gateway_env_axioms_def)

end
