(* ===== verification/Worker_Pool.thy ===== *)
theory Worker_Pool
  imports Redis_Adapters
begin

text \<open>
  The worker pool of \<open>internal/worker/pool.go\<close>: what one worker does with one job (\<open>process\<close>
  and its success, retry and dead-letter outcomes), the jittered backoff and the delayed
  requeue. \<open>process\<close> is composed of the phases of the Go function: the guards up to the
  processing lock, the PROCESSING mark, the processor's own work, the outcome, and the deferred
  release of the lock. The goroutines around it are in the theory of the pool machine.
\<close>

section \<open>Data\<close>

definition processedTTL :: duration where "processedTTL = 24 * hour"
definition lockTTL :: duration where "lockTTL = 2 * minute"

record ('r, 'd) Pool =
  p_queue :: "'r Queue_port"
  p_jobs :: "'d Store_port"
  p_cache :: "'r Cache_port"
  p_registry :: "JobType \<Rightarrow> ('r, 'd) processor option"
  p_workerCount :: int
  p_rt :: runtime

text \<open>
  \<open>NewPool\<close> indexes the processors by type, a later one replacing an earlier one. The retry
  delays go to the world, where \<open>backoff\<close> updates them.
\<close>

definition NewPool ::
  "'r Queue_port \<Rightarrow> 'd Store_port \<Rightarrow> 'r Cache_port \<Rightarrow> (JobType \<times> ('r, 'd) processor) list \<Rightarrow>
    int \<Rightarrow> runtime \<Rightarrow> ('r, 'd) Pool" where
  "NewPool q jobs cache procs workerCount E =
     \<lparr> p_queue = q, p_jobs = jobs, p_cache = cache,
       p_registry = fold (\<lambda>(t, pr) reg. reg(t \<mapsto> pr)) procs Map.empty,
       p_workerCount = (if workerCount \<le> 0 then 4 else workerCount), p_rt = E \<rparr>"

definition jobs_capacity :: "('r, 'd) Pool \<Rightarrow> int" where
  "jobs_capacity p = p_workerCount p * 2"

definition done_key :: "Job \<Rightarrow> string" where "done_key j = ''job:done:'' @ job_ID j"
definition lock_key :: "Job \<Rightarrow> string" where "lock_key j = ''job:lock:'' @ job_ID j"

section \<open>Backoff\<close>

text \<open>
  \<open>float64\<close> of an integer: exact up to 53 bits, otherwise rounded to the nearest multiple of a
  power of two, ties to even. Multiplying by a power of two is exact.
\<close>

fun bitlen :: "nat \<Rightarrow> nat" where
  "bitlen n = (if n = 0 then 0 else Suc (bitlen (n div 2)))"

declare bitlen.simps [simp del]

definition f64 :: "int \<Rightarrow> int" where
  "f64 n =
     (if \<bar>n\<bar> \<le> 2 ^ 53 then n
      else let k = bitlen (nat \<bar>n\<bar>) - 53; q = \<bar>n\<bar> div 2 ^ k; r = \<bar>n\<bar> mod 2 ^ k;
               q' = (if 2 * r < 2 ^ k \<or> (2 * r = 2 ^ k \<and> even q) then q else q + 1)
           in sgn n * q' * 2 ^ k)"

text \<open>
  \<open>backoff\<close> returns \<^const>\<open>None\<close> where \<open>rand.Int63n\<close> panics on an argument that is not
  positive.
\<close>

definition backoff :: "runtime \<Rightarrow> int \<Rightarrow> ('r, 'd) world \<Rightarrow> duration option \<times> ('r, 'd) world" where
  "backoff E attempt w =
     (let w1 = (if retryBase w \<le> 0 then w\<lparr>retryBase := 500 * millisecond\<rparr> else w);
          w2 = (if retryMax w1 \<le> 0 then w1\<lparr>retryMax := 30 * second\<rparr> else w1);
          ex = (if 1 \<le> attempt then f64 (retryBase w2) * 2 ^ nat (attempt - 1)
                else f64 (retryBase w2) div 2 ^ nat (1 - attempt));
          capped = min ex (f64 (retryMax w2));
          n = wrap64 (wrap64 capped + 1)
      in if n \<le> 0 then (None, w2)
         else (Some (rand_at E (rands w2) n), w2\<lparr>rands := Suc (rands w2)\<rparr>))"

section \<open>One job\<close>

definition toDeadLetter ::
  "('r, 'd) Pool \<Rightarrow> ctx \<Rightarrow> Job \<Rightarrow> string \<Rightarrow> ('r, 'd) world \<Rightarrow> ('r, 'd) world" where
  "toDeadLetter p c job reason w =
     (let (now, w1) = time_Now (p_rt p) w;
          job' = job\<lparr>job_Status := JobStatusDeadLetter, job_ErrorMessage := reason,
                     job_UpdatedAt := now, job_ProcessedAt := Some now\<rparr>;
          (_, w2) = on_db (sUpdate (p_jobs p) c job') w1;
          (_, w3) = on_redis (qPushDeadLetter (p_queue p) c job') w2;
          (_, w4) = on_redis (cSet (p_cache p) c (done_key job') ''1'' processedTTL) w3
      in bump (\<lambda>m. m\<lparr>m_JobsDeadLetter := inc (job_JobType job') (m_JobsDeadLetter m),
                     m_JobsProcessed := inc (job_JobType job', JobStatusDeadLetter) (m_JobsProcessed m)\<rparr>) w4)"

text \<open>
  The guards: the registry, the done marker, the lock. \<^const>\<open>None\<close> means \<open>process\<close> returns;
  otherwise the processor, with the reading of the clock at the start and the lock held.
\<close>

definition process_guard ::
  "('r, 'd) Pool \<Rightarrow> ctx \<Rightarrow> Job \<Rightarrow> ('r, 'd) world \<Rightarrow>
    (time \<times> ('r, 'd) processor) option \<times> ('r, 'd) world" where
  "process_guard p c job w =
     (let w1 = bump (\<lambda>m. m\<lparr>m_WorkersActive := m_WorkersActive m + 1\<rparr>) w;
          (start, w2) = time_Now (p_rt p) w1
      in case p_registry p (job_JobType job) of
           None \<Rightarrow> (None, toDeadLetter p c job ''no processor registered'' w2)
         | Some proc \<Rightarrow>
             (let (g, w3) = on_redis (cGet (p_cache p) c (done_key job)) w2;
                  finished = (case g of Inr (Some v) \<Rightarrow> v | _ \<Rightarrow> '''')
              in if finished \<noteq> '''' then (None, w3)
                 else
                   (let (a, w4) = on_redis (cSetNX (p_cache p) c (lock_key job) ''1'' lockTTL) w3;
                        acquired = (case a of Inr b \<Rightarrow> b | Inl _ \<Rightarrow> False)
                    in if \<not> acquired then (None, w4) else (Some (start, proc), w4))))"

definition process_mark ::
  "('r, 'd) Pool \<Rightarrow> ctx \<Rightarrow> Job \<Rightarrow> ('r, 'd) world \<Rightarrow> Job \<times> ('r, 'd) world" where
  "process_mark p c job w =
     (let (now, w1) = time_Now (p_rt p) w;
          job' = job\<lparr>job_Status := JobStatusProcessing, job_UpdatedAt := now\<rparr>;
          (_, w2) = on_db (sUpdate (p_jobs p) c job') w1
      in (job', w2))"

definition retry_job :: "Job \<Rightarrow> goerr \<Rightarrow> time \<Rightarrow> Job" where
  "retry_job job e now = job\<lparr>job_RetryCount := job_RetryCount job + 1, job_Status := JobStatusQueued,
     job_ErrorMessage := Error e, job_UpdatedAt := now\<rparr>"

definition process_finish ::
  "('r, 'd) Pool \<Rightarrow> ctx \<Rightarrow> Job \<Rightarrow> time \<Rightarrow> goerr option \<Rightarrow> ('r, 'd) world \<Rightarrow> ('r, 'd) world" where
  "process_finish p c job start err w =
     (let (t1, w1) = time_Now (p_rt p) w;
          (t2, w2) = time_Now (p_rt p) w1;
          attempt = \<lparr> att_JobID = job_ID job, att_Attempt = job_RetryCount job + 1,
                      att_Status = '''', att_Error = '''',
                      att_DurationMS = go_div (t1 - start) millisecond, att_CreatedAt = t2 \<rparr>
      in case err of
           None \<Rightarrow>
             (let (now, w3) = time_Now (p_rt p) w2;
                  job' = job\<lparr>job_Status := JobStatusSuccess, job_ProcessedAt := Some now,
                             job_UpdatedAt := now, job_ErrorMessage := ''''\<rparr>;
                  (_, w4) = on_db (sUpdate (p_jobs p) c job') w3;
                  (_, w5) = on_redis (cSet (p_cache p) c (done_key job') ''1'' processedTTL) w4;
                  (_, w6) = on_db (sAddAttempt (p_jobs p) c (attempt\<lparr>att_Status := JobStatusSuccess\<rparr>)) w5
              in bump (\<lambda>m. m\<lparr>m_JobsProcessed :=
                    inc (job_JobType job', JobStatusSuccess) (m_JobsProcessed m)\<rparr>) w6)
         | Some e \<Rightarrow>
             (let w3 = bump (\<lambda>m. m\<lparr>m_JobsFailed := inc (job_JobType job) (m_JobsFailed m)\<rparr>) w2;
                  (_, w4) = on_db (sAddAttempt (p_jobs p) c
                      (attempt\<lparr>att_Status := JobStatusFailed, att_Error := Error e\<rparr>)) w3
              in if errors_Is e ErrNonRetryable \<or> \<not> CanRetry job
                 then toDeadLetter p c job (Error e) w4
                 else
                   (let (now, w5) = time_Now (p_rt p) w4;
                        job' = retry_job job e now;
                        (_, w6) = on_db (sUpdate (p_jobs p) c job') w5;
                        (delay, w7) = backoff (p_rt p) (job_RetryCount job') w6
                    in case delay of
                         None \<Rightarrow> w7\<lparr>crashed := True\<rparr>
                       | Some dl \<Rightarrow>
                           (bump (\<lambda>m. m\<lparr>m_JobsRetried := inc (job_JobType job') (m_JobsRetried m)\<rparr>) w7)
                             \<lparr>pending := pending w7 @ [(job', dl)]\<rparr>)))"

text \<open>The deferred calls: the lock is deleted only if it was acquired.\<close>

definition process_unlock :: "('r, 'd) Pool \<Rightarrow> ctx \<Rightarrow> Job \<Rightarrow> ('r, 'd) world \<Rightarrow> ('r, 'd) world" where
  "process_unlock p c job w = snd (on_redis (cDel (p_cache p) c (lock_key job)) w)"

definition process_exit :: "('r, 'd) world \<Rightarrow> ('r, 'd) world" where
  "process_exit w = bump (\<lambda>m. m\<lparr>m_WorkersActive := m_WorkersActive m - 1\<rparr>) w"

definition process :: "('r, 'd) Pool \<Rightarrow> ctx \<Rightarrow> Job \<Rightarrow> ('r, 'd) world \<Rightarrow> ('r, 'd) world" where
  "process p c job w =
     (let (g, w1) = process_guard p c job w
      in case g of
           None \<Rightarrow> process_exit w1
         | Some (start, proc) \<Rightarrow>
             (let (job', w2) = process_mark p c job w1;
                  (err, w3) = proc c job' w2;
                  w4 = process_finish p c job' start err w3
              in process_exit (process_unlock p c job' w4)))"

text \<open>
  The retry goroutine: \<open>fired\<close> says which branch of its \<open>select\<close> runs, the timer or the ended
  context.
\<close>

definition requeueAfter ::
  "('r, 'd) Pool \<Rightarrow> ctx \<Rightarrow> Job \<Rightarrow> bool \<Rightarrow> ('r, 'd) world \<Rightarrow> ('r, 'd) world" where
  "requeueAfter p c job fired w =
     (if fired
      then (let (e, w1) = on_redis (qPush (p_queue p) c job) w
            in if e \<noteq> None then snd (on_redis (qPush (p_queue p) context_Background job) w1) else w1)
      else snd (on_redis (qPush (p_queue p) context_Background job) w))"

text \<open>
  One delivery, as the goroutines of a live pool perform it one after the other: the dispatcher
  pops a job, a worker processes it, and a retry that was scheduled is pushed when its timer
  fires. \<open>deliveries\<close> is a number of them.
\<close>

definition delivery :: "('r, 'd) Pool \<Rightarrow> ('r, 'd) world \<Rightarrow> ('r, 'd) world" where
  "delivery p w =
     (let (x, w1) = on_redis (qPop (p_queue p) None) w
      in case x of
           Inr (Some job) \<Rightarrow>
             (let w2 = process p None job w1
              in case pending w2 of
                   [] \<Rightarrow> w2
                 | (job', dl) # rest \<Rightarrow> requeueAfter p None job' True (w2\<lparr>pending := rest\<rparr>))
         | _ \<Rightarrow> w1)"

fun deliveries :: "nat \<Rightarrow> ('r, 'd) Pool \<Rightarrow> ('r, 'd) world \<Rightarrow> ('r, 'd) world" where
  "deliveries 0 p w = w"
| "deliveries (Suc n) p w = deliveries n p (delivery p w)"

text \<open>The job and the world handed to the processor, once the guards have passed.\<close>

definition claimed :: "('r, 'd) Pool \<Rightarrow> Job \<Rightarrow> ('r, 'd) world \<Rightarrow> Job \<times> ('r, 'd) world" where
  "claimed p job w = process_mark p None job (snd (process_guard p None job w))"

section \<open>Backoff stays within its cap\<close>

lemma f64_small: "\<bar>n\<bar> \<le> 2 ^ 53 \<Longrightarrow> f64 n = n"
  by (simp add: f64_def)

definition eff_base :: "('r, 'd) world \<Rightarrow> duration" where
  "eff_base w = (if retryBase w \<le> 0 then 500 * millisecond else retryBase w)"

definition eff_max :: "('r, 'd) world \<Rightarrow> duration" where
  "eff_max w = (if retryMax w \<le> 0 then 30 * second else retryMax w)"

lemma eff_redis [simp]: "eff_base (w\<lparr>redis := r\<rparr>) = eff_base w" "eff_max (w\<lparr>redis := r\<rparr>) = eff_max w"
  by (simp_all add: eff_base_def eff_max_def)

lemma eff_cong:
  "retryBase w' = retryBase w \<Longrightarrow> eff_base w' = eff_base w"
  "retryMax w' = retryMax w \<Longrightarrow> eff_max w' = eff_max w"
  by (simp_all add: eff_base_def eff_max_def)

lemma eff_eff:
  "retryBase w' = eff_base w \<Longrightarrow> eff_base w' = eff_base w"
  "retryMax w' = eff_max w \<Longrightarrow> eff_max w' = eff_max w"
  by (auto simp: eff_base_def eff_max_def)

lemma backoff_eq:
  assumes "1 \<le> attempt"
  shows "backoff E attempt w =
    (let n = wrap64 (wrap64 (min (f64 (eff_base w) * 2 ^ nat (attempt - 1)) (f64 (eff_max w))) + 1);
         w' = w\<lparr>retryBase := eff_base w, retryMax := eff_max w\<rparr>
     in if n \<le> 0 then (None, w') else (Some (rand_at E (rands w) n), w'\<lparr>rands := Suc (rands w)\<rparr>))"
  using assms by (simp add: backoff_def Let_def eff_base_def eff_max_def)

lemma backoff_bounded:
  assumes rand: "\<And>k n. 0 < n \<Longrightarrow> 0 \<le> rand_at E k n \<and> rand_at E k n < n"
    and attempt: "1 \<le> attempt" and base: "eff_base w \<le> 2 ^ 53" and cap: "eff_max w \<le> 2 ^ 53"
  obtains dl where "backoff E attempt w = (Some dl, w\<lparr>retryBase := eff_base w, retryMax := eff_max w,
      rands := Suc (rands w)\<rparr>)" "0 \<le> dl" "dl \<le> eff_max w" "dl \<le> eff_base w * 2 ^ nat (attempt - 1)"
proof -
  define capped where "capped = min (eff_base w * 2 ^ nat (attempt - 1)) (eff_max w)"
  have pos: "0 < eff_base w" "0 < eff_max w" by (simp_all add: eff_base_def eff_max_def)
  then have c: "0 < capped" "capped \<le> 2 ^ 53" using cap by (simp_all add: capped_def min_def)
  then have n: "wrap64 (wrap64 capped + 1) = capped + 1"
    by (simp add: wrap64_id)
  have f: "f64 (eff_base w) = eff_base w" "f64 (eff_max w) = eff_max w"
    using base cap pos by (simp_all add: f64_small)
  have "\<not> capped + 1 \<le> 0" using c(1) by simp
  then have "backoff E attempt w = (Some (rand_at E (rands w) (capped + 1)),
      w\<lparr>retryBase := eff_base w, retryMax := eff_max w, rands := Suc (rands w)\<rparr>)"
    using n unfolding backoff_eq [OF attempt] f capped_def [symmetric] by (simp add: Let_def)
  moreover have "0 \<le> rand_at E (rands w) (capped + 1) \<and> rand_at E (rands w) (capped + 1) < capped + 1"
    using c(1) by (intro rand) simp
  ultimately show ?thesis using that by (auto simp: capped_def)
qed

section \<open>The pool against the ports\<close>

definition dead_job :: "Job \<Rightarrow> string \<Rightarrow> time \<Rightarrow> Job" where
  "dead_job job reason now = job\<lparr>job_Status := JobStatusDeadLetter, job_ErrorMessage := reason,
     job_UpdatedAt := now, job_ProcessedAt := Some now\<rparr>"

definition success_job :: "Job \<Rightarrow> time \<Rightarrow> Job" where
  "success_job job now = job\<lparr>job_Status := JobStatusSuccess, job_ProcessedAt := Some now,
     job_UpdatedAt := now, job_ErrorMessage := ''''\<rparr>"

text \<open>
  The forms in which a job that keeps failing with the same error is pushed again: queued for one
  more retry, or on the dead-letter list, with times of the clock.
\<close>

definition failed_form :: "runtime \<Rightarrow> string \<Rightarrow> Job \<Rightarrow> Job \<Rightarrow> bool" where
  "failed_form E err j j' \<longleftrightarrow> (\<exists>st k n pr.
     j' = j\<lparr>job_Status := st, job_RetryCount := k, job_ErrorMessage := err, job_UpdatedAt := time_at E n, job_ProcessedAt := pr\<rparr> \<and>
     st \<in> {JobStatusQueued, JobStatusDeadLetter} \<and> job_RetryCount j \<le> k \<and> k \<le> max (job_RetryCount j) (job_MaxRetries j) \<and>
     (pr = job_ProcessedAt j \<or> (\<exists>m. pr = Some (time_at E m))))"

lemma failed_form_trans:
  assumes "failed_form E err j j2" "failed_form E err j2 j'"
  shows "failed_form E err j j'"
proof -
  obtain st k n d where a: "j2 = j\<lparr>job_Status := st, job_RetryCount := k, job_ErrorMessage := err,
      job_UpdatedAt := time_at E n, job_ProcessedAt := d\<rparr>"
    "job_RetryCount j \<le> k" "k \<le> max (job_RetryCount j) (job_MaxRetries j)" "d = job_ProcessedAt j \<or> (\<exists>m. d = Some (time_at E m))"
    using assms(1) unfolding failed_form_def by blast
  obtain st' k' n' d' where b: "j' = j2\<lparr>job_Status := st', job_RetryCount := k', job_ErrorMessage := err,
      job_UpdatedAt := time_at E n', job_ProcessedAt := d'\<rparr>" "st' \<in> {JobStatusQueued, JobStatusDeadLetter}"
    "job_RetryCount j2 \<le> k'" "k' \<le> max (job_RetryCount j2) (job_MaxRetries j2)" "d' = job_ProcessedAt j2 \<or> (\<exists>m. d' = Some (time_at E m))"
    using assms(2) unfolding failed_form_def by blast
  show ?thesis unfolding failed_form_def
    by (intro exI [of _ st'] exI [of _ k'] exI [of _ n'] exI [of _ d']) (use a b in auto)
qed

text \<open>The attempt row of an outcome, as the store keeps it.\<close>

definition attempt_row ::
  "runtime \<Rightarrow> (time \<Rightarrow> time) \<Rightarrow> Job \<Rightarrow> time \<Rightarrow> JobStatus \<Rightarrow> string \<Rightarrow> ('r, 'd) world \<Rightarrow> JobAttempt" where
  "attempt_row E na j start st err w =
     \<lparr> att_JobID = job_ID j, att_Attempt = job_RetryCount j + 1, att_Status = st, att_Error = err,
       att_DurationMS = go_div (time_at E (ticks w) - start) millisecond,
       att_CreatedAt = na (time_at E (Suc (ticks w))) \<rparr>"

lemma whole_ms_ttls [simp]: "whole_ms processedTTL" "whole_ms lockTTL"
  by (simp_all add: whole_ms_def processedTTL_def lockTTL_def)

lemma key_simps [simp]:
  "done_key (dead_job j e t) = done_key j" "done_key (success_job j t) = done_key j"
  "done_key (retry_job j x t) = done_key j" "lock_key (dead_job j e t) = lock_key j"
  "lock_key (success_job j t) = lock_key j" "lock_key (retry_job j x t) = lock_key j"
  "done_key j \<noteq> lock_key j'" "lock_key j' \<noteq> done_key j"
  "done_key j = done_key j' \<longleftrightarrow> job_ID j = job_ID j'"
  "lock_key j = lock_key j' \<longleftrightarrow> job_ID j = job_ID j'"
  by (simp_all add: done_key_def lock_key_def dead_job_def success_job_def retry_job_def)

lemma outcome_simps [simp]:
  "job_ID (dead_job j e t) = job_ID j" "job_ID (success_job j t) = job_ID j"
  "job_ID (retry_job j x t) = job_ID j"
  "job_JobType (dead_job j e t) = job_JobType j" "job_JobType (success_job j t) = job_JobType j"
  "job_JobType (retry_job j x t) = job_JobType j"
  "job_Priority (dead_job j e t) = job_Priority j" "job_Priority (retry_job j x t) = job_Priority j"
  "job_Status (dead_job j e t) = JobStatusDeadLetter" "job_Status (success_job j t) = JobStatusSuccess"
  "job_Status (retry_job j x t) = JobStatusQueued"
  "job_RetryCount (retry_job j x t) = job_RetryCount j + 1"
  "job_MaxRetries (retry_job j x t) = job_MaxRetries j"
  by (simp_all add: dead_job_def success_job_def retry_job_def)

lemma same_row_outcomes [simp]:
  "same_row (stored_job np na (dead_job j e t)) j0 = same_row (stored_job np na j) j0"
  "same_row (stored_job np na (success_job j t)) j0 = same_row (stored_job np na j) j0"
  "same_row (stored_job np na (retry_job j x t)) j0 = same_row (stored_job np na j) j0"
  by (simp_all add: same_row_def dead_job_def success_job_def retry_job_def)

text \<open>
  The states of a delivery. A worker may take a job whose row is in the table and whose values
  every column accepts. A job is free when it is neither done nor locked. A skipped delivery
  moves the clock and nothing else. A job waits alone when it is the only queued job, its row is
  in the table, no worker holds it and no retry is scheduled.
\<close>

definition takes_row ::
  "('d \<Rightarrow> tables) \<Rightarrow> ('d \<Rightarrow> bool) \<Rightarrow> (string \<Rightarrow> bool) \<Rightarrow> (string \<Rightarrow> bool) \<Rightarrow>
    (string \<Rightarrow> string) \<Rightarrow> (time \<Rightarrow> time) \<Rightarrow> 'd \<Rightarrow> Job \<Rightarrow> bool" where
  "takes_row tab dok oktext okjson np na d j \<longleftrightarrow> dok d \<and> okjob oktext okjson j \<and>
     (\<exists>j0. t_jobs (tab d) (job_ID j) = Some j0 \<and> same_row (stored_job np na j) j0)"

definition free_job ::
  "('r \<Rightarrow> bool) \<Rightarrow> ('r \<Rightarrow> string \<Rightarrow> entry option) \<Rightarrow> 'r \<Rightarrow> Job \<Rightarrow> bool" where
  "free_job up ents r j \<longleftrightarrow> up r \<and> ents r (done_key j) = None \<and> ents r (lock_key j) = None"

definition skipped_delivery ::
  "('r \<Rightarrow> string \<Rightarrow> entry option) \<Rightarrow> ('r \<Rightarrow> nat \<Rightarrow> Job list) \<Rightarrow> ('r \<Rightarrow> Job list) \<Rightarrow>
    ('r, 'd) world \<Rightarrow> ('r, 'd) world \<Rightarrow> bool" where
  "skipped_delivery ents qv dlq w w' \<longleftrightarrow> db w' = db w \<and> ents (redis w') = ents (redis w) \<and>
     qv (redis w') = qv (redis w) \<and> dlq (redis w') = dlq (redis w) \<and> pending w' = pending w \<and>
     crashed w' = crashed w \<and> metrics w' = metrics w"

definition waiting_job ::
  "('r \<Rightarrow> bool) \<Rightarrow> ('r \<Rightarrow> string \<Rightarrow> entry option) \<Rightarrow> ('r \<Rightarrow> nat \<Rightarrow> Job list) \<Rightarrow>
    ('d \<Rightarrow> tables) \<Rightarrow> ('d \<Rightarrow> bool) \<Rightarrow> (string \<Rightarrow> bool) \<Rightarrow> (string \<Rightarrow> bool) \<Rightarrow>
    (string \<Rightarrow> string) \<Rightarrow> (time \<Rightarrow> time) \<Rightarrow> Job \<Rightarrow> ('r, 'd) world \<Rightarrow> bool" where
  "waiting_job up ents qv tab dok oktext okjson np na j w \<longleftrightarrow>
     free_job up ents (redis w) j \<and> takes_row tab dok oktext okjson np na (db w) j \<and>
     0 \<le> job_RetryCount j \<and> qv (redis w) = (\<lambda>_. [])(level (job_Priority j) := [j]) \<and>
     pending w = [] \<and> \<not> crashed w \<and> eff_base w \<le> 2 ^ 53 \<and> eff_max w \<le> 2 ^ 53"

locale worker_env =
  redis_contract C ents up ckey elapse Q qv dlq wire +
  store_contract S tab dok oktext okjson np na
  for C :: "'r Cache_port" and ents up ckey elapse
    and Q :: "'r Queue_port" and qv dlq wire
    and S :: "'d Store_port" and tab dok oktext okjson np na +
  fixes p :: "('r, 'd) Pool"
  assumes pool_ports: "p_queue p = Q" "p_jobs p = S" "p_cache p = C"
    and done_ckey: "ckey (''job:done:'' @ x)" and lock_ckey: "ckey (''job:lock:'' @ x)"
    and status_text: "oktext JobStatusSuccess" "oktext JobStatusFailed" "oktext JobStatusQueued"
      "oktext JobStatusDeadLetter" "oktext JobStatusProcessing" "oktext ''''"
    and clock: "clock_ok (p_rt p)"
begin

lemmas stamps [simp] = clock_okD [OF clock]

lemma keys_ckey [simp]: "ckey (done_key j)" "ckey (lock_key j)"
  using done_ckey lock_ckey by (simp_all add: done_key_def lock_key_def)

abbreviation "takes \<equiv> takes_row tab dok oktext okjson np na"
lemmas takes_def = takes_row_def

lemma okjob_outcomes:
  assumes "okjob oktext okjson j"
  shows "oktext e \<Longrightarrow> stamp_ok t \<Longrightarrow> okjob oktext okjson (dead_job j e t)"
    "stamp_ok t \<Longrightarrow> okjob oktext okjson (success_job j t)"
    "oktext (Error x) \<Longrightarrow> CanRetry j \<Longrightarrow> stamp_ok t \<Longrightarrow> okjob oktext okjson (retry_job j x t)"
    "stamp_ok t \<Longrightarrow> okjob oktext okjson (j\<lparr>job_Status := JobStatusProcessing, job_UpdatedAt := t\<rparr>)"
  using assms status_text
  by (auto simp: okjob_def dead_job_def success_job_def retry_job_def CanRetry_def)

lemma takes_row_okjob: "takes d j \<Longrightarrow> okjob oktext okjson j"
  by (simp add: takes_def)

lemma store_job:
  assumes "takes d j" "okjob oktext okjson j'" "job_ID j' = job_ID j"
    and "\<And>j0. same_row (stored_job np na j) j0 \<Longrightarrow> same_row (stored_job np na j') j0"
  shows "tab (snd (sUpdate S None j' d)) =
      (tab d)\<lparr>t_jobs := (t_jobs (tab d))(job_ID j \<mapsto> stored_job np na j')\<rparr>"
    "dok (snd (sUpdate S None j' d))" "fst (sUpdate S None j' d) = None"
  using assms update_tab update_dok update_result by (auto simp: takes_def)

text \<open>Dead-lettering: terminal row, dead-letter list, done marker, metrics.\<close>

lemma toDeadLetter_full:
  assumes "up (redis w)" "takes (db w) j" "oktext e"
    and "wire (dead_job j e (time_at (p_rt p) (ticks w)))"
  shows "\<exists>w'. toDeadLetter p None j e w = w' \<and> up (redis w') \<and> dok (db w') \<and>
    tab (db w') = (tab (db w))\<lparr>t_jobs := (t_jobs (tab (db w)))(job_ID j \<mapsto>
        stored_job np na (dead_job j e (time_at (p_rt p) (ticks w))))\<rparr> \<and>
    ents (redis w') = (ents (redis w))(done_key j \<mapsto> (''1'', Some processedTTL)) \<and>
    qv (redis w') = qv (redis w) \<and>
    dlq (redis w') = dead_job j e (time_at (p_rt p) (ticks w)) # dlq (redis w) \<and>
    pending w' = pending w \<and> crashed w' = crashed w \<and>
    m_JobsDeadLetter (metrics w') = inc (job_JobType j) (m_JobsDeadLetter (metrics w))"
proof -
  have ok: "okjob oktext okjson (dead_job j e (time_at (p_rt p) (ticks w)))"
    using assms(2,3) okjob_outcomes(1) by (simp add: takes_def)
  note st = store_job [OF assms(2) ok outcome_simps(1)]
  show ?thesis
    using assms(1,4) st
    by (simp add: toDeadLetter_def world_simps pool_ports redis_rules dead_job_def [symmetric])
qed

text \<open>The guards.\<close>

lemma guard_unregistered:
  assumes "p_registry p (job_JobType j) = None"
  shows "process_guard p c j w = (None, toDeadLetter p c j ''no processor registered''
    (snd (time_Now (p_rt p) (bump (\<lambda>m. m\<lparr>m_WorkersActive := m_WorkersActive m + 1\<rparr>) w))))"
  using assms by (simp add: process_guard_def world_simps)

abbreviation "skipped \<equiv> skipped_delivery ents qv dlq"
lemmas skipped_def = skipped_delivery_def

lemma process_skips_done:
  assumes "up (redis w)" "p_registry p (job_JobType j) = Some proc"
    and "ents (redis w) (done_key j) = Some (v, t)" "v \<noteq> ''''"
  shows "skipped w (process p None j w) \<and> up (redis (process p None j w))"
  using assms
  by (simp add: process_def process_guard_def process_exit_def world_simps pool_ports redis_rules
      skipped_def)

lemma process_skips_locked:
  assumes "up (redis w)" "p_registry p (job_JobType j) = Some proc"
    and "ents (redis w) (done_key j) = None" "ents (redis w) (lock_key j) = Some x"
  shows "skipped w (process p None j w) \<and> up (redis (process p None j w))"
  using assms
  by (simp add: process_def process_guard_def process_exit_def world_simps pool_ports redis_rules
      skipped_def)

lemma process_drops_on_ended_context:
  assumes "p_registry p (job_JobType j) = Some proc"
  shows "skipped w (process p (Some e) j w) \<and> redis (process p (Some e) j w) = redis w"
  using assms
  by (simp add: process_def process_guard_def process_exit_def world_simps pool_ports ended_rules
      skipped_def)

lemma guard_acquires:
  assumes "up (redis w)" "p_registry p (job_JobType j) = Some proc"
    and "ents (redis w) (done_key j) = None" "ents (redis w) (lock_key j) = None"
  shows "\<exists>w'. process_guard p None j w = (Some (time_at (p_rt p) (ticks w), proc), w') \<and>
    up (redis w') \<and> db w' = db w \<and> qv (redis w') = qv (redis w) \<and> dlq (redis w') = dlq (redis w) \<and>
    ents (redis w') = (ents (redis w))(lock_key j \<mapsto> (''1'', Some lockTTL)) \<and>
    pending w' = pending w \<and> crashed w' = crashed w \<and> ticks w' = Suc (ticks w) \<and>
    retryBase w' = retryBase w \<and> retryMax w' = retryMax w"
  using assms
  by (simp add: process_guard_def world_simps pool_ports redis_rules)

lemma mark_full:
  assumes "takes (db w) j"
  shows "\<exists>j' w'. process_mark p None j w = (j', w') \<and>
    j' = j\<lparr>job_Status := JobStatusProcessing, job_UpdatedAt := time_at (p_rt p) (ticks w)\<rparr> \<and>
    takes (db w') j' \<and> redis w' = redis w \<and>
    tab (db w') = (tab (db w))\<lparr>t_jobs := (t_jobs (tab (db w)))(job_ID j \<mapsto> stored_job np na j')\<rparr> \<and>
    pending w' = pending w \<and> crashed w' = crashed w \<and>
    retryBase w' = retryBase w \<and> retryMax w' = retryMax w"
proof -
  define j' where "j' = j\<lparr>job_Status := JobStatusProcessing, job_UpdatedAt := time_at (p_rt p) (ticks w)\<rparr>"
  have ok: "okjob oktext okjson j'"
    using assms okjob_outcomes(4) by (simp add: takes_def j'_def)
  have row: "job_ID j' = job_ID j" "\<And>j0. same_row (stored_job np na j) j0 \<Longrightarrow> same_row (stored_job np na j') j0"
    "same_row (stored_job np na j') (stored_job np na j')"
    by (simp_all add: j'_def same_row_def)
  note st = store_job [OF assms ok row(1,2)]
  have "takes (snd (sUpdate S None j' (db w))) j'"
    using st ok row by (simp add: takes_def)
  with st show ?thesis
    by (simp add: process_mark_def world_simps pool_ports j'_def [symmetric])
qed

text \<open>The outcomes, from any state in which the worker still owns the job.\<close>

lemma takes_attempt:
  assumes "takes d j" "att_JobID a = job_ID j" "okatt oktext a"
  shows "takes (snd (sAddAttempt S None a d)) j"
    "tab (snd (sAddAttempt S None a d)) =
       (tab d)\<lparr>t_atts := t_atts (tab d) @ [a\<lparr>att_CreatedAt := na (att_CreatedAt a)\<rparr>]\<rparr>"
proof -
  have j: "dok d" "t_jobs (tab d) (att_JobID a) \<noteq> None" using assms by (auto simp: takes_def)
  show t: "tab (snd (sAddAttempt S None a d)) =
       (tab d)\<lparr>t_atts := t_atts (tab d) @ [a\<lparr>att_CreatedAt := na (att_CreatedAt a)\<rparr>]\<rparr>"
    using attempt_tab [OF j assms(3)] .
  show "takes (snd (sAddAttempt S None a d)) j"
    using assms(1) t attempt_dok [OF j assms(3)] by (auto simp: takes_def)
qed

lemma okatt_outcome:
  assumes "okjob oktext okjson j" "stamp_ok start" "oktext st" "oktext e"
  shows "okatt oktext \<lparr> att_JobID = job_ID j, att_Attempt = job_RetryCount j + 1, att_Status = st, att_Error = e,
    att_DurationMS = go_div (time_at (p_rt p) n - start) millisecond, att_CreatedAt = time_at (p_rt p) m \<rparr>"
proof -
  have d: "\<bar>time_at (p_rt p) n - start\<bar> < 2 ^ 63 * millisecond"
    using stamps [of n] assms(2) by (auto simp: stamp_ok_def abs_less_iff)
  then have "\<bar>go_div (time_at (p_rt p) n - start) millisecond\<bar> < 2 ^ 63" by (rule go_div_small) simp
  then show ?thesis using assms by (auto simp: okatt_def okjob_def int32_def int64_def)
qed

text \<open>The clock reading at which an outcome is stamped.\<close>

abbreviation (input) "stamp w \<equiv> time_at (p_rt p) (Suc (Suc (ticks w)))"

lemma finish_success:
  assumes "up (redis w)" "takes (db w) j" and start: "stamp_ok start"
  shows "\<exists>w'. process_finish p None j start None w = w' \<and> up (redis w') \<and> dok (db w') \<and>
    tab (db w') = (tab (db w))\<lparr>
      t_jobs := (t_jobs (tab (db w)))(job_ID j \<mapsto> stored_job np na (success_job j (stamp w))),
      t_atts := t_atts (tab (db w)) @ [attempt_row (p_rt p) na j start JobStatusSuccess '''' w]\<rparr> \<and>
    ents (redis w') = (ents (redis w))(done_key j \<mapsto> (''1'', Some processedTTL)) \<and>
    qv (redis w') = qv (redis w) \<and> dlq (redis w') = dlq (redis w) \<and>
    pending w' = pending w \<and> crashed w' = crashed w"
proof -
  have ok: "okjob oktext okjson (success_job j (stamp w))"
    using assms(2) okjob_outcomes(2) by (simp add: takes_def)
  note st = store_job [OF assms(2) ok outcome_simps(2), simplified]
  show ?thesis
    using assms(1) st status_text okatt_outcome [OF takes_row_okjob [OF assms(2)] start]
    by (simp add: process_finish_def world_simps pool_ports redis_rules attempt_tab attempt_dok
        success_job_def [symmetric] attempt_row_def)
qed

lemma finish_dead:
  assumes "up (redis w)" "takes (db w) j" "oktext (Error e)"
    and "errors_Is e ErrNonRetryable \<or> \<not> CanRetry j" "wire (dead_job j (Error e) (stamp w))" and start: "stamp_ok start"
  shows "\<exists>w'. process_finish p None j start (Some e) w = w' \<and> up (redis w') \<and> dok (db w') \<and>
    tab (db w') = (tab (db w))\<lparr>
      t_jobs := (t_jobs (tab (db w)))(job_ID j \<mapsto> stored_job np na (dead_job j (Error e) (stamp w))),
      t_atts := t_atts (tab (db w)) @ [attempt_row (p_rt p) na j start JobStatusFailed (Error e) w]\<rparr> \<and>
    ents (redis w') = (ents (redis w))(done_key j \<mapsto> (''1'', Some processedTTL)) \<and>
    qv (redis w') = qv (redis w) \<and>
    dlq (redis w') = dead_job j (Error e) (stamp w) # dlq (redis w) \<and>
    pending w' = pending w \<and> crashed w' = crashed w"
proof -
  define a where "a = \<lparr> att_JobID = job_ID j, att_Attempt = job_RetryCount j + 1,
    att_Status = JobStatusFailed, att_Error = Error e,
    att_DurationMS = go_div (time_at (p_rt p) (ticks w) - start) millisecond,
    att_CreatedAt = time_at (p_rt p) (Suc (ticks w)) \<rparr>"
  define w4 where "w4 = w\<lparr>ticks := Suc (Suc (ticks w)), db := snd (sAddAttempt S None a (db w)),
    metrics := (metrics w)\<lparr>m_JobsFailed := inc (job_JobType j) (m_JobsFailed (metrics w))\<rparr>\<rparr>"
  have a: "att_JobID a = job_ID j" "okatt oktext a"
    using okatt_outcome [OF takes_row_okjob [OF assms(2)] start] assms(3) status_text by (simp_all add: a_def)
  note at = takes_attempt [OF assms(2) a]
  have w4: "up (redis w4)" "takes (db w4) j" "wire (dead_job j (Error e) (time_at (p_rt p) (ticks w4)))"
    using assms(1,5) at(1) by (simp_all add: w4_def)
  have "process_finish p None j start (Some e) w = toDeadLetter p None j (Error e) w4"
    using assms(4)
    by (cases w) (simp add: process_finish_def world_simps pool_ports w4_def a_def)
  with toDeadLetter_full [OF w4(1,2) assms(3) w4(3)] at(2) show ?thesis
    by (simp add: w4_def a_def attempt_row_def)
qed

lemma finish_retry:
  assumes "up (redis w)" "takes (db w) j" "oktext (Error e)"
    and "\<not> errors_Is e ErrNonRetryable" "CanRetry j" "0 \<le> job_RetryCount j"
    and rand: "\<And>k n. 0 < n \<Longrightarrow> 0 \<le> rand_at (p_rt p) k n \<and> rand_at (p_rt p) k n < n"
    and "eff_base w \<le> 2 ^ 53" "eff_max w \<le> 2 ^ 53" and start: "stamp_ok start"
  shows "\<exists>w' dl. process_finish p None j start (Some e) w = w' \<and> redis w' = redis w \<and> dok (db w') \<and>
    tab (db w') = (tab (db w))\<lparr>
      t_jobs := (t_jobs (tab (db w)))(job_ID j \<mapsto> stored_job np na (retry_job j e (stamp w))),
      t_atts := t_atts (tab (db w)) @ [attempt_row (p_rt p) na j start JobStatusFailed (Error e) w]\<rparr> \<and>
    pending w' = pending w @ [(retry_job j e (stamp w), dl)] \<and> crashed w' = crashed w \<and>
    0 \<le> dl \<and> dl \<le> eff_max w \<and> dl \<le> eff_base w * 2 ^ nat (job_RetryCount j) \<and>
    retryBase w' = eff_base w \<and> retryMax w' = eff_max w"
proof -
  define a where "a = \<lparr> att_JobID = job_ID j, att_Attempt = job_RetryCount j + 1,
    att_Status = JobStatusFailed, att_Error = Error e,
    att_DurationMS = go_div (time_at (p_rt p) (ticks w) - start) millisecond,
    att_CreatedAt = time_at (p_rt p) (Suc (ticks w)) \<rparr>"
  have a: "att_JobID a = job_ID j" "okatt oktext a"
    using okatt_outcome [OF takes_row_okjob [OF assms(2)] start] assms(3) status_text by (simp_all add: a_def)
  note at = takes_attempt [OF assms(2) a]
  have ok: "okjob oktext okjson (retry_job j e (stamp w))"
    using assms(2,3,5) okjob_outcomes(3) by (simp add: takes_def)
  note st = store_job [OF at(1) ok outcome_simps(3), simplified]
  define w6 where "w6 = w\<lparr>ticks := Suc (Suc (Suc (ticks w))),
    db := snd (sUpdate S None (retry_job j e (stamp w)) (snd (sAddAttempt S None a (db w)))),
    metrics := (metrics w)\<lparr>m_JobsFailed := inc (job_JobType j) (m_JobsFailed (metrics w))\<rparr>\<rparr>"
  have eff: "eff_base w6 = eff_base w" "eff_max w6 = eff_max w"
    by (simp_all add: w6_def eff_base_def eff_max_def)
  have "1 \<le> job_RetryCount j + 1" using assms(6) by simp
  from backoff_bounded [OF rand this, of w6] assms(8,9)
  obtain dl where b: "backoff (p_rt p) (job_RetryCount j + 1) w6 =
      (Some dl, w6\<lparr>retryBase := eff_base w, retryMax := eff_max w, rands := Suc (rands w6)\<rparr>)"
    "0 \<le> dl" "dl \<le> eff_max w" "dl \<le> eff_base w * 2 ^ nat (job_RetryCount j)"
    unfolding eff by (metis add_diff_cancel_right')
  have "process_finish p None j start (Some e) w =
     (bump (\<lambda>m. m\<lparr>m_JobsRetried := inc (job_JobType j) (m_JobsRetried m)\<rparr>)
        (w6\<lparr>retryBase := eff_base w, retryMax := eff_max w, rands := Suc (rands w6)\<rparr>))
       \<lparr>pending := pending w6 @ [(retry_job j e (stamp w), dl)]\<rparr>"
    using assms(4,5) b(1)
    by (cases w) (simp add: process_finish_def world_simps pool_ports w6_def a_def)
  with st at(2) b(2-4) show ?thesis
    by (simp add: world_simps w6_def a_def attempt_row_def)
qed

text \<open>A job no worker holds and that has not finished.\<close>

abbreviation "free \<equiv> free_job up ents"
lemmas free_def = free_job_def

lemma claimed_full:
  assumes "free (redis w) j" "takes (db w) j" "p_registry p (job_JobType j) = Some proc"
  shows "\<exists>j' w2 t. claimed p j w = (j', w2) \<and>
    j' = j\<lparr>job_Status := JobStatusProcessing, job_UpdatedAt := t\<rparr> \<and> up (redis w2) \<and> takes (db w2) j' \<and>
    tab (db w2) = (tab (db w))\<lparr>t_jobs := (t_jobs (tab (db w)))(job_ID j \<mapsto> stored_job np na j')\<rparr> \<and>
    ents (redis w2) = (ents (redis w))(lock_key j \<mapsto> (''1'', Some lockTTL)) \<and>
    qv (redis w2) = qv (redis w) \<and> dlq (redis w2) = dlq (redis w) \<and> pending w2 = pending w \<and>
    crashed w2 = crashed w \<and> retryBase w2 = retryBase w \<and> retryMax w2 = retryMax w"
proof -
  obtain w1 where w1: "process_guard p None j w = (Some (time_at (p_rt p) (ticks w), proc), w1)"
    "up (redis w1)" "db w1 = db w" "qv (redis w1) = qv (redis w)" "dlq (redis w1) = dlq (redis w)"
    "ents (redis w1) = (ents (redis w))(lock_key j \<mapsto> (''1'', Some lockTTL))"
    "pending w1 = pending w" "crashed w1 = crashed w" "retryBase w1 = retryBase w"
    "retryMax w1 = retryMax w"
    using guard_acquires [of w j proc] assms(1,3) by (auto simp: free_def)
  then show ?thesis using mark_full [of w1 j] assms(2) by (auto simp: claimed_def)
qed

lemma process_claimed:
  assumes "free (redis w) j" "p_registry p (job_JobType j) = Some proc"
    and "claimed p j w = (j', w2)" "proc None j' w2 = (err, w3)"
  shows "process p None j w = process_exit (process_unlock p None j'
    (process_finish p None j' (time_at (p_rt p) (ticks w)) err w3))"
  using guard_acquires [of w j proc] assms
  by (auto simp: process_def free_def claimed_def)

lemma unlock_exit:
  assumes "up (redis w)"
  shows "\<exists>w'. process_exit (process_unlock p None j w) = w' \<and> up (redis w') \<and> db w' = db w \<and>
    ents (redis w') = (ents (redis w))(lock_key j := None) \<and> qv (redis w') = qv (redis w) \<and>
    dlq (redis w') = dlq (redis w) \<and> pending w' = pending w \<and> crashed w' = crashed w \<and>
    retryBase w' = retryBase w \<and> retryMax w' = retryMax w"
  using assms
  by (simp add: process_exit_def process_unlock_def world_simps pool_ports redis_rules)

text \<open>Success.\<close>

lemma process_success:
  assumes "free (redis w) j" "p_registry p (job_JobType j) = Some proc"
    and "claimed p j w = (j', w2)" "proc None j' w2 = (None, w3)"
    and "job_ID j' = job_ID j" "up (redis w3)" "takes (db w3) j'"
  shows "\<exists>w'. process p None j w = w' \<and> up (redis w') \<and> dok (db w') \<and>
    tab (db w') = (tab (db w3))\<lparr>
      t_jobs := (t_jobs (tab (db w3)))(job_ID j \<mapsto> stored_job np na (success_job j' (stamp w3))),
      t_atts := t_atts (tab (db w3)) @
        [attempt_row (p_rt p) na j' (time_at (p_rt p) (ticks w)) JobStatusSuccess '''' w3]\<rparr> \<and>
    ents (redis w') = (ents (redis w3))(done_key j \<mapsto> (''1'', Some processedTTL), lock_key j := None) \<and>
    qv (redis w') = qv (redis w3) \<and> dlq (redis w') = dlq (redis w3) \<and>
    pending w' = pending w3 \<and> crashed w' = crashed w3"
proof -
  have k: "done_key j' = done_key j" "lock_key j' = lock_key j" using assms(5) by simp_all
  from finish_success [OF assms(6,7) stamps] unlock_exit show ?thesis
    unfolding process_claimed [OF assms(1-4)] k [symmetric] assms(5) [symmetric] by fastforce
qed

text \<open>Failure for good: a non-retryable error or no budget left.\<close>

lemma process_dead:
  assumes "free (redis w) j" "p_registry p (job_JobType j) = Some proc"
    and "claimed p j w = (j', w2)" "proc None j' w2 = (Some e, w3)"
    and "job_ID j' = job_ID j" "up (redis w3)" "takes (db w3) j'" "oktext (Error e)"
    and "errors_Is e ErrNonRetryable \<or> \<not> CanRetry j'" "wire (dead_job j' (Error e) (stamp w3))"
  shows "\<exists>w'. process p None j w = w' \<and> up (redis w') \<and> dok (db w') \<and>
    tab (db w') = (tab (db w3))\<lparr>
      t_jobs := (t_jobs (tab (db w3)))(job_ID j \<mapsto> stored_job np na (dead_job j' (Error e) (stamp w3))),
      t_atts := t_atts (tab (db w3)) @
        [attempt_row (p_rt p) na j' (time_at (p_rt p) (ticks w)) JobStatusFailed (Error e) w3]\<rparr> \<and>
    ents (redis w') = (ents (redis w3))(done_key j \<mapsto> (''1'', Some processedTTL), lock_key j := None) \<and>
    qv (redis w') = qv (redis w3) \<and>
    dlq (redis w') = dead_job j' (Error e) (stamp w3) # dlq (redis w3) \<and>
    pending w' = pending w3 \<and> crashed w' = crashed w3"
proof -
  have k: "done_key j' = done_key j" "lock_key j' = lock_key j" using assms(5) by simp_all
  from finish_dead [OF assms(6-10) stamps] unlock_exit show ?thesis
    unfolding process_claimed [OF assms(1-4)] k [symmetric] assms(5) [symmetric] by fastforce
qed

text \<open>Failure with budget left: back to QUEUED, one retry more, scheduled after the backoff.\<close>

lemma process_retry:
  assumes "free (redis w) j" "p_registry p (job_JobType j) = Some proc"
    and "claimed p j w = (j', w2)" "proc None j' w2 = (Some e, w3)"
    and "job_ID j' = job_ID j" "up (redis w3)" "takes (db w3) j'" "oktext (Error e)"
    and "\<not> errors_Is e ErrNonRetryable" "CanRetry j'" "0 \<le> job_RetryCount j'"
    and rand: "\<And>k n. 0 < n \<Longrightarrow> 0 \<le> rand_at (p_rt p) k n \<and> rand_at (p_rt p) k n < n"
    and "eff_base w3 \<le> 2 ^ 53" "eff_max w3 \<le> 2 ^ 53"
  shows "\<exists>w' dl. process p None j w = w' \<and> up (redis w') \<and> dok (db w') \<and>
    tab (db w') = (tab (db w3))\<lparr>
      t_jobs := (t_jobs (tab (db w3)))(job_ID j \<mapsto> stored_job np na (retry_job j' e (stamp w3))),
      t_atts := t_atts (tab (db w3)) @
        [attempt_row (p_rt p) na j' (time_at (p_rt p) (ticks w)) JobStatusFailed (Error e) w3]\<rparr> \<and>
    ents (redis w') = (ents (redis w3))(lock_key j := None) \<and>
    qv (redis w') = qv (redis w3) \<and> dlq (redis w') = dlq (redis w3) \<and>
    pending w' = pending w3 @ [(retry_job j' e (stamp w3), dl)] \<and> crashed w' = crashed w3 \<and>
    0 \<le> dl \<and> dl \<le> eff_max w3 \<and> dl \<le> eff_base w3 * 2 ^ nat (job_RetryCount j') \<and>
    retryBase w' = eff_base w3 \<and> retryMax w' = eff_max w3"
proof -
  have k: "lock_key j' = lock_key j" using assms(5) by simp
  obtain wf dl where f: "process_finish p None j' (time_at (p_rt p) (ticks w)) (Some e) w3 = wf"
    "redis wf = redis w3" "dok (db wf)"
    "tab (db wf) = (tab (db w3))\<lparr>
      t_jobs := (t_jobs (tab (db w3)))(job_ID j' \<mapsto> stored_job np na (retry_job j' e (stamp w3))),
      t_atts := t_atts (tab (db w3)) @
        [attempt_row (p_rt p) na j' (time_at (p_rt p) (ticks w)) JobStatusFailed (Error e) w3]\<rparr>"
    "pending wf = pending w3 @ [(retry_job j' e (stamp w3), dl)]" "crashed wf = crashed w3"
    "0 \<le> dl" "dl \<le> eff_max w3" "dl \<le> eff_base w3 * 2 ^ nat (job_RetryCount j')"
    "retryBase wf = eff_base w3" "retryMax wf = eff_max w3"
    using finish_retry [OF assms(6-11) rand assms(13,14) stamps] by blast
  have "up (redis wf)" using f(2) assms(6) by simp
  from unlock_exit [OF this, of j'] f show ?thesis
    unfolding process_claimed [OF assms(1-4)] k [symmetric] assms(5) [symmetric] by fastforce
qed

abbreviation "waiting \<equiv> waiting_job up ents qv tab dok oktext okjson np na"
lemmas waiting_def = waiting_job_def

lemma next_level_single: "next_level ((\<lambda>_. [])(level q := [j])) = Some (level q)"
  by (simp add: next_level_def level_def)

lemma upd_empty [simp]: "(\<lambda>_. [])(l := []) = (\<lambda>_. [])"
  by auto

lemma waiting_popped:
  assumes "waiting j w" "w1 = w\<lparr>redis := snd (qPop Q None (redis w))\<rparr>"
  shows "delivery p w = (let w2 = process p None j w1 in case pending w2 of [] \<Rightarrow> w2
      | (job', dl) # rest \<Rightarrow> requeueAfter p None job' True (w2\<lparr>pending := rest\<rparr>))"
    "free (redis w1) j" "takes (db w1) j" "qv (redis w1) = (\<lambda>_. [])" "dlq (redis w1) = dlq (redis w)"
    "ents (redis w1) = ents (redis w)" "pending w1 = []" "\<not> crashed w1"
    "eff_base w1 \<le> 2 ^ 53" "eff_max w1 \<le> 2 ^ 53" "tab (db w1) = tab (db w)"
  using assms
  by (simp_all add: waiting_def free_def delivery_def world_simps pool_ports redis_rules
      next_level_single)

text \<open>One failing delivery with budget left, and the last one without.\<close>

lemma delivery_retry:
  assumes w: "waiting j w" "CanRetry j" and proc: "p_registry p (job_JobType j) = Some proc"
    and fails: "\<And>c j w. proc c j w = (Some e, w)" "\<not> errors_Is e ErrNonRetryable" "oktext (Error e)"
    and wire: "\<And>j'. failed_form (p_rt p) (Error e) j j' \<Longrightarrow> wire j'"
    and rand: "\<And>k n. 0 < n \<Longrightarrow> 0 \<le> rand_at (p_rt p) k n \<and> rand_at (p_rt p) k n < n"
  shows "\<exists>j2. waiting j2 (delivery p w) \<and> failed_form (p_rt p) (Error e) j j2 \<and> job_ID j2 = job_ID j \<and> job_JobType j2 = job_JobType j \<and>
    job_RetryCount j2 = job_RetryCount j + 1 \<and> job_MaxRetries j2 = job_MaxRetries j \<and>
    dlq (redis (delivery p w)) = dlq (redis w) \<and>
    length (t_atts (tab (db (delivery p w)))) = Suc (length (t_atts (tab (db w))))"
proof -
  define w1 where "w1 = w\<lparr>redis := snd (qPop Q None (redis w))\<rparr>"
  note pop = waiting_popped [OF w(1) w1_def]
  obtain j' w2 t where cl: "claimed p j w1 = (j', w2)"
    "j' = j\<lparr>job_Status := JobStatusProcessing, job_UpdatedAt := t\<rparr>" "up (redis w2)" "takes (db w2) j'"
    "tab (db w2) = (tab (db w1))\<lparr>t_jobs := (t_jobs (tab (db w1)))(job_ID j \<mapsto> stored_job np na j')\<rparr>"
    "ents (redis w2) = (ents (redis w1))(lock_key j \<mapsto> (''1'', Some lockTTL))"
    "qv (redis w2) = qv (redis w1)" "dlq (redis w2) = dlq (redis w1)" "pending w2 = pending w1"
    "crashed w2 = crashed w1" "retryBase w2 = retryBase w1" "retryMax w2 = retryMax w1"
    using claimed_full [OF pop(2,3) proc] by blast
  have j': "job_ID j' = job_ID j" "CanRetry j'" "0 \<le> job_RetryCount j'"
    "job_RetryCount j' = job_RetryCount j" "job_MaxRetries j' = job_MaxRetries j"
    "job_JobType j' = job_JobType j" "job_Priority j' = job_Priority j"
    using w cl(2) by (simp_all add: CanRetry_def waiting_def)
  have eff: "eff_base w2 \<le> 2 ^ 53" "eff_max w2 \<le> 2 ^ 53"
    using pop(9,10) eff_cong(1) [OF cl(11)] eff_cong(2) [OF cl(12)] by simp_all
  define j2 where "j2 = retry_job j' e (stamp w2)"
  obtain w3 dl where w3: "process p None j w1 = w3" "up (redis w3)" "dok (db w3)"
    "tab (db w3) = (tab (db w2))\<lparr>t_jobs := (t_jobs (tab (db w2)))(job_ID j \<mapsto> stored_job np na j2),
      t_atts := t_atts (tab (db w2)) @
        [attempt_row (p_rt p) na j' (time_at (p_rt p) (ticks w1)) JobStatusFailed (Error e) w2]\<rparr>"
    "ents (redis w3) = (ents (redis w2))(lock_key j := None)" "qv (redis w3) = qv (redis w2)"
    "dlq (redis w3) = dlq (redis w2)" "pending w3 = pending w2 @ [(j2, dl)]"
    "crashed w3 = crashed w2" "retryBase w3 = eff_base w2" "retryMax w3 = eff_max w2"
    using process_retry [OF pop(2) proc cl(1) fails(1) j'(1) cl(3,4) fails(3,2) j'(2,3) rand eff]
    unfolding j2_def by blast
  have ok: "okjob oktext okjson j2"
    using okjob_outcomes(3) [OF _ fails(3) j'(2)] cl(4) by (simp add: j2_def takes_def)
  have form: "failed_form (p_rt p) (Error e) j j2"
    using w(2) j'(4) unfolding failed_form_def
    by (intro exI [of _ JobStatusQueued] exI [of _ "job_RetryCount j + 1"] exI [of _ "Suc (Suc (ticks w2))"] exI [of _ "job_ProcessedAt j"])
      (simp add: j2_def retry_job_def cl(2) CanRetry_def)
  then have wi: "wire j2" by (rule wire)
  have keys: "done_key j2 = done_key j" "lock_key j2 = lock_key j" "job_Priority j2 = job_Priority j"
    using j' by (simp_all add: j2_def done_key_def lock_key_def)
  define w4 where "w4 = w3\<lparr>pending := [], redis := snd (qPush Q None j2 (redis w3))\<rparr>"
  have d: "delivery p w = w4"
    using pop(1,7) w3(1,2,8) cl(9) wi
    by (simp add: requeueAfter_def world_simps pool_ports redis_rules w4_def)
  have "takes (db w4) j2"
    using w3(3,4) ok j'(1) by (simp add: takes_def w4_def j2_def same_row_def)
  moreover have "free (redis w4) j2"
    using w3(2,5) wi pop(2,6) cl(6) keys unfolding free_def keys(1,2) by (simp add: w4_def redis_rules)
  ultimately have "waiting j2 w4"
    using w3(2,6,9) wi cl(7,10) pop(4,8) eff keys j' eff_eff(1) [of w4 w2] eff_eff(2) [of w4 w2] w3(10,11)
    by (simp add: waiting_def w4_def redis_rules j2_def)
  then show ?thesis
    using w3(2,4,7) wi cl(5,8) pop(5,11) j' form unfolding d
    by (intro exI [of _ j2]) (simp add: w4_def redis_rules j2_def)
qed

lemma delivery_dead:
  assumes w: "waiting j w" "\<not> CanRetry j" and proc: "p_registry p (job_JobType j) = Some proc"
    and fails: "\<And>c j w. proc c j w = (Some e, w)" "oktext (Error e)"
    and wire: "\<And>j'. failed_form (p_rt p) (Error e) j j' \<Longrightarrow> wire j'"
  shows "\<exists>dead w'. delivery p w = w' \<and> dlq (redis w') = dead # dlq (redis w) \<and>
    job_ID dead = job_ID j \<and> job_Status dead = JobStatusDeadLetter \<and> job_ErrorMessage dead = Error e \<and>
    t_jobs (tab (db w')) (job_ID j) = Some (stored_job np na dead) \<and> qv (redis w') = (\<lambda>_. []) \<and>
    pending w' = [] \<and> length (t_atts (tab (db w'))) = Suc (length (t_atts (tab (db w))))"
proof -
  define w1 where "w1 = w\<lparr>redis := snd (qPop Q None (redis w))\<rparr>"
  note pop = waiting_popped [OF w(1) w1_def]
  obtain j' w2 t where cl: "claimed p j w1 = (j', w2)"
    "j' = j\<lparr>job_Status := JobStatusProcessing, job_UpdatedAt := t\<rparr>" "up (redis w2)" "takes (db w2) j'"
    "tab (db w2) = (tab (db w1))\<lparr>t_jobs := (t_jobs (tab (db w1)))(job_ID j \<mapsto> stored_job np na j')\<rparr>"
    "qv (redis w2) = qv (redis w1)" "dlq (redis w2) = dlq (redis w1)" "pending w2 = pending w1"
    using claimed_full [OF pop(2,3) proc] by blast
  have j': "job_ID j' = job_ID j" "\<not> CanRetry j'" using w cl(2) by (simp_all add: CanRetry_def)
  define dead where "dead = dead_job j' (Error e) (stamp w2)"
  have ok: "okjob oktext okjson dead"
    using okjob_outcomes(1) [OF _ fails(2)] cl(4) by (simp add: dead_def takes_def)
  have wi: "wire (dead_job j' (Error e) (stamp w2))"
    by (rule wire, unfold failed_form_def,
        intro exI [of _ JobStatusDeadLetter] exI [of _ "job_RetryCount j"] exI [of _ "Suc (Suc (ticks w2))"] exI [of _ "Some (stamp w2)"])
      (auto simp: dead_job_def cl(2))
  from process_dead [OF pop(2) proc cl(1) fails(1) j'(1) cl(3,4) fails(2) _ wi] j'(2)
  obtain w3 where w3: "process p None j w1 = w3" "qv (redis w3) = qv (redis w2)"
    "tab (db w3) = (tab (db w2))\<lparr>t_jobs := (t_jobs (tab (db w2)))(job_ID j \<mapsto> stored_job np na dead),
      t_atts := t_atts (tab (db w2)) @
        [attempt_row (p_rt p) na j' (time_at (p_rt p) (ticks w1)) JobStatusFailed (Error e) w2]\<rparr>"
    "dlq (redis w3) = dead # dlq (redis w2)" "pending w3 = pending w2"
    unfolding dead_def by blast
  have "delivery p w = w3" using pop(1,7) w3(1,5) cl(8) by simp
  then show ?thesis
    using w3 cl(5-8) pop(4,5,7,11) j'(1)
    by (intro exI [of _ dead] exI [of _ w3]) (simp add: dead_def dead_job_def)
qed

text \<open>
  A job whose processor always fails with a retryable error is dead-lettered by delivery number
  \<open>MaxRetries - RetryCount + 1\<close>, with one attempt recorded per delivery.
\<close>

lemma deliveries_exhaust:
  assumes "waiting j w" "p_registry p (job_JobType j) = Some proc"
    and fails: "\<And>c j w. proc c j w = (Some e, w)" "\<not> errors_Is e ErrNonRetryable" "oktext (Error e)"
    and "\<And>j'. failed_form (p_rt p) (Error e) j j' \<Longrightarrow> wire j'"
    and rand: "\<And>k n. 0 < n \<Longrightarrow> 0 \<le> rand_at (p_rt p) k n \<and> rand_at (p_rt p) k n < n"
    and "n = nat (job_MaxRetries j - job_RetryCount j)"
  shows "\<exists>dead w'. deliveries (Suc n) p w = w' \<and> dlq (redis w') = dead # dlq (redis w) \<and>
    job_ID dead = job_ID j \<and> job_Status dead = JobStatusDeadLetter \<and> job_ErrorMessage dead = Error e \<and>
    t_jobs (tab (db w')) (job_ID j) = Some (stored_job np na dead) \<and> qv (redis w') = (\<lambda>_. []) \<and>
    pending w' = [] \<and> length (t_atts (tab (db w'))) = length (t_atts (tab (db w))) + Suc n"
  using assms(1,2,6,8)
proof (induction n arbitrary: j w)
  case 0
  then have "\<not> CanRetry j" by (simp add: CanRetry_def)
  from delivery_dead [OF "0.prems"(1) this "0.prems"(2) fails(1,3) "0.prems"(3)] show ?case by simp
next
  case (Suc n)
  then have "CanRetry j" by (simp add: CanRetry_def)
  from delivery_retry [OF Suc.prems(1) this Suc.prems(2) fails Suc.prems(3) rand]
  obtain j2 where j2: "waiting j2 (delivery p w)" "job_ID j2 = job_ID j" "job_JobType j2 = job_JobType j"
    "job_RetryCount j2 = job_RetryCount j + 1" "job_MaxRetries j2 = job_MaxRetries j"
    "dlq (redis (delivery p w)) = dlq (redis w)"
    "length (t_atts (tab (db (delivery p w)))) = Suc (length (t_atts (tab (db w))))"
    "failed_form (p_rt p) (Error e) j j2"
    by blast
  have wires: "wire j'" if "failed_form (p_rt p) (Error e) j2 j'" for j'
    by (rule Suc.prems(3), rule failed_form_trans [OF j2(8) that])
  have "n = nat (job_MaxRetries j2 - job_RetryCount j2)" using Suc.prems(4) j2(4,5) by simp
  from Suc.IH [OF j2(1) _ wires this] Suc.prems(2) j2 show ?case by (simp only: deliveries.simps(2)) auto
qed

end

section \<open>The pool on Redis\<close>

lemma job_keys_cache_key: "cache_key (done_key j)" "cache_key (lock_key j)"
  by (simp_all add: cache_key_def list_keys_def listkey_defs done_key_def lock_key_def)

locale pool_env =
  redis_env R lst ents up elapse J pt + store_contract S tab dok oktext okjson np na
  for R :: "'r redis_client" and lst ents up elapse J pt
    and S :: "'d Store_port" and tab dok oktext okjson np na +
  fixes procs :: "(JobType \<times> ('r, 'd) processor) list" and workers :: int and E :: runtime
  assumes statuses: "list_all oktext [JobStatusSuccess, JobStatusFailed, JobStatusQueued,
      JobStatusDeadLetter, JobStatusProcessing, '''']"
    and clocked: "clock_ok E"

sublocale pool_env \<subseteq> wk: worker_env "RedisCache_port R" ents "server_ok J lst ents up" cache_key
  elapse "RedisQueue_port R J pt" "queue_view J lst" "dead_view J lst" "wire J"
  S tab dok oktext okjson np na
  "NewPool (RedisQueue_port R J pt) S (RedisCache_port R) procs workers E"
  using statuses clocked
  by unfold_locales
    (simp_all add: NewPool_def cache_key_def list_keys_def listkey_defs)

context pool_env
begin

lemmas redis_success = wk.process_success
lemmas redis_dead = wk.process_dead
lemmas redis_retry = wk.process_retry
lemmas redis_skips_done = wk.process_skips_done
lemmas redis_skips_locked = wk.process_skips_locked
lemmas redis_ended = wk.process_drops_on_ended_context
lemmas redis_claimed = wk.claimed_full
lemmas redis_exhaust = wk.deliveries_exhaust

end

text \<open>The status values a text column has to accept.\<close>

definition text_statuses :: "(string \<Rightarrow> bool) \<Rightarrow> bool" where
  "text_statuses oktext \<longleftrightarrow> list_all oktext [JobStatusSuccess, JobStatusFailed, JobStatusQueued,
      JobStatusDeadLetter, JobStatusProcessing, '''']"

lemma pool_envI:
  assumes "redis_laws R lst ents up elapse" "store_contract S tab dok oktext okjson np na"
    and "text_statuses oktext" "clock_ok E"
  shows "pool_env R lst ents up elapse S tab dok oktext okjson np na E"
  using assms by (simp add: pool_env_def redis_env_def pool_env_axioms_def text_statuses_def)

end
