(* ===== verification/Reports.thy ===== *)
theory Reports
  imports Ports
begin

text \<open>
  What the admin service reads of a store beside single rows: pages of jobs and counts of jobs. The
  contract is stated on the tables of the store and met by both stores of the repository; what
  comes first among jobs of the same time is left open.
\<close>

definition result_page :: "int \<Rightarrow> int \<Rightarrow> 'a list \<Rightarrow> 'a list" where
  "result_page limit offset xs = take (nat limit) (drop (nat offset) xs)"

lemma result_page_map: "result_page limit offset (map f xs) = map f (result_page limit offset xs)"
  by (simp add: result_page_def take_map drop_map)

lemma result_page_subset: "set (result_page limit offset xs) \<subseteq> set xs"
  unfolding result_page_def by (meson set_drop_subset set_take_subset subset_trans)

text \<open>An empty field of a filter selects everything.\<close>

definition selected :: "JobFilter \<Rightarrow> Job \<Rightarrow> bool" where
  "selected f j \<longleftrightarrow> (jf_Status f = '''' \<or> job_Status j = jf_Status f) \<and> (jf_JobType f = '''' \<or> job_JobType j = jf_JobType f)"

text \<open>All jobs of a table that a condition selects, each once, latest first.\<close>

definition lists_jobs :: "tables \<Rightarrow> (Job \<Rightarrow> bool) \<Rightarrow> (Job \<Rightarrow> time) \<Rightarrow> Job list \<Rightarrow> bool" where
  "lists_jobs t sel at js \<longleftrightarrow> distinct (map job_ID js) \<and> set js = {j \<in> ran (t_jobs t). sel j} \<and>
     sorted_wrt (\<lambda>a b. at b \<le> at a) js"

lemma lists_jobs_unique:
  assumes "lists_jobs t q at xs" "lists_jobs t q at ys" "inj_on at {j \<in> ran (t_jobs t). q j}"
  shows "xs = ys"
proof -
  have s: "set xs = {j \<in> ran (t_jobs t). q j}" "set ys = {j \<in> ran (t_jobs t). q j}" using assms(1,2) by (auto simp: lists_jobs_def)
  have d: "distinct xs" "distinct ys" using assms(1,2) by (auto simp: lists_jobs_def distinct_map)
  have "sorted (map (\<lambda>j. - at j) xs)" "sorted (map (\<lambda>j. - at j) ys)"
    using assms(1,2) by (simp_all add: lists_jobs_def sorted_map)
  moreover have "inj_on (\<lambda>j. - at j) (set xs \<union> set ys)" using assms(3) s by (auto simp: inj_on_def)
  ultimately show ?thesis using d s by (intro map_sorted_distinct_set_unique [of "\<lambda>j. - at j"]) (auto simp: distinct_map inj_on_Un)
qed

text \<open>The number of jobs for every value of a field that some job has.\<close>

definition with_field :: "tables \<Rightarrow> (Job \<Rightarrow> string) \<Rightarrow> string \<Rightarrow> string set" where
  "with_field t g k = {i. \<exists>j. t_jobs t i = Some j \<and> g j = k}"

definition counts_jobs :: "tables \<Rightarrow> (Job \<Rightarrow> string) \<Rightarrow> (string \<times> int) list \<Rightarrow> bool" where
  "counts_jobs t g out \<longleftrightarrow> distinct (map fst out) \<and>
     (\<forall>k. map_of out k = (if with_field t g k = {} then None else Some (int (card (with_field t g k)))))"

lemma counts_nonneg:
  assumes "counts_jobs t g out" "(k, n) \<in> set out"
  shows "0 \<le> n"
proof -
  have "map_of out k = Some n" using assms unfolding counts_jobs_def by (blast intro: map_of_is_SomeI)
  moreover have "map_of out k = (if with_field t g k = {} then None else Some (int (card (with_field t g k))))"
    using assms(1) unfolding counts_jobs_def by blast
  ultimately show ?thesis by (simp split: if_splits)
qed

lemma counts_total:
  assumes "finite (dom (t_jobs t))" "counts_jobs t g out"
  shows "sum_list (map snd out) = int (card (dom (t_jobs t)))"
proof -
  let ?K = "dom (map_of out)"
  have dist: "distinct (map fst out)" and val: "map_of out k = (if with_field t g k = {} then None else Some (int (card (with_field t g k))))" for k
    using assms(2) by (auto simp: counts_jobs_def)
  have fin: "finite ?K" by (rule finite_dom_map_of)
  have "sum_list (map snd out) = (\<Sum>(k, n) \<in> set out. n)"
    using dist by (simp add: sum_list_distinct_conv_sum_set distinct_map case_prod_beta')
  also have "\<dots> = (\<Sum>k \<in> ?K. the (map_of out k))"
    by (rule sum.reindex_bij_witness [of _ "\<lambda>k. (k, the (map_of out k))" fst])
      (use dist in \<open>auto simp: dom_map_of_conv_image_fst image_iff dest: map_of_SomeD\<close>)
  also have "\<dots> = (\<Sum>k \<in> ?K. int (card (with_field t g k)))"
    by (rule sum.cong) (use val in \<open>auto split: if_splits\<close>)
  also have "\<dots> = int (card (\<Union>k \<in> ?K. with_field t g k))"
    by (subst card_UN_disjoint [OF fin]) (auto simp: with_field_def intro: finite_subset [OF _ assms(1)])
  also have "(\<Union>k \<in> ?K. with_field t g k) = dom (t_jobs t)"
    using val by (fastforce simp: with_field_def dom_def)
  finally show ?thesis .
qed

locale report_contract =
  fixes S :: "'d Store_port" and tab :: "'d \<Rightarrow> tables" and dok :: "'d \<Rightarrow> bool" and oktext :: "string \<Rightarrow> bool"
  assumes jobs_finite: "dok d \<Longrightarrow> finite (dom (t_jobs (tab d)))"
    and count_status: "dok d \<Longrightarrow> \<exists>out. sCountByStatus S None d = (Inr out, d) \<and> counts_jobs (tab d) job_Status out"
    and count_type: "dok d \<Longrightarrow> \<exists>out. sCountByType S None d = (Inr out, d) \<and> counts_jobs (tab d) job_JobType out"
    and list_page: "dok d \<Longrightarrow> oktext (jf_Status f) \<Longrightarrow> oktext (jf_JobType f) \<Longrightarrow> 0 < jf_Limit f \<Longrightarrow> jf_Limit f \<le> 500 \<Longrightarrow>
        0 \<le> jf_Offset f \<Longrightarrow> int64 (jf_Offset f) \<Longrightarrow>
        \<exists>js. sList S None f d = (Inr (result_page (jf_Limit f) (jf_Offset f) js), d) \<and>
          lists_jobs (tab d) (selected f) job_CreatedAt js"

end
