(* ===== verification/Memory_Store.thy ===== *)
theory Memory_Store
  imports Reports "HOL-Library.AList" "HOL-Library.Multiset"
begin

text \<open>
  The in-memory implementation of the store port, \<open>internal/testutil/store.go\<close>, which the unit
  and integration tests run the services against. The Go map of jobs is an association list with
  distinct keys; its order stands for the unspecified iteration order of the map. The store
  ignores the context. It satisfies the store contract with nothing normalised and no value
  refused.
\<close>

record InMemoryStore =
  ms_jobs :: "(string \<times> Job) list"
  ms_Attempts :: "JobAttempt list"
  ms_Registrations :: "Registration list"
  ms_Payments :: "PaymentEvent list"
  ms_Scans :: "QRScanEvent list"
  ms_Notifications :: "NotificationEvent list"
  ms_Audits :: "AuditLog list"

definition NewInMemoryStore :: InMemoryStore where
  "NewInMemoryStore = \<lparr> ms_jobs = [], ms_Attempts = [], ms_Registrations = [], ms_Payments = [],
     ms_Scans = [], ms_Notifications = [], ms_Audits = [] \<rparr>"

definition MemStore_Create :: "ctx \<Rightarrow> Job \<Rightarrow> InMemoryStore \<Rightarrow> goerr option \<times> InMemoryStore" where
  "MemStore_Create c j s = (None, s\<lparr>ms_jobs := AList.update (job_ID j) j (ms_jobs s)\<rparr>)"

definition MemStore_Update :: "ctx \<Rightarrow> Job \<Rightarrow> InMemoryStore \<Rightarrow> goerr option \<times> InMemoryStore" where
  "MemStore_Update c j s =
     (if map_of (ms_jobs s) (job_ID j) = None then (Some (Sentinel ErrNotFound), s)
      else (None, s\<lparr>ms_jobs := AList.update (job_ID j) j (ms_jobs s)\<rparr>))"

definition MemStore_GetByID :: "ctx \<Rightarrow> string \<Rightarrow> InMemoryStore \<Rightarrow> (goerr + Job) \<times> InMemoryStore" where
  "MemStore_GetByID c i s = (case map_of (ms_jobs s) i of
     None \<Rightarrow> (Inl (Sentinel ErrNotFound), s) | Some j \<Rightarrow> (Inr j, s))"

definition job_matches :: "JobFilter \<Rightarrow> Job \<Rightarrow> bool" where
  "job_matches f j \<longleftrightarrow> \<not> (jf_Status f \<noteq> '''' \<and> job_Status j \<noteq> jf_Status f) \<and>
     \<not> (jf_JobType f \<noteq> '''' \<and> job_JobType j \<noteq> jf_JobType f)"

definition page :: "int \<Rightarrow> int \<Rightarrow> 'a list \<Rightarrow> 'a list" where
  "page limit offset out =
     (let out1 = (if 0 < offset \<and> offset < int (length out) then drop (nat offset) out
                  else if int (length out) \<le> offset then [] else out)
      in if 0 < limit \<and> limit < int (length out1) then take (nat limit) out1 else out1)"

definition MemStore_List ::
  "ctx \<Rightarrow> JobFilter \<Rightarrow> InMemoryStore \<Rightarrow> (goerr + Job list) \<times> InMemoryStore" where
  "MemStore_List c f s =
     (let out = filter (job_matches f) (map snd (ms_jobs s));
          sorted_out = sort_key (\<lambda>j. - job_CreatedAt j) out
      in (Inr (page (jf_Limit f) (jf_Offset f) sorted_out), s))"

definition MemStore_ListDeadLetter ::
  "ctx \<Rightarrow> int \<Rightarrow> int \<Rightarrow> InMemoryStore \<Rightarrow> (goerr + Job list) \<times> InMemoryStore" where
  "MemStore_ListDeadLetter c limit offset s =
     MemStore_List c \<lparr> jf_Status = JobStatusDeadLetter, jf_JobType = '''', jf_Limit = limit,
                       jf_Offset = offset \<rparr> s"

text \<open>\<open>out[k]++\<close> for every key of a list, on a map that starts empty.\<close>

definition count_by :: "string list \<Rightarrow> (string \<times> int) list" where
  "count_by ks = fold (\<lambda>k out. AList.update k (case map_of out k of None \<Rightarrow> 1 | Some n \<Rightarrow> n + 1) out) ks []"

definition MemStore_CountByStatus ::
  "ctx \<Rightarrow> InMemoryStore \<Rightarrow> (goerr + (JobStatus \<times> int) list) \<times> InMemoryStore" where
  "MemStore_CountByStatus c s = (Inr (count_by (map (job_Status \<circ> snd) (ms_jobs s))), s)"

definition MemStore_CountByType ::
  "ctx \<Rightarrow> InMemoryStore \<Rightarrow> (goerr + (JobType \<times> int) list) \<times> InMemoryStore" where
  "MemStore_CountByType c s = (Inr (count_by (map (job_JobType \<circ> snd) (ms_jobs s))), s)"

definition MemStore_AddAttempt :: "ctx \<Rightarrow> JobAttempt \<Rightarrow> InMemoryStore \<Rightarrow> goerr option \<times> InMemoryStore" where
  "MemStore_AddAttempt c a s = (None, s\<lparr>ms_Attempts := ms_Attempts s @ [a]\<rparr>)"

definition MemStore_Ping :: "ctx \<Rightarrow> InMemoryStore \<Rightarrow> goerr option \<times> InMemoryStore" where
  "MemStore_Ping c s = (None, s)"

definition MemStore_CreateRegistration ::
  "ctx \<Rightarrow> Registration \<Rightarrow> InMemoryStore \<Rightarrow> goerr option \<times> InMemoryStore" where
  "MemStore_CreateRegistration c r s = (None, s\<lparr>ms_Registrations := ms_Registrations s @ [r]\<rparr>)"

fun upsert_payment :: "PaymentEvent \<Rightarrow> PaymentEvent list \<Rightarrow> PaymentEvent list" where
  "upsert_payment p [] = [p]"
| "upsert_payment p (ex # xs) =
     (if pe_GatewayOrderID ex = pe_GatewayOrderID p then p # xs else ex # upsert_payment p xs)"

definition MemStore_UpsertPaymentEvent ::
  "ctx \<Rightarrow> PaymentEvent \<Rightarrow> InMemoryStore \<Rightarrow> goerr option \<times> InMemoryStore" where
  "MemStore_UpsertPaymentEvent c p s = (None, s\<lparr>ms_Payments := upsert_payment p (ms_Payments s)\<rparr>)"

definition MemStore_CreateQRScanEvent ::
  "ctx \<Rightarrow> QRScanEvent \<Rightarrow> InMemoryStore \<Rightarrow> goerr option \<times> InMemoryStore" where
  "MemStore_CreateQRScanEvent c e s = (None, s\<lparr>ms_Scans := ms_Scans s @ [e]\<rparr>)"

definition MemStore_CreateNotificationEvent ::
  "ctx \<Rightarrow> NotificationEvent \<Rightarrow> InMemoryStore \<Rightarrow> goerr option \<times> InMemoryStore" where
  "MemStore_CreateNotificationEvent c n s = (None, s\<lparr>ms_Notifications := ms_Notifications s @ [n]\<rparr>)"

definition MemStore_CreateAuditLog ::
  "ctx \<Rightarrow> AuditLog \<Rightarrow> InMemoryStore \<Rightarrow> goerr option \<times> InMemoryStore" where
  "MemStore_CreateAuditLog c l s = (None, s\<lparr>ms_Audits := ms_Audits s @ [l]\<rparr>)"

definition JobCount :: "InMemoryStore \<Rightarrow> int" where
  "JobCount s = int (length (ms_jobs s))"

definition MemStore_port :: "InMemoryStore Store_port" where
  "MemStore_port =
     \<lparr> sCreate = MemStore_Create, sUpdate = MemStore_Update, sGetByID = MemStore_GetByID,
       sList = MemStore_List, sListDeadLetter = MemStore_ListDeadLetter,
       sCountByStatus = MemStore_CountByStatus, sCountByType = MemStore_CountByType,
       sAddAttempt = MemStore_AddAttempt, sPing = MemStore_Ping,
       sCreateRegistration = MemStore_CreateRegistration,
       sUpsertPaymentEvent = MemStore_UpsertPaymentEvent,
       sCreateQRScanEvent = MemStore_CreateQRScanEvent,
       sCreateNotificationEvent = MemStore_CreateNotificationEvent,
       sCreateAuditLog = MemStore_CreateAuditLog \<rparr>"

section \<open>The store contract holds\<close>

definition mem_tables :: "InMemoryStore \<Rightarrow> tables" where
  "mem_tables s = \<lparr> t_jobs = map_of (ms_jobs s), t_atts = ms_Attempts s,
     t_regs = ms_Registrations s,
     t_pays = (\<lambda>k. find (\<lambda>p. pe_GatewayOrderID p = k) (ms_Payments s)),
     t_scans = ms_Scans s, t_notes = ms_Notifications s, t_audits = ms_Audits s \<rparr>"

lemmas mem_defs =
  MemStore_Create_def MemStore_Update_def MemStore_GetByID_def MemStore_AddAttempt_def
  MemStore_CreateRegistration_def MemStore_UpsertPaymentEvent_def MemStore_CreateQRScanEvent_def
  MemStore_CreateNotificationEvent_def MemStore_CreateAuditLog_def

lemma find_upsert: "find (\<lambda>q. pe_GatewayOrderID q = k) (upsert_payment p ps) =
    (if k = pe_GatewayOrderID p then Some p else find (\<lambda>q. pe_GatewayOrderID q = k) ps)"
  by (induction ps) auto

lemma stored_job_id [simp]: "stored_job (\<lambda>x. x) (\<lambda>t. t) j = j"
  by (cases "job_ProcessedAt j") (simp_all add: stored_job_def)

interpretation mem: event_contract MemStore_port mem_tables "\<lambda>_. True" "\<lambda>_. True" "\<lambda>_. True"
  "\<lambda>x. x" "\<lambda>t. t"
proof (unfold_locales, goal_cases)
qed (auto simp: MemStore_port_def mem_defs mem_tables_def update_conv' find_upsert fun_eq_iff
      same_payment_def payment_id_def same_audit_def option.map_ident split: option.splits)

lemma find_in_set: "find P xs = Some x \<Longrightarrow> x \<in> set xs \<and> P x"
  by (induction xs) (auto split: if_splits)

section \<open>Listing and counting\<close>

lemma count_by_snoc: "count_by (ks @ [k]) =
    AList.update k (case map_of (count_by ks) k of None \<Rightarrow> 1 | Some n \<Rightarrow> n + 1) (count_by ks)"
  by (simp add: count_by_def)

lemma count_by_distinct: "distinct (map fst (count_by ks))"
  by (induction ks rule: rev_induct) (simp_all add: count_by_snoc distinct_update, simp add: count_by_def)

lemma count_by_map_of: "map_of (count_by ks) k =
    (if k \<in> set ks then Some (int (count_list ks k)) else None)"
proof (induction ks rule: rev_induct)
  case (snoc x ks)
  then show ?case
    by (auto simp: count_by_snoc update_conv' count_list_0_iff split: option.split if_splits)
qed (simp add: count_by_def)

lemma count_list_filter: "count_list (map (f \<circ> snd) xs) k = length (filter (\<lambda>(_, j). f j = k) xs)"
  by (induction xs) auto

lemma mem_counts:
  assumes "distinct (map fst (ms_jobs s))"
  shows "counts_jobs (mem_tables s) g (count_by (map (g \<circ> snd) (ms_jobs s)))"
proof -
  have w: "with_field (mem_tables s) g k = fst ` set (filter (\<lambda>(_, j). g j = k) (ms_jobs s))" for k
    using assms by (force simp: with_field_def mem_tables_def)
  have d: "distinct (map fst (filter (\<lambda>(_, j). g j = k) (ms_jobs s)))" for k
    using assms by (rule distinct_map_filter)
  have c: "card (with_field (mem_tables s) g k) = count_list (map (g \<circ> snd) (ms_jobs s)) k" for k
    unfolding w count_list_filter using d [of k] by (metis distinct_card length_map set_map)
  have "with_field (mem_tables s) g k = {} \<longleftrightarrow> k \<notin> set (map (g \<circ> snd) (ms_jobs s))" for k
    by (force simp: w filter_empty_conv)
  then show ?thesis by (simp add: counts_jobs_def count_by_distinct count_by_map_of c)
qed

text \<open>The map of jobs holds every job under its identifier.\<close>

definition mem_keyed :: "InMemoryStore \<Rightarrow> bool" where
  "mem_keyed s \<longleftrightarrow> distinct (map fst (ms_jobs s)) \<and> list_all (\<lambda>(i, j). job_ID j = i) (ms_jobs s)"

lemma page_result_page: "0 < limit \<Longrightarrow> 0 \<le> offset \<Longrightarrow> page limit offset xs = result_page limit offset xs"
  by (auto simp: page_def result_page_def Let_def)

lemma job_matches_selected: "job_matches f = selected f"
  by (auto simp: job_matches_def selected_def fun_eq_iff)

lemma mem_lists:
  assumes "mem_keyed s"
  shows "lists_jobs (mem_tables s) (selected f) job_CreatedAt
    (sort_key (\<lambda>j. - job_CreatedAt j) (filter (selected f) (map snd (ms_jobs s))))"
proof -
  let ?xs = "filter (selected f) (map snd (ms_jobs s))"
  have k: "distinct (map fst (ms_jobs s))" using assms by (simp add: mem_keyed_def)
  have "map job_ID (map snd (ms_jobs s)) = map fst (ms_jobs s)" using assms by (auto simp: mem_keyed_def list_all_iff)
  then have "distinct (map job_ID ?xs)" using k by (metis distinct_map_filter)
  then have "distinct (map job_ID (sort_key (\<lambda>j. - job_CreatedAt j) ?xs))"
    by (metis mset_eq_imp_distinct_iff mset_map mset_sort)
  moreover have "sorted_wrt (\<lambda>a b. job_CreatedAt b \<le> job_CreatedAt a) (sort_key (\<lambda>j. - job_CreatedAt j) ?xs)"
    using sorted_sort_key [of "\<lambda>j. - job_CreatedAt j" ?xs] by (simp add: sorted_map)
  moreover have "ran (map_of (ms_jobs s)) = snd ` set (ms_jobs s)" by (rule ran_distinct [OF k])
  ultimately show ?thesis by (auto simp: lists_jobs_def mem_tables_def)
qed

interpretation memrep: report_contract MemStore_port mem_tables mem_keyed "\<lambda>_. True"
proof (unfold_locales, goal_cases)
  case (1 d)
  then show ?case by (simp add: mem_tables_def finite_dom_map_of)
next
  case (2 d)
  then show ?case using mem_counts by (auto simp: MemStore_port_def MemStore_CountByStatus_def mem_keyed_def)
next
  case (3 d)
  then show ?case using mem_counts by (auto simp: MemStore_port_def MemStore_CountByType_def mem_keyed_def)
next
  case (4 d f)
  then show ?case using mem_lists [of d f]
    by (auto simp: MemStore_port_def MemStore_List_def Let_def page_result_page job_matches_selected)
qed

end
