(* ===== verification/Admin_Service.thy ===== *)
theory Admin_Service
  imports Worker_Pool Memory_Store
begin

text \<open>
  The admin service of \<open>internal/service/admin_service.go\<close>: listing, statistics and the manual
  retry of failed jobs. The retry is verified against the port contracts; its interplay with the
  worker's done marker is stated on the pool.
\<close>

record ('r, 'd) AdminService =
  as_queue :: "'r Queue_port"
  as_jobs :: "'d Store_port"
  as_rt :: runtime

definition NewAdminService :: "'r Queue_port \<Rightarrow> 'd Store_port \<Rightarrow> runtime \<Rightarrow> ('r, 'd) AdminService" where
  "NewAdminService q jobs E = \<lparr> as_queue = q, as_jobs = jobs, as_rt = E \<rparr>"

definition ListJobs ::
  "('r, 'd) AdminService \<Rightarrow> ctx \<Rightarrow> JobFilter \<Rightarrow> ('r, 'd) world \<Rightarrow> (goerr + Job list) \<times> ('r, 'd) world" where
  "ListJobs s c f w = on_db (sList (as_jobs s) c f) w"

definition GetJob ::
  "('r, 'd) AdminService \<Rightarrow> ctx \<Rightarrow> string \<Rightarrow> ('r, 'd) world \<Rightarrow> (goerr + Job) \<times> ('r, 'd) world" where
  "GetJob s c i w = on_db (sGetByID (as_jobs s) c i) w"

definition AdminService_ListDeadLetter ::
  "('r, 'd) AdminService \<Rightarrow> ctx \<Rightarrow> int \<Rightarrow> int \<Rightarrow> ('r, 'd) world \<Rightarrow> (goerr + Job list) \<times> ('r, 'd) world" where
  "AdminService_ListDeadLetter s c limit offset w = on_db (sListDeadLetter (as_jobs s) c limit offset) w"

text \<open>The depth of each level whose length could be read.\<close>

fun queue_depths ::
  "('r, 'd) AdminService \<Rightarrow> ctx \<Rightarrow> Priority list \<Rightarrow> ('r, 'd) world \<Rightarrow> (Priority \<times> int) list \<times> ('r, 'd) world" where
  "queue_depths s c [] w = ([], w)"
| "queue_depths s c (p # ps) w =
     (let (d, w1) = on_redis (qDepth (as_queue s) c p) w;
          (rest, w2) = queue_depths s c ps w1
      in case d of Inr n \<Rightarrow> ((p, n) # rest, w2) | Inl _ \<Rightarrow> (rest, w2))"

definition Stats ::
  "('r, 'd) AdminService \<Rightarrow> ctx \<Rightarrow> ('r, 'd) world \<Rightarrow> (goerr + JobStats) \<times> ('r, 'd) world" where
  "Stats s c w =
     (let (x, w1) = on_db (sCountByStatus (as_jobs s) c) w
      in case x of
           Inl e \<Rightarrow> (Inl (Wrap ''count by status: '' e ''''), w1)
         | Inr byStatus \<Rightarrow>
             (let (y, w2) = on_db (sCountByType (as_jobs s) c) w1
              in case y of
                   Inl e \<Rightarrow> (Inl (Wrap ''count by type: '' e ''''), w2)
                 | Inr byType \<Rightarrow>
                     (let total = fold (\<lambda>(_, n) t. wrap64 (t + n)) byStatus 0;
                          (depths, w3) = queue_depths s c [PriorityHigh, PriorityMedium, PriorityLow] w2;
                          (dl, w4) = on_redis (qDeadLetterDepth (as_queue s) c) w3;
                          dlqDepth = (case dl of Inr n \<Rightarrow> n | Inl _ \<Rightarrow> 0);
                          (now, w5) = time_Now (as_rt s) w4
                      in (Inr \<lparr> js_ByStatus = byStatus, js_ByType = byType, js_Total = total,
                                js_DeadLetter = dlqDepth, js_QueueDepths = depths,
                                js_GeneratedAt = now \<rparr>, w5))))"

definition reset_job :: "Job \<Rightarrow> time \<Rightarrow> Job" where
  "reset_job job now = job\<lparr>job_Status := JobStatusQueued, job_RetryCount := 0, job_ErrorMessage := '''',
     job_ProcessedAt := None, job_UpdatedAt := now\<rparr>"

definition RetryJob ::
  "('r, 'd) AdminService \<Rightarrow> ctx \<Rightarrow> string \<Rightarrow> ('r, 'd) world \<Rightarrow> (goerr + Job) \<times> ('r, 'd) world" where
  "RetryJob s c i w =
     (let (x, w1) = on_db (sGetByID (as_jobs s) c i) w
      in case x of
           Inl e \<Rightarrow> (Inl e, w1)
         | Inr job \<Rightarrow>
             if job_Status job \<noteq> JobStatusFailed \<and> job_Status job \<noteq> JobStatusDeadLetter
             then (Inl (Wrap '''' (Sentinel ErrInvalidPayload)
                     ('': job '' @ i @ '' is in state '' @ job_Status job @ '' and cannot be retried'')), w1)
             else
               (let (now, w2) = time_Now (as_rt s) w1;
                    job' = reset_job job now;
                    (e1, w3) = on_db (sUpdate (as_jobs s) c job') w2
                in case e1 of
                     Some e \<Rightarrow> (Inl (Wrap ''update job: '' e ''''), w3)
                   | None \<Rightarrow>
                       (let (e2, w4) = on_redis (qPush (as_queue s) c job') w3
                        in case e2 of
                             Some e \<Rightarrow> (Inl (Wrap ''requeue job: '' e ''''), w4)
                           | None \<Rightarrow> (Inr job', w4))))"

section \<open>Statistics\<close>

lemma fold_wrap_sum:
  assumes "\<And>k n. (k, n) \<in> set al \<Longrightarrow> 0 \<le> n" "0 \<le> a" "a + sum_list (map snd al) < 2 ^ 63"
  shows "fold (\<lambda>(_, n) t. wrap64 (t + n)) al a = a + sum_list (map snd al)"
  using assms
proof (induction al arbitrary: a)
  case (Cons x al)
  obtain k n where x: "x = (k, n)" by fastforce
  have s: "0 \<le> sum_list (map snd al)" using Cons.prems(1) by (intro sum_list_nonneg) force
  have n: "0 \<le> n" using Cons.prems(1) x by auto
  have "wrap64 (a + n) = a + n" using Cons.prems(2,3) n s x by (intro wrap64_id) simp_all
  with Cons.IH [of "a + n"] Cons.prems n x show ?case by (auto simp: add.assoc)
qed simp

section \<open>The manual retry against the ports\<close>

locale admin_env =
  redis_contract C ents up ckey elapse Q qv dlq wire +
  store_contract S tab dok oktext okjson np na
  for C :: "'r Cache_port" and ents up ckey elapse
    and Q :: "'r Queue_port" and qv dlq wire
    and S :: "'d Store_port" and tab dok oktext okjson np na +
  fixes s :: "('r, 'd) AdminService"
  assumes admin_ports: "as_queue s = Q" "as_jobs s = S"
begin

lemma retry_refused:
  assumes "dok (db w)" "oktext i"
    and "case t_jobs (tab (db w)) i of None \<Rightarrow> True
         | Some j \<Rightarrow> job_Status j \<notin> {JobStatusFailed, JobStatusDeadLetter}"
  shows "\<exists>e. RetryJob s None i w = (Inl e, w) \<and> errors_Is e
    (if t_jobs (tab (db w)) i = None then ErrNotFound else ErrInvalidPayload)"
  using assms
  by (auto simp: RetryJob_def world_simps admin_ports store_rules split: option.splits)

lemma retry_requeues:
  assumes "up (redis w)" "dok (db w)" "oktext i" "t_jobs (tab (db w)) i = Some j" "job_ID j = i"
    and st: "job_Status j \<in> {JobStatusFailed, JobStatusDeadLetter}"
    and job: "j' = reset_job j (time_at (as_rt s) (ticks w))" "wire j'" "okjob oktext okjson j'"
      "same_row (stored_job np na j') j"
  shows "\<exists>w'. RetryJob s None i w = (Inr j', w') \<and> up (redis w') \<and> dok (db w') \<and>
    tab (db w') = (tab (db w))\<lparr>t_jobs := (t_jobs (tab (db w)))(i \<mapsto> stored_job np na j')\<rparr> \<and>
    qv (redis w') = (qv (redis w))(level (job_Priority j) := qv (redis w) (level (job_Priority j)) @ [j']) \<and>
    ents (redis w') = ents (redis w) \<and> dlq (redis w') = dlq (redis w)"
proof -
  have i: "job_ID j' = i" "job_Priority j' = job_Priority j" using assms(5) job(1) by (simp_all add: reset_job_def)
  have t: "t_jobs (tab (db w)) (job_ID j') = Some j" using i assms(4) by simp
  note u = update_result [OF assms(2) job(3) t job(4)] update_tab [OF assms(2) job(3) t job(4)]
    update_dok [OF assms(2) job(3) t job(4)]
  have g: "fst (sGetByID S None i (db w)) = Inr j" "snd (sGetByID S None i (db w)) = db w"
    using assms(2-4) by (simp_all add: store_rules)
  from st have "\<not> (job_Status j \<noteq> JobStatusFailed \<and> job_Status j \<noteq> JobStatusDeadLetter)" by blast
  with g u i job(1,2) assms(1) show ?thesis
    by (simp add: RetryJob_def world_simps admin_ports redis_rules)
qed

end

section \<open>The service on Redis\<close>

locale administration_env =
  redis_env R lst ents up elapse J pt + store_contract S tab dok oktext okjson np na
  for R :: "'r redis_client" and lst ents up elapse J pt
    and S :: "'d Store_port" and tab dok oktext okjson np na +
  fixes E :: runtime

sublocale administration_env \<subseteq> adm: admin_env "RedisCache_port R" ents "server_ok J lst ents up" cache_key
  elapse "RedisQueue_port R J pt" "queue_view J lst" "dead_view J lst" "wire J"
  S tab dok oktext okjson np na "NewAdminService (RedisQueue_port R J pt) S E"
  by unfold_locales (simp_all add: NewAdminService_def)

context administration_env
begin

lemmas redis_retry_refused = adm.retry_refused
lemmas redis_retry_requeues = adm.retry_requeues

end

lemma administration_envI:
  assumes "redis_laws R lst ents up elapse" "store_contract S tab dok oktext okjson np na"
  shows "administration_env R lst ents up elapse S tab dok oktext okjson np na"
  using assms by (simp add: administration_env_def redis_env_def)

lemma Stats_counted:
  assumes redis: "redis_laws R lst ents up elapse" and store: "report_contract S tab dok oktext"
    and s: "s = NewAdminService (RedisQueue_port R J pt) S E"
    and w: "server_ok J lst ents up (redis w)" "dok (db w)" "int (card (dom (t_jobs (tab (db w))))) < 2 ^ 63"
  shows "\<exists>byStatus byType. Stats s None w = (Inr \<lparr> js_ByStatus = byStatus, js_ByType = byType,
      js_Total = int (card (dom (t_jobs (tab (db w))))),
      js_DeadLetter = int (length (dead_view J lst (redis w))),
      js_QueueDepths = [(PriorityHigh, int (length (queue_view J lst (redis w) 0))),
        (PriorityMedium, int (length (queue_view J lst (redis w) 1))),
        (PriorityLow, int (length (queue_view J lst (redis w) 2)))],
      js_GeneratedAt = time_at E (ticks w) \<rparr>, w\<lparr>ticks := Suc (ticks w)\<rparr>) \<and>
    counts_jobs (tab (db w)) job_Status byStatus \<and> counts_jobs (tab (db w)) job_JobType byType"
proof -
  have env: "redis_env R lst ents up elapse" using redis by (simp add: redis_env_def)
  note d = redis_env.depth_port [OF env w(1), of pt] redis_env.dead_depth_port [OF env w(1), of pt]
  note rep = report_contract.count_status [OF store w(2)] report_contract.count_type [OF store w(2)]
  obtain byStatus where a: "sCountByStatus S None (db w) = (Inr byStatus, db w)" "counts_jobs (tab (db w)) job_Status byStatus"
    using rep(1) by blast
  obtain byType where b: "sCountByType S None (db w) = (Inr byType, db w)" "counts_jobs (tab (db w)) job_JobType byType"
    using rep(2) by blast
  have total: "fold (\<lambda>(_, n) t. wrap64 (t + n)) byStatus 0 = int (card (dom (t_jobs (tab (db w)))))"
    using fold_wrap_sum [of byStatus 0, OF counts_nonneg [OF a(2)]] w(3)
      counts_total [OF report_contract.jobs_finite [OF store w(2)] a(2)] by simp
  have lv: "level PriorityHigh = 0" "level PriorityMedium = 1" "level PriorityLow = 2"
    by (simp_all add: level_def priority_defs)
  show ?thesis
    using total d a b by (simp add: Stats_def s NewAdminService_def world_simps lv)
qed

text \<open>
  A retried job meets the worker's guards: while the done marker of its first life is there, its
  delivery is skipped.
\<close>

lemma retried_job_skipped:
  assumes redis: "redis_laws R lst ents up elapse"
    and store: "store_contract S tab dok oktext okjson np na" and sts: "text_statuses oktext" "clock_ok E"
    and s: "s = NewAdminService (RedisQueue_port R J pt) S E"
    and p: "p = NewPool (RedisQueue_port R J pt) S (RedisCache_port R) procs workers E"
      "p_registry p (job_JobType j) = Some proc"
    and w: "server_ok J lst ents up (redis w)" "dok (db w)" "oktext i"
      "queue_view J lst (redis w) = (\<lambda>_. [])" "pending w = []"
    and j: "t_jobs (tab (db w)) i = Some j" "job_ID j = i" "job_Status j = JobStatusDeadLetter"
      "ents (redis w) (done_key j) = Some (''1'', t)"
    and job: "j' = reset_job j (time_at E (ticks w))" "wire J j'" "okjob oktext okjson j'"
      "same_row (stored_job np na j') j"
  shows "\<exists>w1 w2. RetryJob s None i w = (Inr j', w1) \<and> delivery p w1 = w2 \<and>
    t_jobs (tab (db w2)) i = Some (stored_job np na j') \<and> job_Status j' = JobStatusQueued \<and>
    queue_view J lst (redis w2) = (\<lambda>_. []) \<and> pending w2 = []"
proof -
  let ?Q = "RedisQueue_port R J pt"
  have rt: "as_rt s = E" by (simp add: s NewAdminService_def)
  from administration_env.redis_retry_requeues [OF administration_envI [OF redis store], of J w i j j' pt E,
      folded s, OF w(1-3) j(1,2) _ _ job(2-4)] j(3) job(1) rt
  obtain w1 where w1: "RetryJob s None i w = (Inr j', w1)" "server_ok J lst ents up (redis w1)"
    "tab (db w1) = (tab (db w))\<lparr>t_jobs := (t_jobs (tab (db w)))(i \<mapsto> stored_job np na j')\<rparr>"
    "queue_view J lst (redis w1) = (queue_view J lst (redis w))(level (job_Priority j) :=
       queue_view J lst (redis w) (level (job_Priority j)) @ [j'])"
    "ents (redis w1) = ents (redis w)"
    by auto
  have pend: "pending w1 = []"
    using w1(1) w(5)
    by (auto simp: RetryJob_def world_simps split: sum.splits option.splits if_splits)
  define w0 where "w0 = w1\<lparr>redis := snd (qPop ?Q None (redis w1))\<rparr>"
  have env: "redis_env R lst ents up elapse" using redis by (simp add: redis_env_def)
  note pop = redis_env.pop_port [OF env w1(2), of pt]
  have v: "queue_view J lst (redis w1) = (\<lambda>_. [])(level (job_Priority j) := [j'])"
    using w1(4) w(4) by simp
  have nl: "next_level (queue_view J lst (redis w1)) = Some (level (job_Priority j))"
    unfolding v by (simp add: next_level_def level_def)
  have w0: "server_ok J lst ents up (redis w0)" "ents (redis w0) = ents (redis w)"
    "queue_view J lst (redis w0) = (\<lambda>_. [])" "fst (qPop ?Q None (redis w1)) = Inr (Some j')"
    "db w0 = db w1" "pending w0 = []"
    using pop w1(5) pend unfolding w0_def nl by (simp_all add: v fun_upd_idem)
  have j': "done_key j' = done_key j" "job_JobType j' = job_JobType j"
    by (simp_all add: job(1) reset_job_def done_key_def)
  from pool_env.redis_skips_done [where J = J and pt = pt and procs = procs and workers = workers and E = E,
      OF pool_envI [OF redis store sts], folded p(1), OF w0(1) p(2) [folded j'(2)], of "''1''" t] w0(2) j(4) j'(1)
  have sk: "skipped_delivery ents (queue_view J lst) (dead_view J lst) w0 (process p None j' w0)"
    by simp
  have pq: "p_queue p = ?Q" by (simp add: p(1) NewPool_def)
  have "delivery p w1 = process p None j' w0"
    using w0(4,6) sk
    by (simp add: delivery_def world_simps pq w0_def [symmetric] skipped_delivery_def)
  with w1(1,3) sk w0(3,5,6) show ?thesis
    by (simp add: skipped_delivery_def job(1) reset_job_def)
qed

end
