(* ===== verification/Processors.thy ===== *)
theory Processors
  imports Redis_Adapters
begin

text \<open>
  The four job processors of \<open>internal/worker\<close>. Each decodes its payload, refuses what can never
  succeed with an error that wraps \<open>ErrNonRetryable\<close>, and otherwise writes its rows; errors of a
  port are passed on and stay retryable. Failures to write the audit log or to enqueue the welcome
  notification are only logged. They are verified against the cache and event-table contracts in
  the locale \<open>processor_env\<close>.
\<close>

section \<open>Shared helpers\<close>

definition defaultStr :: "string \<Rightarrow> string \<Rightarrow> string" where
  "defaultStr v def = (if v = '''' then def else v)"

text \<open>\<open>fmt.Errorf("%w: ...", domain.ErrNonRetryable, ...)\<close>.\<close>

definition nonRetryable :: "string \<Rightarrow> goerr" where
  "nonRetryable post = Wrap '''' (Sentinel ErrNonRetryable) post"

lemma nonRetryable_Is [simp]: "errors_Is (nonRetryable s) ErrNonRetryable"
  by (simp add: nonRetryable_def)

section \<open>Registrations (registration_processor.go)\<close>

record ('r, 'd) RegistrationProcessor =
  rgp_regs :: "'d Store_port"
  rgp_audit :: "'d Store_port"
  rgp_enqueuer :: "('r, 'd) enqueuer"

definition NewRegistrationProcessor ::
  "'d Store_port \<Rightarrow> 'd Store_port \<Rightarrow> ('r, 'd) enqueuer \<Rightarrow> ('r, 'd) RegistrationProcessor" where
  "NewRegistrationProcessor regs audit enq =
     \<lparr> rgp_regs = regs, rgp_audit = audit, rgp_enqueuer = enq \<rparr>"

definition RegistrationProcessor_Type :: JobType where
  "RegistrationProcessor_Type = JobTypeRegistration"

definition welcome_payload :: "Registration \<Rightarrow> NotificationPayload" where
  "welcome_payload reg =
     \<lparr> np_Channel = ChannelEmail, np_Recipient = reg_Email reg, np_Template = ''registration_welcome'',
       np_Subject = ''Your registration is confirmed'',
       np_Body = ''Hi '' @ reg_AttendeeName reg @ '', you are confirmed for event '' @ reg_EventID reg @ ''.'',
       np_EventID = reg_EventID reg \<rparr>"

definition enqueueWelcome ::
  "json_lib \<Rightarrow> ('r, 'd) RegistrationProcessor \<Rightarrow> ctx \<Rightarrow> Job \<Rightarrow> Registration \<Rightarrow>
    ('r, 'd) world \<Rightarrow> ('r, 'd) world" where
  "enqueueWelcome J p c job reg w =
     (case json_Marshal_Notification J (welcome_payload reg) of
        Inl _ \<Rightarrow> w
      | Inr b \<Rightarrow> snd (rgp_enqueuer p c
          \<lparr> er_JobType = JobTypeNotification, er_Payload = b,
            er_IdempotencyKey = ''notif:registration:'' @ reg_ID reg, er_TraceID = job_TraceID job \<rparr> w))"

definition writeAudit ::
  "('r, 'd) RegistrationProcessor \<Rightarrow> ctx \<Rightarrow> string \<Rightarrow> string \<Rightarrow> string \<Rightarrow> string \<Rightarrow> string \<Rightarrow> time \<Rightarrow>
    ('r, 'd) world \<Rightarrow> ('r, 'd) world" where
  "writeAudit p c entity i action detail traceID ts w =
     snd (on_db (sCreateAuditLog (rgp_audit p) c
       \<lparr> al_EntityType = entity, al_EntityID = i, al_Action = action, al_Detail = detail,
         al_TraceID = traceID, al_CreatedAt = ts \<rparr>) w)"

definition new_registration :: "Job \<Rightarrow> RegistrationPayload \<Rightarrow> string \<Rightarrow> time \<Rightarrow> Registration" where
  "new_registration job inp i now =
     \<lparr> reg_ID = i, reg_JobID = job_ID job, reg_EventID = rp_EventID inp,
       reg_AttendeeName = rp_AttendeeName inp, reg_Email = rp_Email inp, reg_Phone = rp_Phone inp,
       reg_TicketType = defaultStr (rp_TicketType inp) ''GENERAL'', reg_Status = ''CONFIRMED'',
       reg_CreatedAt = now \<rparr>"

definition RegistrationProcessor_Process ::
  "json_lib \<Rightarrow> runtime \<Rightarrow> ('r, 'd) RegistrationProcessor \<Rightarrow> ('r, 'd) processor" where
  "RegistrationProcessor_Process J E p c job w =
     (case json_Unmarshal_Registration J (job_Payload job) of
        Inl e \<Rightarrow> (Some (nonRetryable ('': decode registration payload: '' @ Error e)), w)
      | Inr inp \<Rightarrow>
          if rp_EventID inp = '''' \<or> rp_AttendeeName inp = '''' \<or> rp_Email inp = ''''
          then (Some (nonRetryable '': event_id, attendee_name and email are required''), w)
          else
            (let (now, w1) = time_Now E w;
                 (i, w2) = uuid_NewString E w1;
                 reg = new_registration job inp i now;
                 (err, w3) = on_db (sCreateRegistration (rgp_regs p) c reg) w2
             in case err of
                  Some e \<Rightarrow> (Some (Wrap ''store registration: '' e ''''), w3)
                | None \<Rightarrow>
                    (let w4 = enqueueWelcome J p c job reg w3;
                         w5 = writeAudit p c ''registration'' (reg_ID reg) ''CREATED'' (job_Payload job)
                                (job_TraceID job) now w4
                     in (None, w5))))"

section \<open>Payments (payment_processor.go)\<close>

record 'd PaymentProcessor =
  pmp_payments :: "'d Store_port"
  pmp_audit :: "'d Store_port"

definition NewPaymentProcessor :: "'d Store_port \<Rightarrow> 'd Store_port \<Rightarrow> 'd PaymentProcessor" where
  "NewPaymentProcessor payments audit = \<lparr> pmp_payments = payments, pmp_audit = audit \<rparr>"

definition PaymentProcessor_Type :: JobType where
  "PaymentProcessor_Type = JobTypePaymentWebhook"

definition validPaymentStatuses :: "string list" where
  "validPaymentStatuses = [''AUTHORIZED'', ''CAPTURED'', ''FAILED'', ''REFUNDED'', ''PENDING'']"

definition new_payment :: "Job \<Rightarrow> PaymentWebhookPayload \<Rightarrow> string \<Rightarrow> time \<Rightarrow> PaymentEvent" where
  "new_payment job inp i now =
     \<lparr> pe_ID = i, pe_JobID = job_ID job, pe_GatewayOrderID = pw_GatewayOrderID inp,
       pe_PaymentID = pw_PaymentID inp, pe_Status = pw_PaymentStatus inp,
       pe_AmountCents = pw_AmountCents inp, pe_Currency = defaultStr (pw_Currency inp) ''INR'',
       pe_ProcessedAt = Some now, pe_CreatedAt = now \<rparr>"

definition PaymentProcessor_Process ::
  "json_lib \<Rightarrow> runtime \<Rightarrow> 'd PaymentProcessor \<Rightarrow> ('r, 'd) processor" where
  "PaymentProcessor_Process J E p c job w =
     (case json_Unmarshal_Payment J (job_Payload job) of
        Inl e \<Rightarrow> (Some (nonRetryable ('': decode payment payload: '' @ Error e)), w)
      | Inr inp \<Rightarrow>
          if pw_GatewayOrderID inp = '''' then (Some (nonRetryable '': gateway_order_id is required''), w)
          else if pw_PaymentStatus inp \<notin> set validPaymentStatuses
          then (Some (nonRetryable ('': unknown payment_status '' @ strconv_Quote (pw_PaymentStatus inp))), w)
          else
            (let (now, w1) = time_Now E w;
                 (i, w2) = uuid_NewString E w1;
                 event = new_payment job inp i now;
                 (err, w3) = on_db (sUpsertPaymentEvent (pmp_payments p) c event) w2
             in case err of
                  Some e \<Rightarrow> (Some (Wrap ''upsert payment event: '' e ''''), w3)
                | None \<Rightarrow>
                    (None, snd (on_db (sCreateAuditLog (pmp_audit p) c
                       \<lparr> al_EntityType = ''payment'', al_EntityID = pw_GatewayOrderID inp,
                         al_Action = ''WEBHOOK_'' @ pw_PaymentStatus inp, al_Detail = job_Payload job,
                         al_TraceID = job_TraceID job, al_CreatedAt = now \<rparr>) w3))))"

section \<open>QR scans (qrscan_processor.go)\<close>

record ('r, 'd) QRScanProcessor =
  qrp_scans :: "'d Store_port"
  qrp_audit :: "'d Store_port"
  qrp_cache :: "'r Cache_port"
  qrp_dedupTTL :: duration

definition NewQRScanProcessor ::
  "'d Store_port \<Rightarrow> 'd Store_port \<Rightarrow> 'r Cache_port \<Rightarrow> duration \<Rightarrow> ('r, 'd) QRScanProcessor" where
  "NewQRScanProcessor scans audit cache dedupTTL =
     \<lparr> qrp_scans = scans, qrp_audit = audit, qrp_cache = cache,
       qrp_dedupTTL = (if dedupTTL \<le> 0 then 10 * second else dedupTTL) \<rparr>"

definition QRScanProcessor_Type :: JobType where
  "QRScanProcessor_Type = JobTypeQRScan"

definition dedupKey :: "QRScanPayload \<Rightarrow> string" where
  "dedupKey inp = ''qr:seen:'' @ qp_EventID inp @ '':'' @ qp_QRCode inp"

definition attendance_key :: "string \<Rightarrow> string" where
  "attendance_key ev = ''attendance:'' @ ev"

definition new_scan :: "Job \<Rightarrow> QRScanPayload \<Rightarrow> string \<Rightarrow> time \<Rightarrow> QRScanEvent" where
  "new_scan job inp i now =
     \<lparr> qs_ID = i, qs_JobID = job_ID job, qs_QRCode = qp_QRCode inp, qs_EventID = qp_EventID inp,
       qs_GateID = qp_GateID inp, qs_ScannedBy = qp_ScannedBy inp, qs_CreatedAt = now \<rparr>"

definition QRScanProcessor_Process ::
  "json_lib \<Rightarrow> runtime \<Rightarrow> ('r, 'd) QRScanProcessor \<Rightarrow> ('r, 'd) processor" where
  "QRScanProcessor_Process J E p c job w =
     (case json_Unmarshal_QRScan J (job_Payload job) of
        Inl e \<Rightarrow> (Some (nonRetryable ('': decode qr payload: '' @ Error e)), w)
      | Inr inp \<Rightarrow>
          if qp_QRCode inp = '''' then (Some (nonRetryable '': qr_code is required''), w)
          else
            (let (claim, w1) = on_redis (cSetNX (qrp_cache p) c (dedupKey inp) ''1'' (qrp_dedupTTL p)) w
             in case claim of
                  Inl e \<Rightarrow> (Some (Wrap ''qr dedup check: '' e ''''), w1)
                | Inr fresh \<Rightarrow>
                    if \<not> fresh then (None, w1)
                    else
                      (let (now, w2) = time_Now E w1;
                           (i, w3) = uuid_NewString E w2;
                           event = new_scan job inp i now;
                           (err, w4) = on_db (sCreateQRScanEvent (qrp_scans p) c event) w3
                       in case err of
                            Some e \<Rightarrow> (Some (Wrap ''store qr scan: '' e ''''), w4)
                          | None \<Rightarrow>
                              (let w5 = (if qp_EventID inp \<noteq> ''''
                                         then snd (on_redis (cIncr (qrp_cache p) c
                                                (attendance_key (qp_EventID inp))) w4)
                                         else w4)
                               in (None, snd (on_db (sCreateAuditLog (qrp_audit p) c
                                    \<lparr> al_EntityType = ''qr_scan'', al_EntityID = qs_ID event,
                                      al_Action = ''SCANNED'', al_Detail = job_Payload job,
                                      al_TraceID = job_TraceID job, al_CreatedAt = now \<rparr>) w5))))))"

section \<open>Notifications (notification_processor.go)\<close>

text \<open>
  The delivery provider behind \<open>Sender\<close> is outside the program; a sender is a function of the
  message and of the state it is called in.
\<close>

type_synonym ('r, 'd) Sender =
  "ctx \<Rightarrow> NotificationChannel \<Rightarrow> string \<Rightarrow> string \<Rightarrow> string \<Rightarrow> ('r, 'd) world \<Rightarrow>
    goerr option \<times> ('r, 'd) world"

definition SimulatedSender_Send :: "('r, 'd) Sender" where
  "SimulatedSender_Send c channel recipient subject body w = (None, w)"

record ('r, 'd) NotificationProcessor =
  ntp_notes :: "'d Store_port"
  ntp_audit :: "'d Store_port"
  ntp_sender :: "('r, 'd) Sender"

definition NewNotificationProcessor ::
  "'d Store_port \<Rightarrow> 'd Store_port \<Rightarrow> ('r, 'd) Sender option \<Rightarrow> ('r, 'd) NotificationProcessor" where
  "NewNotificationProcessor notes audit sender =
     \<lparr> ntp_notes = notes, ntp_audit = audit,
       ntp_sender = (case sender of None \<Rightarrow> SimulatedSender_Send | Some s \<Rightarrow> s) \<rparr>"

definition NotificationProcessor_Type :: JobType where
  "NotificationProcessor_Type = JobTypeNotification"

definition sentAtPtr :: "time \<Rightarrow> bool \<Rightarrow> time option" where
  "sentAtPtr t sent = (if sent then Some t else None)"

definition new_notification ::
  "Job \<Rightarrow> NotificationPayload \<Rightarrow> string \<Rightarrow> goerr option \<Rightarrow> time \<Rightarrow> NotificationEvent" where
  "new_notification job inp i sendErr now =
     \<lparr> ne_ID = i, ne_JobID = job_ID job, ne_Channel = np_Channel inp, ne_Recipient = np_Recipient inp,
       ne_Template = np_Template inp, ne_Status = (if sendErr \<noteq> None then ''FAILED'' else ''SENT''),
       ne_Attempts = wrap64 (job_RetryCount job + 1), ne_SentAt = sentAtPtr now (sendErr = None),
       ne_CreatedAt = now \<rparr>"

definition NotificationProcessor_Process ::
  "json_lib \<Rightarrow> runtime \<Rightarrow> ('r, 'd) NotificationProcessor \<Rightarrow> ('r, 'd) processor" where
  "NotificationProcessor_Process J E p c job w =
     (case json_Unmarshal_Notification J (job_Payload job) of
        Inl e \<Rightarrow> (Some (nonRetryable ('': decode notification payload: '' @ Error e)), w)
      | Inr inp \<Rightarrow>
          if \<not> NotificationChannel_Valid (np_Channel inp)
          then (Some (nonRetryable ('': invalid channel '' @ strconv_Quote (np_Channel inp))), w)
          else if np_Recipient inp = '''' then (Some (nonRetryable '': recipient is required''), w)
          else
            (let (now, w1) = time_Now E w;
                 (sendErr, w2) = ntp_sender p c (np_Channel inp) (np_Recipient inp) (np_Subject inp)
                                   (np_Body inp) w1;
                 (i, w3) = uuid_NewString E w2;
                 (err, w4) = on_db (sCreateNotificationEvent (ntp_notes p) c
                                     (new_notification job inp i sendErr now)) w3
             in case err of
                  Some e \<Rightarrow> (Some (Wrap ''store notification event: '' e ''''), w4)
                | None \<Rightarrow>
                    (case sendErr of
                       Some e \<Rightarrow> (Some (Wrap (''send '' @ np_Channel inp @ '' notification: '') e ''''), w4)
                     | None \<Rightarrow>
                         (None, snd (on_db (sCreateAuditLog (ntp_audit p) c
                            \<lparr> al_EntityType = ''notification'', al_EntityID = np_Recipient inp,
                              al_Action = ''SENT_'' @ np_Channel inp, al_Detail = job_Payload job,
                              al_TraceID = job_TraceID job, al_CreatedAt = now \<rparr>) w4)))))"

section \<open>Refused payloads\<close>

text \<open>
  The payloads a processor accepts; every other payload is refused before any effect.
\<close>

definition accepted_registration :: "json_lib \<Rightarrow> string \<Rightarrow> RegistrationPayload option" where
  "accepted_registration J b = (case json_Unmarshal_Registration J b of Inl _ \<Rightarrow> None
     | Inr inp \<Rightarrow> if rp_EventID inp \<noteq> '''' \<and> rp_AttendeeName inp \<noteq> '''' \<and> rp_Email inp \<noteq> ''''
                 then Some inp else None)"

definition accepted_payment :: "json_lib \<Rightarrow> string \<Rightarrow> PaymentWebhookPayload option" where
  "accepted_payment J b = (case json_Unmarshal_Payment J b of Inl _ \<Rightarrow> None
     | Inr inp \<Rightarrow> if pw_GatewayOrderID inp \<noteq> '''' \<and> pw_PaymentStatus inp \<in> set validPaymentStatuses
                 then Some inp else None)"

definition accepted_scan :: "json_lib \<Rightarrow> string \<Rightarrow> QRScanPayload option" where
  "accepted_scan J b = (case json_Unmarshal_QRScan J b of Inl _ \<Rightarrow> None
     | Inr inp \<Rightarrow> if qp_QRCode inp \<noteq> '''' then Some inp else None)"

definition accepted_notification :: "json_lib \<Rightarrow> string \<Rightarrow> NotificationPayload option" where
  "accepted_notification J b = (case json_Unmarshal_Notification J b of Inl _ \<Rightarrow> None
     | Inr inp \<Rightarrow> if NotificationChannel_Valid (np_Channel inp) \<and> np_Recipient inp \<noteq> ''''
                 then Some inp else None)"

lemmas accepted_defs =
  accepted_registration_def accepted_payment_def accepted_scan_def accepted_notification_def

text \<open>What an outcome is when the payload is refused: an error that is not retried, no effect.\<close>

definition refused :: "goerr option \<times> 'w \<Rightarrow> 'w \<Rightarrow> bool" where
  "refused r w \<longleftrightarrow> (\<exists>e. r = (Some e, w) \<and> errors_Is e ErrNonRetryable)"

lemma process_refuses:
  "accepted_registration J (job_Payload job) = None \<Longrightarrow>
     refused (RegistrationProcessor_Process J E rp c job w) w"
  "accepted_payment J (job_Payload job) = None \<Longrightarrow> refused (PaymentProcessor_Process J E pp c job w) w"
  "accepted_scan J (job_Payload job) = None \<Longrightarrow> refused (QRScanProcessor_Process J E qp c job w) w"
  "accepted_notification J (job_Payload job) = None \<Longrightarrow>
     refused (NotificationProcessor_Process J E np c job w) w"
  by (auto simp: accepted_defs refused_def RegistrationProcessor_Process_def
      PaymentProcessor_Process_def QRScanProcessor_Process_def NotificationProcessor_Process_def
      split: sum.splits if_splits)

lemma process_accepts:
  "accepted_registration J b = Some inp1 \<Longrightarrow> json_Unmarshal_Registration J b = Inr inp1 \<and>
     rp_EventID inp1 \<noteq> '''' \<and> rp_AttendeeName inp1 \<noteq> '''' \<and> rp_Email inp1 \<noteq> ''''"
  "accepted_payment J b = Some inp2 \<Longrightarrow> json_Unmarshal_Payment J b = Inr inp2 \<and>
     pw_GatewayOrderID inp2 \<noteq> '''' \<and> pw_PaymentStatus inp2 \<in> set validPaymentStatuses"
  "accepted_scan J b = Some inp3 \<Longrightarrow> json_Unmarshal_QRScan J b = Inr inp3 \<and> qp_QRCode inp3 \<noteq> ''''"
  "accepted_notification J b = Some inp4 \<Longrightarrow> json_Unmarshal_Notification J b = Inr inp4 \<and>
     NotificationChannel_Valid (np_Channel inp4) \<and> np_Recipient inp4 \<noteq> ''''"
  by (auto simp: accepted_defs split: sum.splits if_splits)

lemma new_row_IDs [simp]:
  "qs_ID (new_scan job inp1 i t) = i" "qs_EventID (new_scan job inp1 i t) = qp_EventID inp1"
  "pe_GatewayOrderID (new_payment job inp2 i t) = pw_GatewayOrderID inp2"
  "reg_ID (new_registration job inp3 i t) = i"
  "ne_ID (new_notification job inp4 i x t) = i"
  by (simp_all add: new_scan_def new_payment_def new_registration_def new_notification_def)

section \<open>The attendance counter\<close>

definition counter :: "nat \<Rightarrow> entry option" where
  "counter n = (if n = 0 then None else Some (itoa (int n), None))"

definition scans_of :: "tables \<Rightarrow> string \<Rightarrow> nat" where
  "scans_of t ev = length (filter (\<lambda>e. qs_EventID e = ev) (t_scans t))"

text \<open>The counter of every event agrees with the rows of the event.\<close>

definition attendance_ok :: "(string \<Rightarrow> entry option) \<Rightarrow> tables \<Rightarrow> bool" where
  "attendance_ok es t \<longleftrightarrow> (\<forall>ev. ev \<noteq> '''' \<longrightarrow> es (attendance_key ev) = counter (scans_of t ev))"

lemma qr_keys [simp]:
  "dedupKey inp \<noteq> attendance_key ev" "attendance_key ev \<noteq> dedupKey inp"
  "attendance_key ev = attendance_key ev' \<longleftrightarrow> ev = ev'"
  by (simp_all add: dedupKey_def attendance_key_def)

section \<open>The processors against the ports\<close>

text \<open>The values a processor writes; each column has to accept them.\<close>

definition scan_text :: "(string \<Rightarrow> bool) \<Rightarrow> (string \<Rightarrow> bool) \<Rightarrow> string \<Rightarrow> Job \<Rightarrow> QRScanPayload \<Rightarrow> bool" where
  "scan_text oktext okjson i job inp \<longleftrightarrow> okjson (job_Payload job) \<and>
     list_all oktext [i, job_ID job, job_TraceID job, qp_QRCode inp, qp_EventID inp, qp_GateID inp,
       qp_ScannedBy inp, ''qr_scan'', ''SCANNED'']"

definition payment_text ::
  "(string \<Rightarrow> bool) \<Rightarrow> (string \<Rightarrow> bool) \<Rightarrow> string \<Rightarrow> Job \<Rightarrow> PaymentWebhookPayload \<Rightarrow> bool" where
  "payment_text oktext okjson i job inp \<longleftrightarrow> okjson (job_Payload job) \<and> int64 (pw_AmountCents inp) \<and>
     list_all oktext [i, job_ID job, job_TraceID job, pw_GatewayOrderID inp, pw_PaymentID inp,
       pw_PaymentStatus inp, defaultStr (pw_Currency inp) ''INR'', ''payment'',
       ''WEBHOOK_'' @ pw_PaymentStatus inp]"

definition registration_text ::
  "(string \<Rightarrow> bool) \<Rightarrow> (string \<Rightarrow> bool) \<Rightarrow> string \<Rightarrow> Job \<Rightarrow> RegistrationPayload \<Rightarrow> bool" where
  "registration_text oktext okjson i job inp \<longleftrightarrow> okjson (job_Payload job) \<and>
     list_all oktext [i, job_ID job, job_TraceID job, rp_EventID inp, rp_AttendeeName inp, rp_Email inp,
       rp_Phone inp, defaultStr (rp_TicketType inp) ''GENERAL'', ''CONFIRMED'', ''registration'', ''CREATED'']"

definition notification_text ::
  "(string \<Rightarrow> bool) \<Rightarrow> (string \<Rightarrow> bool) \<Rightarrow> string \<Rightarrow> Job \<Rightarrow> NotificationPayload \<Rightarrow> bool" where
  "notification_text oktext okjson i job inp \<longleftrightarrow> okjson (job_Payload job) \<and> int32 (job_RetryCount job + 1) \<and>
     list_all oktext [i, job_ID job, job_TraceID job, np_Channel inp, np_Recipient inp, np_Template inp,
       ''SENT'', ''FAILED'', ''notification'', ''SENT_'' @ np_Channel inp]"

text \<open>A run of jobs through one processor, one after the other.\<close>

definition run_all :: "('r, 'd) processor \<Rightarrow> Job list \<Rightarrow> ('r, 'd) world \<Rightarrow> ('r, 'd) world" where
  "run_all pr jobs w = fold (\<lambda>job w. snd (pr None job w)) jobs w"

text \<open>
  The last accepted webhook of an order among a run of jobs, and a row that holds its data.
\<close>

definition last_payment :: "json_lib \<Rightarrow> Job list \<Rightarrow> string \<Rightarrow> PaymentWebhookPayload option" where
  "last_payment J jobs k = find (\<lambda>inp. pw_GatewayOrderID inp = k)
     (List.map_filter (\<lambda>job. accepted_payment J (job_Payload job)) (rev jobs))"

definition holds_payment :: "PaymentWebhookPayload \<Rightarrow> PaymentEvent \<Rightarrow> bool" where
  "holds_payment inp e \<longleftrightarrow> pe_GatewayOrderID e = pw_GatewayOrderID inp \<and>
     pe_PaymentID e = pw_PaymentID inp \<and> pe_Status e = pw_PaymentStatus inp \<and>
     pe_AmountCents e = pw_AmountCents inp \<and> pe_Currency e = defaultStr (pw_Currency inp) ''INR''"

lemma last_payment_simps:
  "last_payment J [] k = None"
  "last_payment J (jobs @ [job]) k = (case accepted_payment J (job_Payload job) of
     None \<Rightarrow> last_payment J jobs k
   | Some inp \<Rightarrow> if pw_GatewayOrderID inp = k then Some inp else last_payment J jobs k)"
  by (simp_all add: last_payment_def map_filter_simps split: option.split)

lemma holds_new_payment:
  "same_payment ev (new_payment job inp i t) \<Longrightarrow> holds_payment inp ev"
  by (simp add: same_payment_def new_payment_def holds_payment_def)

text \<open>No payment row has an identifier that is still to be drawn.\<close>

definition new_payment_ids :: "runtime \<Rightarrow> nat \<Rightarrow> tables \<Rightarrow> bool" where
  "new_payment_ids E n t \<longleftrightarrow> (\<forall>m \<ge> n. \<forall>k e. t_pays t k = Some e \<longrightarrow> pe_ID e \<noteq> uuid_at E m)"

lemma new_payment_ids_upd:
  assumes "inj (uuid_at E)" "new_payment_ids E n t" "n' = Suc n"
    and "pe_ID e = uuid_at E n \<or> (\<exists>e0. t_pays t k = Some e0 \<and> pe_ID e = pe_ID e0)"
  shows "new_payment_ids E n' (t\<lparr>t_pays := (t_pays t)(k \<mapsto> e), t_audits := as\<rparr>)"
proof -
  have "pe_ID e \<noteq> uuid_at E m" if "Suc n \<le> m" for m
    using assms(1,2,4) that by (auto simp: new_payment_ids_def inj_eq)
  then show ?thesis using assms(2,3) by (auto simp: new_payment_ids_def)
qed

locale processor_env =
  redis_contract C ents up ckey elapse Q qv dlq wire + event_contract S tab dok oktext okjson np na
  for C :: "'r Cache_port" and ents up ckey elapse
    and Q :: "'r Queue_port" and qv dlq wire
    and S :: "'d Store_port" and tab dok oktext okjson np na +
  fixes J :: json_lib and E :: runtime
  assumes qr_ckey: "ckey (''qr:seen:'' @ x)" and attendance_ckey: "ckey (''attendance:'' @ x)"
    and clock: "clock_ok E"
begin

lemmas stamps [simp] = clock_okD [OF clock]

lemma qr_ckeys [simp]: "ckey (dedupKey inp)" "ckey (attendance_key ev)"
  using qr_ckey attendance_ckey by (simp_all add: dedupKey_def attendance_key_def)

lemma incr_counter:
  assumes "up r" "ckey k" "ents r k = counter n" "int n + 1 < 2 ^ 63"
  shows "ents (snd (cIncr C None k r)) = (ents r)(k := counter (Suc n))"
  using assms incr_absent [of r k] incr_present [of r k "int n" None]
  by (cases "n = 0") (simp_all add: counter_def add.commute)

text \<open>A row of the audit table is added, whatever else the table holds.\<close>

lemma audit_step:
  assumes "dok d" "okjson (al_Detail l)"
    "list_all oktext [al_EntityType l, al_EntityID l, al_Action l, al_TraceID l]" "stamp_ok (al_CreatedAt l)"
  obtains l' where "same_audit l' l" "dok (snd (sCreateAuditLog S None l d))"
    "tab (snd (sCreateAuditLog S None l d)) = (tab d)\<lparr>t_audits := t_audits (tab d) @ [l']\<rparr>"
  using audit_create [OF assms] by blast

text \<open>QR scans: the first scan within the window is recorded and counted.\<close>

lemma scan_recorded:
  assumes inp: "accepted_scan J (job_Payload job) = Some inp"
    and p: "p = NewQRScanProcessor S S C ttl" "whole_ms (qrp_dedupTTL p)"
    and w: "up (redis w)" "dok (db w)" "ents (redis w) (dedupKey inp) = None"
    and i: "i = uuid_at E (uuids w)" "i \<notin> qs_ID ` set (t_scans (tab (db w)))"
    and txts: "scan_text oktext okjson i job inp"
    and n: "ents (redis w) (attendance_key (qp_EventID inp)) = counter n" "int n + 1 < 2 ^ 63"
  shows "\<exists>w' l. QRScanProcessor_Process J E p None job w = (None, w') \<and> up (redis w') \<and> dok (db w') \<and>
    tab (db w') = (tab (db w))\<lparr>
      t_scans := t_scans (tab (db w)) @ [new_scan job inp i (na (time_at E (ticks w)))],
      t_audits := t_audits (tab (db w)) @ [l]\<rparr> \<and>
    al_EntityID l = i \<and> al_Action l = ''SCANNED'' \<and>
    ents (redis w') = (if qp_EventID inp = '''' then ents (redis w)
        else (ents (redis w))(attendance_key (qp_EventID inp) := counter (Suc n)))
      (dedupKey inp \<mapsto> (''1'', Some (qrp_dedupTTL p))) \<and>
    qv (redis w') = qv (redis w) \<and> dlq (redis w') = dlq (redis w) \<and> pending w' = pending w \<and>
    crashed w' = crashed w \<and> retryBase w' = retryBase w \<and> retryMax w' = retryMax w"
proof -
  define r1 where "r1 = snd (cSetNX C None (dedupKey inp) ''1'' (qrp_dedupTTL p) (redis w))"
  have r1: "up r1" "ents r1 = (ents (redis w))(dedupKey inp \<mapsto> (''1'', Some (qrp_dedupTTL p)))"
    "qv r1 = qv (redis w)" "dlq r1 = dlq (redis w)"
    using w p(2) by (simp_all add: r1_def redis_rules)
  let ?e = "new_scan job inp i (time_at E (ticks w))"
  define d1 where "d1 = snd (sCreateQRScanEvent S None ?e (db w))"
  have d1: "fst (sCreateQRScanEvent S None ?e (db w)) = None" "dok d1"
    "tab d1 = (tab (db w))\<lparr>t_scans := t_scans (tab (db w)) @ [new_scan job inp i (na (time_at E (ticks w)))]\<rparr>"
    using scan_create [OF w(2), of ?e] i txts by (simp_all add: d1_def new_scan_def scan_text_def)
  define l where "l = \<lparr> al_EntityType = ''qr_scan'', al_EntityID = i, al_Action = ''SCANNED'',
      al_Detail = job_Payload job, al_TraceID = job_TraceID job, al_CreatedAt = time_at E (ticks w) \<rparr>"
  obtain l' where l': "same_audit l' l" "dok (snd (sCreateAuditLog S None l d1))"
    "tab (snd (sCreateAuditLog S None l d1)) = (tab d1)\<lparr>t_audits := t_audits (tab d1) @ [l']\<rparr>"
    using audit_step [OF d1(2), of l] txts by (auto simp: l_def scan_text_def)
  have inc: "ents (snd (cIncr C None (attendance_key (qp_EventID inp)) r1)) =
      (ents r1)(attendance_key (qp_EventID inp) := counter (Suc n))"
    using r1 n by (intro incr_counter) simp_all
  have p': "qrp_scans p = S" "qrp_audit p = S" "qrp_cache p = C"
    by (simp_all add: p(1) NewQRScanProcessor_def)
  have step: "fst (cSetNX C None (dedupKey inp) ''1'' (qrp_dedupTTL p) (redis w)) = Inr True"
    using w p(2) by (simp add: redis_rules)
  have "\<exists>w'. QRScanProcessor_Process J E p None job w = (None, w') \<and>
      redis w' = (if qp_EventID inp = '''' then r1
                  else snd (cIncr C None (attendance_key (qp_EventID inp)) r1)) \<and>
      db w' = snd (sCreateAuditLog S None l d1) \<and> pending w' = pending w \<and> crashed w' = crashed w \<and>
      retryBase w' = retryBase w \<and> retryMax w' = retryMax w"
    using process_accepts(3) [OF inp] step d1(1)
    by (simp add: QRScanProcessor_Process_def world_simps p' r1_def [symmetric] d1_def [symmetric]
        i(1) [symmetric] l_def)
  with l' d1 r1 inc show ?thesis
    by (auto simp: same_audit_def l_def redis_rules fun_upd_twist)
qed

text \<open>A scan whose key is still there is a success without effect.\<close>

lemma scan_duplicate:
  assumes inp: "accepted_scan J (job_Payload job) = Some inp"
    and p: "p = NewQRScanProcessor S' S' C ttl" "whole_ms (qrp_dedupTTL p)"
    and w: "up (redis w)" "ents (redis w) (dedupKey inp) = Some x"
  shows "\<exists>w'. QRScanProcessor_Process J E p None job w = (None, w') \<and> up (redis w') \<and> db w' = db w \<and>
    ents (redis w') = ents (redis w) \<and> qv (redis w') = qv (redis w) \<and> dlq (redis w') = dlq (redis w)"
  using process_accepts(3) [OF inp] w p(2)
  by (simp add: QRScanProcessor_Process_def world_simps redis_rules p(1) NewQRScanProcessor_def)

text \<open>Either way the counters keep agreeing with the rows.\<close>

lemma scan_keeps_attendance:
  assumes inp: "accepted_scan J (job_Payload job) = Some inp"
    and p: "p = NewQRScanProcessor S S C ttl" "whole_ms (qrp_dedupTTL p)"
    and w: "up (redis w)" "dok (db w)"
    and i: "i = uuid_at E (uuids w)" "i \<notin> qs_ID ` set (t_scans (tab (db w)))"
    and txts: "scan_text oktext okjson i job inp"
    and att: "attendance_ok (ents (redis w)) (tab (db w))"
      "ents (redis w) (attendance_key '''') = None" "int (length (t_scans (tab (db w)))) + 1 < 2 ^ 63"
  shows "\<exists>w'. QRScanProcessor_Process J E p None job w = (None, w') \<and>
    attendance_ok (ents (redis w')) (tab (db w')) \<and>
    length (t_scans (tab (db w'))) = length (t_scans (tab (db w))) +
      (if ents (redis w) (dedupKey inp) = None then 1 else 0)"
proof (cases "ents (redis w) (dedupKey inp)")
  case None
  define n where "n = (if qp_EventID inp = '''' then 0 else scans_of (tab (db w)) (qp_EventID inp))"
  have "scans_of (tab (db w)) (qp_EventID inp) \<le> length (t_scans (tab (db w)))"
    by (simp add: scans_of_def)
  then have n: "ents (redis w) (attendance_key (qp_EventID inp)) = counter n" "int n + 1 < 2 ^ 63"
    using att by (auto simp: attendance_ok_def n_def counter_def)
  from scan_recorded [OF inp p w None i txts n] show ?thesis
    using None att(1) by (auto simp: attendance_ok_def scans_of_def n_def)
next
  case (Some x)
  from scan_duplicate [OF inp p w(1) Some] att(1) Some show ?thesis by auto
qed

text \<open>
  A scan that could not be stored is lost: the delivery fails with a retryable error, but the key
  is claimed, so a retry within the window succeeds without a row.
\<close>

lemma scan_lost:
  assumes inp: "accepted_scan J (job_Payload job) = Some inp"
    and p: "p = NewQRScanProcessor S' S' C ttl" "whole_ms (qrp_dedupTTL p)"
    and w: "up (redis w)" "ents (redis w) (dedupKey inp) = None"
    and fails: "sCreateQRScanEvent S' None (new_scan job inp (uuid_at E (uuids w)) (time_at E (ticks w))) (db w) =
      (Some e, d)"
    and job2: "job_Payload job2 = job_Payload job"
    and w1: "w1 = snd (QRScanProcessor_Process J E p None job w)"
    and w2: "up (redis w2)" "ents (redis w2) (dedupKey inp) = age t (ents (redis w1) (dedupKey inp))"
      "t < qrp_dedupTTL p"
  shows "fst (QRScanProcessor_Process J E p None job w) = Some (Wrap ''store qr scan: '' e '''') \<and>
    (\<exists>w3. QRScanProcessor_Process J E p None job2 w2 = (None, w3) \<and> db w3 = db w2)"
proof -
  define r1 where "r1 = snd (cSetNX C None (dedupKey inp) ''1'' (qrp_dedupTTL p) (redis w))"
  have r1: "fst (cSetNX C None (dedupKey inp) ''1'' (qrp_dedupTTL p) (redis w)) = Inr True"
    "ents r1 (dedupKey inp) = Some (''1'', Some (qrp_dedupTTL p))"
    using w p(2) by (simp_all add: r1_def redis_rules)
  have p': "qrp_scans p = S'" "qrp_cache p = C" by (simp_all add: p(1) NewQRScanProcessor_def)
  have first: "fst (QRScanProcessor_Process J E p None job w) = Some (Wrap ''store qr scan: '' e '''')"
    "redis w1 = r1"
    using process_accepts(3) [OF inp] r1(1) fails
    by (simp_all add: w1 QRScanProcessor_Process_def world_simps p' r1_def [symmetric])
  have seen: "ents (redis w2) (dedupKey inp) = Some (''1'', Some (qrp_dedupTTL p - t))"
    using w2(2,3) first(2) r1(2) by (simp add: age_def)
  from inp job2 have "accepted_scan J (job_Payload job2) = Some inp" by simp
  from scan_duplicate [OF this p w2(1) seen] first(1) show ?thesis by auto
qed

text \<open>Payments: the row of the order holds what the webhook says.\<close>

lemma payment_recorded:
  assumes inp: "accepted_payment J (job_Payload job) = Some inp"
    and p: "p = NewPaymentProcessor S S" and w: "dok (db w)"
    and txts: "payment_text oktext okjson (uuid_at E (uuids w)) job inp"
    and fresh: "new_payment_ids E (uuids w) (tab (db w))"
  shows "\<exists>w' ev l. PaymentProcessor_Process J E p None job w = (None, w') \<and> dok (db w') \<and>
    same_payment ev (new_payment job inp (uuid_at E (uuids w)) (time_at E (ticks w))) \<and>
    payment_id (tab (db w)) (new_payment job inp (uuid_at E (uuids w)) (time_at E (ticks w))) ev \<and>
    tab (db w') = (tab (db w))\<lparr>t_pays := (t_pays (tab (db w)))(pw_GatewayOrderID inp \<mapsto> ev),
      t_audits := t_audits (tab (db w)) @ [l]\<rparr> \<and>
    al_EntityID l = pw_GatewayOrderID inp \<and> al_Action l = ''WEBHOOK_'' @ pw_PaymentStatus inp \<and>
    redis w' = redis w \<and> uuids w' = Suc (uuids w)"
proof -
  let ?p = "new_payment job inp (uuid_at E (uuids w)) (time_at E (ticks w))"
  define d1 where "d1 = snd (sUpsertPaymentEvent S None ?p (db w))"
  have "okpay oktext ?p" "fresh_payment (tab (db w)) ?p"
    using txts fresh by (auto simp: okpay_def new_payment_def payment_text_def fresh_payment_def new_payment_ids_def)
  then obtain ev where d1: "fst (sUpsertPaymentEvent S None ?p (db w)) = None" "dok d1"
    "same_payment ev ?p" "payment_id (tab (db w)) ?p ev"
    "tab d1 = (tab (db w))\<lparr>t_pays := (t_pays (tab (db w)))(pw_GatewayOrderID inp \<mapsto> ev)\<rparr>"
    using payment_upsert [OF w, of ?p] by (auto simp: d1_def new_payment_def)
  define l where "l = \<lparr> al_EntityType = ''payment'', al_EntityID = pw_GatewayOrderID inp,
      al_Action = ''WEBHOOK_'' @ pw_PaymentStatus inp, al_Detail = job_Payload job,
      al_TraceID = job_TraceID job, al_CreatedAt = time_at E (ticks w) \<rparr>"
  obtain l' where l': "same_audit l' l" "dok (snd (sCreateAuditLog S None l d1))"
    "tab (snd (sCreateAuditLog S None l d1)) = (tab d1)\<lparr>t_audits := t_audits (tab d1) @ [l']\<rparr>"
    using audit_step [OF d1(2), of l] txts by (auto simp: l_def payment_text_def)
  have "\<exists>w'. PaymentProcessor_Process J E p None job w = (None, w') \<and>
      db w' = snd (sCreateAuditLog S None l d1) \<and> redis w' = redis w \<and> uuids w' = Suc (uuids w)"
    using process_accepts(2) [OF inp] d1(1)
    by (simp add: PaymentProcessor_Process_def world_simps p NewPaymentProcessor_def d1_def [symmetric]
        l_def)
  then obtain w' where w': "PaymentProcessor_Process J E p None job w = (None, w')"
    "db w' = snd (sCreateAuditLog S None l d1)" "redis w' = redis w" "uuids w' = Suc (uuids w)" by blast
  have "al_EntityID l' = pw_GatewayOrderID inp \<and> al_Action l' = ''WEBHOOK_'' @ pw_PaymentStatus inp"
    using l'(1) by (simp add: same_audit_def l_def)
  with d1 l'(2,3) w' show ?thesis
    by (intro exI [of _ w'] exI [of _ ev] exI [of _ l']) simp
qed

text \<open>A run of webhooks, refused ones included: per order, the last accepted one is what is stored.\<close>

lemma payments_last_wins:
  assumes p: "p = NewPaymentProcessor S S" and w: "dok (db w)"
    and txts: "\<And>job inp n. job \<in> set jobs \<Longrightarrow> accepted_payment J (job_Payload job) = Some inp \<Longrightarrow>
      payment_text oktext okjson (uuid_at E n) job inp"
    and ids: "inj (uuid_at E)" "new_payment_ids E (uuids w) (tab (db w))"
  shows "dok (db (run_all (PaymentProcessor_Process J E p) jobs w)) \<and>
    new_payment_ids E (uuids (run_all (PaymentProcessor_Process J E p) jobs w))
      (tab (db (run_all (PaymentProcessor_Process J E p) jobs w))) \<and>
    (case last_payment J jobs k of
       None \<Rightarrow> t_pays (tab (db (run_all (PaymentProcessor_Process J E p) jobs w))) k = t_pays (tab (db w)) k
     | Some inp \<Rightarrow> \<exists>e. t_pays (tab (db (run_all (PaymentProcessor_Process J E p) jobs w))) k = Some e \<and>
         holds_payment inp e)"
  using txts
proof (induction jobs rule: rev_induct)
  case Nil
  with w ids(2) show ?case by (simp add: run_all_def last_payment_simps)
next
  case (snoc job jobs)
  define w1 where "w1 = run_all (PaymentProcessor_Process J E p) jobs w"
  have IH: "dok (db w1)" "new_payment_ids E (uuids w1) (tab (db w1))" "case last_payment J jobs k of None \<Rightarrow> t_pays (tab (db w1)) k = t_pays (tab (db w)) k
      | Some inp \<Rightarrow> \<exists>e. t_pays (tab (db w1)) k = Some e \<and> holds_payment inp e"
    using snoc unfolding w1_def by simp_all
  have run: "run_all (PaymentProcessor_Process J E p) (jobs @ [job]) w =
      snd (PaymentProcessor_Process J E p None job w1)"
    by (simp add: run_all_def w1_def)
  show ?case
  proof (cases "accepted_payment J (job_Payload job)")
    case None
    with process_refuses(2) [OF None, of E p None w1] IH show ?thesis
      unfolding run by (auto simp: refused_def last_payment_simps split: option.splits)
  next
    case (Some inp)
    from payment_recorded [OF Some p IH(1) snoc.prems [OF _ Some] IH(2)]
    obtain w' ev l where w': "PaymentProcessor_Process J E p None job w1 = (None, w')" "dok (db w')"
      "same_payment ev (new_payment job inp (uuid_at E (uuids w1)) (time_at E (ticks w1)))"
      "tab (db w') = (tab (db w1))\<lparr>t_pays := (t_pays (tab (db w1)))(pw_GatewayOrderID inp \<mapsto> ev),
        t_audits := t_audits (tab (db w1)) @ [l]\<rparr>" "uuids w' = Suc (uuids w1)"
      and ev: "payment_id (tab (db w1)) (new_payment job inp (uuid_at E (uuids w1)) (time_at E (ticks w1))) ev"
      by auto
    have "new_payment_ids E (uuids w') (tab (db w'))"
      using new_payment_ids_upd [OF ids(1) IH(2), where e = ev and n' = "uuids w'"] ev w'(4,5)
      by (simp add: payment_id_def new_payment_def)
    with w' IH(3) Some holds_new_payment [OF w'(3)] show ?thesis
      unfolding run by (auto simp: last_payment_simps split: option.splits)
  qed
qed

text \<open>Notifications: the delivery result is always recorded.\<close>

lemma notification_recorded:
  assumes inp: "accepted_notification J (job_Payload job) = Some inp"
    and p: "p = NewNotificationProcessor S S sender"
    and w1: "w1 = w\<lparr>ticks := Suc (ticks w)\<rparr>"
    and send: "ntp_sender p None (np_Channel inp) (np_Recipient inp) (np_Subject inp) (np_Body inp) w1 = (res, w2)"
    and w2: "dok (db w2)" "i = uuid_at E (uuids w2)" "i \<notin> ne_ID ` set (t_notes (tab (db w2)))"
    and txts: "notification_text oktext okjson i job inp"
  shows "\<exists>w' l. NotificationProcessor_Process J E p None job w =
      (map_option (\<lambda>e. Wrap (''send '' @ np_Channel inp @ '' notification: '') e '''') res, w') \<and>
    dok (db w') \<and> redis w' = redis w2 \<and>
    tab (db w') = (tab (db w2))\<lparr>
      t_notes := t_notes (tab (db w2)) @
        [(new_notification job inp i res (time_at E (ticks w)))
           \<lparr>ne_SentAt := map_option na (sentAtPtr (time_at E (ticks w)) (res = None)),
            ne_CreatedAt := na (time_at E (ticks w))\<rparr>],
      t_audits := t_audits (tab (db w2)) @ (if res = None then [l] else [])\<rparr>"
proof -
  let ?n = "new_notification job inp i res (time_at E (ticks w))"
  define d1 where "d1 = snd (sCreateNotificationEvent S None ?n (db w2))"
  have d1: "fst (sCreateNotificationEvent S None ?n (db w2)) = None" "dok d1"
    "tab d1 = (tab (db w2))\<lparr>t_notes := t_notes (tab (db w2)) @
        [?n\<lparr>ne_SentAt := map_option na (sentAtPtr (time_at E (ticks w)) (res = None)),
            ne_CreatedAt := na (time_at E (ticks w))\<rparr>]\<rparr>"
    using note_create [OF w2(1), of ?n] w2(3) txts
    by (auto simp: d1_def new_notification_def notification_text_def sentAtPtr_def wrap64_int32)
  have p': "ntp_notes p = S" "ntp_audit p = S" by (simp_all add: p NewNotificationProcessor_def)
  show ?thesis
  proof (cases res)
    case None
    define l where "l = \<lparr> al_EntityType = ''notification'', al_EntityID = np_Recipient inp,
        al_Action = ''SENT_'' @ np_Channel inp, al_Detail = job_Payload job,
        al_TraceID = job_TraceID job, al_CreatedAt = time_at E (ticks w) \<rparr>"
    obtain l' where l': "same_audit l' l" "dok (snd (sCreateAuditLog S None l d1))"
      "tab (snd (sCreateAuditLog S None l d1)) = (tab d1)\<lparr>t_audits := t_audits (tab d1) @ [l']\<rparr>"
      using audit_step [OF d1(2), of l] txts by (auto simp: l_def notification_text_def)
    have "\<exists>w'. NotificationProcessor_Process J E p None job w = (None, w') \<and>
        db w' = snd (sCreateAuditLog S None l d1) \<and> redis w' = redis w2"
      using process_accepts(4) [OF inp] d1(1) send None
      by (simp add: NotificationProcessor_Process_def world_simps p' d1_def l_def
          w1 [symmetric] w2(2) [symmetric])
    then obtain w' where w': "NotificationProcessor_Process J E p None job w = (None, w')"
      "db w' = snd (sCreateAuditLog S None l d1)" "redis w' = redis w2" by blast
    with l'(2,3) d1 None show ?thesis by (intro exI [of _ w'] exI [of _ l']) simp
  next
    case (Some e)
    then have "\<exists>w'. NotificationProcessor_Process J E p None job w =
        (Some (Wrap (''send '' @ np_Channel inp @ '' notification: '') e ''''), w') \<and> db w' = d1 \<and>
        redis w' = redis w2"
      using process_accepts(4) [OF inp] d1(1) send
      by (simp add: NotificationProcessor_Process_def world_simps p' d1_def
          w1 [symmetric] w2(2) [symmetric])
    with d1 Some show ?thesis by auto
  qed
qed

text \<open>
  Registrations: once the row is stored the delivery succeeds, whatever the enqueuer and the
  audit log do.
\<close>

lemma registration_succeeds:
  assumes inp: "accepted_registration J (job_Payload job) = Some inp"
    and p: "p = NewRegistrationProcessor S S enq" and w: "dok (db w)"
    and i: "i = uuid_at E (uuids w)" "i \<notin> reg_ID ` set (t_regs (tab (db w)))"
    and txts: "registration_text oktext okjson i job inp"
  shows "\<exists>w1. RegistrationProcessor_Process J E p None job w = (None,
      writeAudit p None ''registration'' i ''CREATED'' (job_Payload job) (job_TraceID job)
        (time_at E (ticks w))
        (enqueueWelcome J p None job (new_registration job inp i (time_at E (ticks w))) w1)) \<and>
    redis w1 = redis w \<and> dok (db w1) \<and> uuids w1 = Suc (uuids w) \<and> ticks w1 = Suc (ticks w) \<and>
    tab (db w1) = (tab (db w))\<lparr>t_regs := t_regs (tab (db w)) @
      [new_registration job inp i (na (time_at E (ticks w)))]\<rparr>"
proof -
  let ?g = "new_registration job inp i (time_at E (ticks w))"
  define d1 where "d1 = snd (sCreateRegistration S None ?g (db w))"
  have d1: "fst (sCreateRegistration S None ?g (db w)) = None" "dok d1"
    "tab d1 = (tab (db w))\<lparr>t_regs := t_regs (tab (db w)) @
      [new_registration job inp i (na (time_at E (ticks w)))]\<rparr>"
    using reg_create [OF w, of ?g] i txts
    by (auto simp: d1_def new_registration_def registration_text_def)
  define w1 where "w1 = w\<lparr>ticks := Suc (ticks w), uuids := Suc (uuids w), db := d1\<rparr>"
  have "RegistrationProcessor_Process J E p None job w = (None,
      writeAudit p None ''registration'' i ''CREATED'' (job_Payload job) (job_TraceID job)
      (time_at E (ticks w)) (enqueueWelcome J p None job ?g w1))"
    using process_accepts(1) [OF inp] d1(1) i(1)
    by (simp add: RegistrationProcessor_Process_def world_simps w1_def d1_def p
        NewRegistrationProcessor_def)
  with d1 show ?thesis by (intro exI [of _ w1]) (simp add: w1_def)
qed

end

section \<open>The processors on Redis\<close>

locale processing_env =
  redis_env R lst ents up elapse J pt + event_contract S tab dok oktext okjson np na
  for R :: "'r redis_client" and lst ents up elapse J pt
    and S :: "'d Store_port" and tab dok oktext okjson np na +
  fixes E :: runtime
  assumes clocked: "clock_ok E"

sublocale processing_env \<subseteq> pr: processor_env "RedisCache_port R" ents "server_ok J lst ents up" cache_key
  elapse "RedisQueue_port R J pt" "queue_view J lst" "dead_view J lst" "wire J"
  S tab dok oktext okjson np na J E
  using clocked by unfold_locales (simp_all add: cache_key_def list_keys_def listkey_defs)

context processing_env
begin

lemmas redis_scan_recorded = pr.scan_recorded
lemmas redis_scan_duplicate = pr.scan_duplicate
lemmas redis_scan_keeps_attendance = pr.scan_keeps_attendance
lemmas redis_scan_lost = pr.scan_lost
lemmas redis_payment_recorded = pr.payment_recorded
lemmas redis_payments_last_wins = pr.payments_last_wins
lemmas redis_notification_recorded = pr.notification_recorded
lemmas redis_registration_succeeds = pr.registration_succeeds
lemmas redis_audit_step = pr.audit_step

end

lemma processing_envI:
  assumes "redis_laws R lst ents up elapse" "event_contract S tab dok oktext okjson np na"
    "clock_ok E"
  shows "processing_env R lst ents up elapse S tab dok oktext okjson np na E"
  using assms by (simp add: processing_env_def processing_env_axioms_def redis_env_def)

end
