(* ===== verification/Handlers.thy ===== *)
theory Handlers
  imports Middleware Gateway_Service Admin_Service Processors "HOL-Library.List_Lexorder" "HOL-Library.Char_ord"
begin

text \<open>
  The handlers of \<open>internal/api/handlers\<close>: the public gateway, the admin API and the probes. Each
  takes the request, the response writer and the state of the server, and never panics by itself.
\<close>

section \<open>The gateway (gateway_handler.go)\<close>

record ('r, 'd) GatewayHandler =
  gh_enqueuer :: "('r, 'd) enqueuer"
  gh_hmacSecret :: string

definition NewGatewayHandler :: "('r, 'd) enqueuer \<Rightarrow> string \<Rightarrow> ('r, 'd) GatewayHandler" where
  "NewGatewayHandler enqueuer hmacSecret = \<lparr> gh_enqueuer = enqueuer, gh_hmacSecret = hmacSecret \<rparr>"

definition AcceptResponse :: "string \<Rightarrow> string \<Rightarrow> string \<Rightarrow> bool \<Rightarrow> string \<Rightarrow> jtree" where
  "AcceptResponse jobID status jobType duplicate traceID = JObj ([(''job_id'', JStr jobID),
     (''status'', JStr status), (''job_type'', JStr jobType), (''duplicate'', JBool duplicate)] @
     omitempty ''trace_id'' traceID)"

subsection \<open>Validation\<close>

definition required :: "string \<Rightarrow> string \<Rightarrow> goerr option" where
  "required field v = (if v = '''' then Some (NewValidationError field ''is required'') else None)"

definition errInvalidJSON :: goerr where
  "errInvalidJSON = Wrap '''' (Sentinel ErrInvalidPayload) '': body is not valid JSON''"

fun firstNonNil :: "goerr option list \<Rightarrow> goerr option" where
  "firstNonNil [] = None"
| "firstNonNil (e # es) = (if e \<noteq> None then e else firstNonNil es)"

definition validatePayload :: "json_lib \<Rightarrow> JobType \<Rightarrow> string \<Rightarrow> goerr option" where
  "validatePayload J jobType body =
     (if jobType = JobTypeRegistration then
        (case json_Unmarshal_Registration J body of
           Inl _ \<Rightarrow> Some errInvalidJSON
         | Inr p \<Rightarrow> firstNonNil [required ''event_id'' (rp_EventID p),
             required ''attendee_name'' (rp_AttendeeName p), required ''email'' (rp_Email p)])
      else if jobType = JobTypePaymentWebhook then
        (case json_Unmarshal_Payment J body of
           Inl _ \<Rightarrow> Some errInvalidJSON
         | Inr p \<Rightarrow> firstNonNil [required ''gateway_order_id'' (pw_GatewayOrderID p),
             required ''payment_status'' (pw_PaymentStatus p)])
      else if jobType = JobTypeQRScan then
        (case json_Unmarshal_QRScan J body of
           Inl _ \<Rightarrow> Some errInvalidJSON | Inr p \<Rightarrow> required ''qr_code'' (qp_QRCode p))
      else if jobType = JobTypeNotification then
        (case json_Unmarshal_Notification J body of
           Inl _ \<Rightarrow> Some errInvalidJSON
         | Inr p \<Rightarrow> if \<not> NotificationChannel_Valid (np_Channel p)
                    then Some (NewValidationError ''channel'' ''must be one of EMAIL, SMS, PUSH'')
                    else required ''recipient'' (np_Recipient p))
      else Some (Sentinel ErrUnknownJobType))"

subsection \<open>The shared pipeline\<close>

text \<open>The body, or the response that says why there is none.\<close>

definition readBody :: "Request \<Rightarrow> ResponseWriter \<Rightarrow> ResponseWriter + string" where
  "readBody r w =
     (case io_ReadAll (rq_Body r) of
        Inl (MaxBytesError _) \<Rightarrow> Inl (WriteError r 413 ''payload_too_large'' ''request body exceeds limit'' w)
      | Inl (ReadError _) \<Rightarrow> Inl (WriteError r 400 ''bad_request'' ''could not read request body'' w)
      | Inr body \<Rightarrow>
          if body = '''' then Inl (WriteError r 400 ''invalid_payload'' ''empty request body'' w) else Inr body)"

definition mapError :: "Request \<Rightarrow> goerr \<Rightarrow> ResponseWriter \<Rightarrow> ResponseWriter" where
  "mapError r err w =
     (if errors_Is err ErrUnknownJobType then WriteError r 400 ''unknown_job_type'' (Error err) w
      else if errors_Is err ErrInvalidPayload then WriteError r 400 ''invalid_payload'' (Error err) w
      else if errors_Is err ErrQueueFull
      then WriteError r 503 ''service_unavailable'' ''queue saturated, retry later'' (set_header ''Retry-After'' ''2'' w)
      else WriteError r 500 ''internal_error'' ''could not accept request'' w)"

definition signature_header :: "Request \<Rightarrow> string" where
  "signature_header r =
     (let sig = Header_Get (rq_Header r) ''X-Signature''
      in if sig = '''' then Header_Get (rq_Header r) ''X-Razorpay-Signature'' else sig)"

definition enqueue_request :: "JobType \<Rightarrow> string \<Rightarrow> Request \<Rightarrow> EnqueueRequest" where
  "enqueue_request jobType body r =
     \<lparr> er_JobType = jobType, er_Payload = body,
       er_IdempotencyKey = Header_Get (rq_Header r) ''Idempotency-Key'',
       er_TraceID = ctx_TraceID (rq_ctx r) \<rparr>"

definition accept ::
  "json_lib \<Rightarrow> ('r, 'd) GatewayHandler \<Rightarrow> JobType \<Rightarrow> bool \<Rightarrow> ('r, 'd) handler" where
  "accept J h jobType verifyHMAC r w s =
     (case readBody r w of
        Inl w1 \<Rightarrow> answer w1 s
      | Inr body \<Rightarrow>
          if verifyHMAC \<and> \<not> VerifyHMACSHA256 (gh_hmacSecret h) body (signature_header r)
          then answer (WriteError r 401 ''invalid_signature'' ''webhook signature verification failed'' w) s
          else case validatePayload J jobType body of
            Some err \<Rightarrow> answer (WriteError r 400 ''invalid_payload'' (Error err) w) s
          | None \<Rightarrow>
              (let (res, s1) = on_world (gh_enqueuer h (rc_err (rq_ctx r)) (enqueue_request jobType body r)) s
               in case res of
                    Inl err \<Rightarrow> answer (mapError r err w) s1
                  | Inr res \<Rightarrow>
                      answer (WriteJSON (if res_Duplicate res then 200 else 202)
                        (AcceptResponse (job_ID (res_Job res)) (job_Status (res_Job res)) jobType
                          (res_Duplicate res) (ctx_TraceID (rq_ctx r))) w) s1))"

definition Registrations :: "json_lib \<Rightarrow> ('r, 'd) GatewayHandler \<Rightarrow> ('r, 'd) handler" where
  "Registrations J h = accept J h JobTypeRegistration False"

definition PaymentWebhooks :: "json_lib \<Rightarrow> ('r, 'd) GatewayHandler \<Rightarrow> ('r, 'd) handler" where
  "PaymentWebhooks J h = accept J h JobTypePaymentWebhook True"

definition QRScans :: "json_lib \<Rightarrow> ('r, 'd) GatewayHandler \<Rightarrow> ('r, 'd) handler" where
  "QRScans J h = accept J h JobTypeQRScan False"

definition Notifications :: "json_lib \<Rightarrow> ('r, 'd) GatewayHandler \<Rightarrow> ('r, 'd) handler" where
  "Notifications J h = accept J h JobTypeNotification False"

section \<open>Administration (admin_handler.go)\<close>

definition atoiDefault :: "string \<Rightarrow> int \<Rightarrow> int" where
  "atoiDefault s def = (if s = '''' then def else case strconv_Atoi s of Some n \<Rightarrow> n | None \<Rightarrow> def)"

text \<open>
  Responses. A list of jobs is the list of the database's store, which is never nil; the keys of a
  map are printed in order.
\<close>

definition listResponse :: "Job list \<Rightarrow> jtree" where
  "listResponse jobs = JObj [(''count'', JInt (int (length jobs))), (''jobs'', JArr (map job_tree jobs))]"

definition map_tree :: "(string \<times> int) list \<Rightarrow> jtree" where
  "map_tree m = JObj (map (\<lambda>(k, n). (k, JInt n)) (sort_key fst m))"

definition stats_tree :: "JobStats \<Rightarrow> jtree" where
  "stats_tree st = JObj [(''by_status'', map_tree (js_ByStatus st)), (''by_type'', map_tree (js_ByType st)),
     (''total'', JInt (js_Total st)), (''dead_letter'', JInt (js_DeadLetter st)),
     (''queue_depths'', map_tree (js_QueueDepths st)), (''generated_at'', JTime (js_GeneratedAt st))]"

definition admin_fail :: "Request \<Rightarrow> ResponseWriter \<Rightarrow> ResponseWriter" where
  "admin_fail r w = WriteError r 500 ''internal_error'' ''request failed'' w"

definition AdminHandler_ListJobs :: "('r, 'd) AdminService \<Rightarrow> ('r, 'd) handler" where
  "AdminHandler_ListJobs svc r w s =
     (let q = ParseQuery (rq_RawQuery r);
          f = \<lparr> jf_Status = Values_Get q ''status'', jf_JobType = Values_Get q ''job_type'',
                jf_Limit = atoiDefault (Values_Get q ''limit'') 50,
                jf_Offset = atoiDefault (Values_Get q ''offset'') 0 \<rparr>;
          (jobs, s1) = on_world (ListJobs svc (rc_err (rq_ctx r)) f) s
      in case jobs of
           Inl _ \<Rightarrow> answer (admin_fail r w) s1
         | Inr js \<Rightarrow> answer (WriteJSON 200 (listResponse js) w) s1)"

definition AdminHandler_GetJob :: "('r, 'd) AdminService \<Rightarrow> ('r, 'd) handler" where
  "AdminHandler_GetJob svc r w s =
     (let (job, s1) = on_world (GetJob svc (rc_err (rq_ctx r)) (rq_id r)) s
      in case job of
           Inl err \<Rightarrow> if errors_Is err ErrNotFound
                      then answer (WriteError r 404 ''not_found'' ''job not found'' w) s1
                      else answer (admin_fail r w) s1
         | Inr j \<Rightarrow> answer (WriteJSON 200 (job_tree j) w) s1)"

definition AdminHandler_Stats :: "('r, 'd) AdminService \<Rightarrow> ('r, 'd) handler" where
  "AdminHandler_Stats svc r w s =
     (let (stats, s1) = on_world (Stats svc (rc_err (rq_ctx r))) s
      in case stats of
           Inl _ \<Rightarrow> answer (admin_fail r w) s1
         | Inr st \<Rightarrow> answer (WriteJSON 200 (stats_tree st) w) s1)"

definition AdminHandler_RetryJob :: "('r, 'd) AdminService \<Rightarrow> ('r, 'd) handler" where
  "AdminHandler_RetryJob svc r w s =
     (let (job, s1) = on_world (RetryJob svc (rc_err (rq_ctx r)) (rq_id r)) s
      in case job of
           Inl err \<Rightarrow> if errors_Is err ErrNotFound
                      then answer (WriteError r 404 ''not_found'' ''job not found'' w) s1
                      else if errors_Is err ErrInvalidPayload
                      then answer (WriteError r 409 ''conflict'' (Error err) w) s1
                      else answer (admin_fail r w) s1
         | Inr j \<Rightarrow> answer (WriteJSON 200 (job_tree j) w) s1)"

definition AdminHandler_DeadLetterJobs :: "('r, 'd) AdminService \<Rightarrow> ('r, 'd) handler" where
  "AdminHandler_DeadLetterJobs svc r w s =
     (let q = ParseQuery (rq_RawQuery r);
          (jobs, s1) = on_world (AdminService_ListDeadLetter svc (rc_err (rq_ctx r))
            (atoiDefault (Values_Get q ''limit'') 50) (atoiDefault (Values_Get q ''offset'') 0)) s
      in case jobs of
           Inl _ \<Rightarrow> answer (admin_fail r w) s1
         | Inr js \<Rightarrow> answer (WriteJSON 200 (listResponse js) w) s1)"

section \<open>Probes (health_handler.go)\<close>

type_synonym ('r, 'd) pinger = "ctx \<Rightarrow> ('r, 'd) world \<Rightarrow> goerr option \<times> ('r, 'd) world"

record ('r, 'd) HealthHandler =
  hh_redis :: "('r, 'd) pinger"
  hh_db :: "('r, 'd) pinger"
  hh_started :: time
  hh_version :: string

definition NewHealthHandler ::
  "runtime \<Rightarrow> ('r, 'd) pinger \<Rightarrow> ('r, 'd) pinger \<Rightarrow> string \<Rightarrow> ('r, 'd) server \<Rightarrow>
    ('r, 'd) HealthHandler \<times> ('r, 'd) server" where
  "NewHealthHandler E rp dp version s =
     (let (now, s1) = on_world (time_Now E) s
      in (\<lparr> hh_redis = rp, hh_db = dp, hh_started = now, hh_version = version \<rparr>, s1))"

text \<open>A conversion to \<open>int64\<close> cuts the fraction off.\<close>

definition cut :: "rat \<Rightarrow> int" where "cut x = (if 0 \<le> x then \<lfloor>x\<rfloor> else \<lceil>x\<rceil>)"

definition Health :: "runtime \<Rightarrow> ('r, 'd) HealthHandler \<Rightarrow> ('r, 'd) handler" where
  "Health E h r w s =
     (let (now, s1) = on_world (time_Now E) s
      in answer (WriteJSON 200 (JObj [(''status'', JStr ''ok''),
           (''uptime_seconds'', JInt (cut (Seconds (time_Sub now (hh_started h))))),
           (''version'', JStr (hh_version h))]) w) s1)"

definition Live :: "('r, 'd) handler" where
  "Live r w s = answer (WriteJSON 200 (JObj [(''status'', JStr ''alive'')]) w) s"

text \<open>\<open>context.WithTimeout\<close>: the context at a later time.\<close>

definition timeout_ctx :: "ctx \<Rightarrow> time \<Rightarrow> duration \<Rightarrow> time \<Rightarrow> ctx" where
  "timeout_ctx c start d now =
     (case c of Some e \<Rightarrow> Some e | None \<Rightarrow> if start + d \<le> now then Some DeadlineExceeded else None)"

definition Ready :: "runtime \<Rightarrow> ('r, 'd) HealthHandler \<Rightarrow> ('r, 'd) handler" where
  "Ready E h r w s =
     (let c = rc_err (rq_ctx r);
          (start, s1) = on_world (time_Now E) s;
          (e1, s2) = on_world (hh_redis h c) s1;
          (now, s3) = on_world (time_Now E) s2;
          (e2, s4) = on_world (hh_db h (timeout_ctx c start (2 * second) now)) s3;
          up = (\<lambda>e. JStr (if e = None then ''up'' else ''down''));
          ready = (e1 = None \<and> e2 = None)
      in answer (WriteJSON (if ready then 200 else 503) (JObj
           [(''checks'', JObj [(''postgres'', up e2), (''redis'', up e1)]),
            (''status'', JStr (if ready then ''ready'' else ''not_ready''))]) w) s4)"

end
