(* ===== verification/Router.thy ===== *)
theory Router
  imports Handlers
begin

text \<open>
  The route table and the middleware stack of \<open>internal/api/router.go\<close>. The multiplexer of chi is a
  parameter: which endpoint or mounted router of a list takes a request, what \<open>RealIP\<close> makes of
  it, and the responses for requests without a route. The handler of the metrics registry and
  \<open>http.ServeFile\<close> are parameters as well.
\<close>

section \<open>Multiplexers\<close>

datatype choice = Endpoint nat | Mounted nat | NotFound | MethodNotAllowed

record ('r, 'd) chi_lib =
  chi_RealIP :: "Request \<Rightarrow> Request"
  chi_route :: "(string \<times> string) list \<Rightarrow> string list \<Rightarrow> Request \<Rightarrow> choice \<times> Request"
  chi_RoutePattern :: "Request \<Rightarrow> string"
  chi_NotFound :: "('r, 'd) handler"
  chi_MethodNotAllowed :: "('r, 'd) handler"

text \<open>
  A router with its endpoints (method, pattern, handler; the method \<open>*\<close> is any) and its mounted
  routers (prefix, handler). Its middleware is wrapped around all of it, so that it also runs for
  requests that no route takes.
\<close>

definition mux ::
  "('r, 'd) chi_lib \<Rightarrow> (string \<times> string \<times> ('r, 'd) handler) list \<Rightarrow> (string \<times> ('r, 'd) handler) list \<Rightarrow>
    ('r, 'd) handler" where
  "mux C ends mounts r w s =
     (case chi_route C (map (\<lambda>(m, p, _). (m, p)) ends) (map fst mounts) r of
        (Endpoint i, r1) \<Rightarrow> if i < length ends then snd (snd (ends ! i)) r1 w s else chi_NotFound C r1 w s
      | (Mounted i, r1) \<Rightarrow> if i < length mounts then snd (mounts ! i) r1 w s else chi_NotFound C r1 w s
      | (NotFound, r1) \<Rightarrow> chi_NotFound C r1 w s
      | (MethodNotAllowed, r1) \<Rightarrow> chi_MethodNotAllowed C r1 w s)"

section \<open>The documentation page\<close>

definition join_lines :: "string list \<Rightarrow> string" where
  "join_lines ls = concat (map (\<lambda>l. l @ [CHR 0x0A]) (butlast ls)) @ last ls"

definition swaggerHTML :: string where
  \<open>swaggerHTML = join_lines
     [''<!DOCTYPE html>'', ''<html lang="en">'', ''<head>'', ''  <meta charset="UTF-8"/>'',
      ''  <title>Ingress API Gateway '' @ [CHR 0xE2, CHR 0x80, CHR 0x94] @ '' API Docs</title>'',
      ''  <link rel="stylesheet" href="https://unpkg.com/swagger-ui-dist@5/swagger-ui.css"/>'',
      ''</head>'', ''<body>'', ''  <div id="swagger-ui"></div>'',
      ''  <script src="https://unpkg.com/swagger-ui-dist@5/swagger-ui-bundle.js" crossorigin></script>'',
      ''  <script>'', ''    window.onload = () => {'',
      ''      window.ui = SwaggerUIBundle({ url: "/openapi.yaml", dom_id: "#swagger-ui" });'',
      ''    };'', ''  </script>'', ''</body>'', ''</html>'']\<close>

definition swaggerUI :: "('r, 'd) handler" where
  "swaggerUI r w s = answer (Write swaggerHTML (set_header ''Content-Type'' ''text/html; charset=utf-8'' w)) s"

section \<open>The routes (router.go)\<close>

record ('r, 'd) RouterDeps =
  rd_JSON :: json_lib
  rd_JWTLib :: jwt_lib
  rd_rt :: runtime
  rd_MetricsHandler :: "('r, 'd) handler"
  rd_ServeFile :: "string \<Rightarrow> ('r, 'd) handler"
  rd_JWT :: JWTManager
  rd_Gateway :: "('r, 'd) GatewayHandler"
  rd_Admin :: "('r, 'd) AdminService"
  rd_Health :: "('r, 'd) HealthHandler"
  rd_GlobalLimiter :: "('r, 'd) limiter"
  rd_ClientLimiter :: "('r, 'd) limiter"
  rd_Queue :: "'r Queue_port"
  rd_MaxBodyBytes :: int
  rd_QueueMaxDepth :: int
  rd_OpenAPIPath :: string

definition gateway_routes :: "('r, 'd) chi_lib \<Rightarrow> ('r, 'd) RouterDeps \<Rightarrow> ('r, 'd) handler" where
  "gateway_routes C d =
     BodyLimit (rd_MaxBodyBytes d)
       (RateLimit (rd_ClientLimiter d) ''route'' ClientIPKey
         (Backpressure (rd_Queue d) (rd_QueueMaxDepth d)
           (mux C [(''POST'', ''/registrations'', Registrations (rd_JSON d) (rd_Gateway d)),
                   (''POST'', ''/payment-webhooks'', PaymentWebhooks (rd_JSON d) (rd_Gateway d)),
                   (''POST'', ''/qr-scans'', QRScans (rd_JSON d) (rd_Gateway d)),
                   (''POST'', ''/notifications'', Notifications (rd_JSON d) (rd_Gateway d))] [])))"

definition admin_routes :: "('r, 'd) chi_lib \<Rightarrow> ('r, 'd) RouterDeps \<Rightarrow> ('r, 'd) handler" where
  "admin_routes C d =
     JWTAuth (rd_JWTLib d) (rd_rt d) (rd_JWT d) ''admin''
       (mux C [(''GET'', ''/jobs'', AdminHandler_ListJobs (rd_Admin d)),
               (''GET'', ''/jobs/stats'', AdminHandler_Stats (rd_Admin d)),
               (''GET'', ''/jobs/{id}'', AdminHandler_GetJob (rd_Admin d)),
               (''POST'', ''/jobs/{id}/retry'', AdminHandler_RetryJob (rd_Admin d)),
               (''GET'', ''/dead-letter-jobs'', AdminHandler_DeadLetterJobs (rd_Admin d))] [])"

definition api_routes :: "('r, 'd) chi_lib \<Rightarrow> ('r, 'd) RouterDeps \<Rightarrow> ('r, 'd) handler" where
  "api_routes C d =
     RateLimit (rd_GlobalLimiter d) ''global'' GlobalKey
       (mux C [] [(''/gateway'', gateway_routes C d), (''/admin'', admin_routes C d)])"

definition top_routes :: "('r, 'd) RouterDeps \<Rightarrow> (string \<times> string \<times> ('r, 'd) handler) list" where
  "top_routes d =
     [(''GET'', ''/health'', Health (rd_rt d) (rd_Health d)), (''GET'', ''/live'', Live),
      (''GET'', ''/ready'', Ready (rd_rt d) (rd_Health d)), (''*'', ''/metrics'', rd_MetricsHandler d)] @
     (if rd_OpenAPIPath d \<noteq> ''''
      then [(''GET'', ''/openapi.yaml'', rd_ServeFile d (rd_OpenAPIPath d)), (''GET'', ''/docs'', swaggerUI)]
      else [])"

definition NewRouter :: "('r, 'd) chi_lib \<Rightarrow> ('r, 'd) RouterDeps \<Rightarrow> ('r, 'd) handler" where
  "NewRouter C d r =
     RequestID (rd_rt d)
       (Recovery
         (Logging (rd_rt d)
           (Metrics_mw (chi_RoutePattern C)
             (mux C (top_routes d) [(''/api/v1'', api_routes C d)]))))
       (chi_RealIP C r)"

section \<open>Correlation\<close>

lemma keeps_ids_mux:
  assumes "keeps_ids (chi_NotFound C)" "keeps_ids (chi_MethodNotAllowed C)"
    "\<And>m p h. (m, p, h) \<in> set ends \<Longrightarrow> keeps_ids h" "\<And>p h. (p, h) \<in> set mounts \<Longrightarrow> keeps_ids h"
  shows "keeps_ids (mux C ends mounts)"
proof (rule keeps_idsI)
  fix r s and w :: ResponseWriter
  assume w: "rw_status w = 0"
  have e: "keeps_ids (snd (snd (ends ! i)))" if "i < length ends" for i
    using assms(3) [of "fst (ends ! i)" "fst (snd (ends ! i))" "snd (snd (ends ! i))"] that by simp
  have m: "keeps_ids (snd (mounts ! i))" if "i < length mounts" for i
    using assms(4) [of "fst (mounts ! i)" "snd (mounts ! i)"] that by simp
  show "ids_kept w (fst (snd (mux C ends mounts r w s)))"
    using e m assms(1,2) w unfolding mux_def by (auto dest: keeps_idsD split: prod.split choice.split)
qed

lemma keeps_ids_accept: "keeps_ids (accept J h t b)"
  by (rule keeps_idsI)
    (auto intro!: ids_kept_intros simp: accept_def readBody_def mapError_def answer_def Let_def case_prod_beta
      split: sum.split option.split read_error.split)

lemma keeps_ids_gateway:
  "keeps_ids (Registrations J h)" "keeps_ids (PaymentWebhooks J h)" "keeps_ids (QRScans J h)"
  "keeps_ids (Notifications J h)"
  by (simp_all add: Registrations_def PaymentWebhooks_def QRScans_def Notifications_def keeps_ids_accept)

lemma keeps_ids_admin:
  "keeps_ids (AdminHandler_ListJobs svc)" "keeps_ids (AdminHandler_GetJob svc)" "keeps_ids (AdminHandler_Stats svc)"
  "keeps_ids (AdminHandler_RetryJob svc)" "keeps_ids (AdminHandler_DeadLetterJobs svc)"
  by (rule keeps_idsI;
      auto intro!: ids_kept_intros simp: AdminHandler_ListJobs_def AdminHandler_GetJob_def AdminHandler_Stats_def
        AdminHandler_RetryJob_def AdminHandler_DeadLetterJobs_def admin_fail_def answer_def Let_def case_prod_beta
      split: sum.split)+

lemma keeps_ids_probes: "keeps_ids (Health E h)" "keeps_ids Live" "keeps_ids (Ready E h)"
  by (rule keeps_idsI;
      auto intro!: ids_kept_intros simp: Health_def Live_def Ready_def answer_def Let_def case_prod_beta)+

lemma keeps_ids_swagger: "keeps_ids swaggerUI"
  by (rule keeps_idsI) (simp add: swaggerUI_def answer_def Write_def set_header_def ids_kept_def ids_other)

text \<open>The parts of the server that are not modelled leave the correlation headers in place.\<close>

definition foreign_ok :: "('r, 'd) chi_lib \<Rightarrow> ('r, 'd) RouterDeps \<Rightarrow> bool" where
  "foreign_ok C d \<longleftrightarrow> keeps_ids (chi_NotFound C) \<and> keeps_ids (chi_MethodNotAllowed C) \<and>
     keeps_ids (rd_MetricsHandler d) \<and> keeps_ids (rd_ServeFile d (rd_OpenAPIPath d))"

lemma keeps_ids_top:
  assumes "foreign_ok C d"
  shows "keeps_ids (mux C (top_routes d) [(''/api/v1'', api_routes C d)])"
proof -
  have nf: "keeps_ids (chi_NotFound C)" "keeps_ids (chi_MethodNotAllowed C)"
    and f: "keeps_ids (rd_MetricsHandler d)" "keeps_ids (rd_ServeFile d (rd_OpenAPIPath d))"
    using assms by (simp_all add: foreign_ok_def)
  have "keeps_ids (gateway_routes C d)" "keeps_ids (admin_routes C d)"
    unfolding gateway_routes_def admin_routes_def
    by (auto intro!: keeps_ids_middleware keeps_ids_mux nf intro: keeps_ids_gateway keeps_ids_admin)
  then have api: "keeps_ids (api_routes C d)"
    unfolding api_routes_def by (auto intro!: keeps_ids_middleware keeps_ids_mux nf)
  show ?thesis
    by (rule keeps_ids_mux [OF nf]) (auto simp: top_routes_def keeps_ids_probes keeps_ids_swagger f api split: if_splits)
qed

end
