(* ===== verification/Pipeline.thy ===== *)
theory Pipeline
  imports Gateway_Service Worker_Pool Processors
begin

text \<open>
  The components put together: a registration and the welcome notification it enqueues through
  the gateway service, and the whole life of a QR scan from the accepted request to the stored row
  and the SUCCESS status.
\<close>

locale pipeline_env =
  gateway_env R lst ents up elapse J pt S tab dok oktext okjson np na cfg E +
  processing_env R lst ents up elapse J pt S tab dok oktext okjson np na E
  for R :: "'r redis_client" and lst ents up elapse J pt
    and S :: "'d Store_port" and tab dok oktext okjson np na and cfg E

section \<open>Frames\<close>

text \<open>What the enqueue path never touches: the pool's own state.\<close>

definition pool_part :: "('r, 'd) world \<Rightarrow> (Job \<times> duration) list \<times> bool \<times> duration \<times> duration" where
  "pool_part w = (pending w, crashed w, retryBase w, retryMax w)"

lemma enqueue_duplicate_frame: "pool_part (snd (enqueue_duplicate s c req k rk t i w)) = pool_part w"
  by (simp add: enqueue_duplicate_def world_simps pool_part_def split: sum.split)

lemma enqueue_fresh_frame: "pool_part (snd (enqueue_fresh s c req k rk t i w)) = pool_part w"
  by (simp add: enqueue_fresh_def world_simps pool_part_def split: option.split)

lemma Enqueue_frame:
  assumes "admissible s req"
  shows "pool_part (snd (Enqueue s c req w)) = pool_part w"
  by (simp add: Enqueue_admissible [OF assms] case_prod_beta enqueue_duplicate_frame enqueue_fresh_frame
      split: sum.split) (simp add: pool_part_def on_redis_simps enq_drawn_def)

lemma toDeadLetter_uuids: "uuids (toDeadLetter p c job reason w) = uuids w"
  by (simp add: toDeadLetter_def world_simps)

lemma claimed_uuids: "uuids (snd (claimed p job w)) = uuids w"
  by (simp add: claimed_def process_mark_def process_guard_def world_simps toDeadLetter_uuids
      split: option.split)

lemma enq_cong:
  assumes "uuids w' = uuids w" "ticks w' = ticks w"
  shows "enq_id s req w' = enq_id s req w" "enq_job s req w' = enq_job s req w"
  using assms by (simp_all add: enq_id_def enq_trace_def enq_job_def)

section \<open>Registrations fan out\<close>

definition welcome_request :: "string \<Rightarrow> string \<Rightarrow> string \<Rightarrow> EnqueueRequest" where
  "welcome_request b i traceID =
     \<lparr> er_JobType = JobTypeNotification, er_Payload = b,
       er_IdempotencyKey = ''notif:registration:'' @ i, er_TraceID = traceID \<rparr>"

context pipeline_env
begin

abbreviation "svc_on \<equiv> gateway R J pt S cfg E"

lemma registration_fans_out:
  assumes inp: "accepted_registration J (job_Payload job) = Some inp"
    and p: "p = NewRegistrationProcessor S S (Enqueue svc_on)"
    and w: "server_ok J lst ents up (redis w)" "dok (db w)"
    and i: "i = uuid_at E (uuids w)" "i \<notin> reg_ID ` set (t_regs (tab (db w)))"
    and txts: "registration_text oktext okjson i job inp"
    and b: "json_Marshal_Notification J
        (welcome_payload (new_registration job inp i (time_at E (ticks w)))) = Inr b"
      "b \<noteq> []" "json_Valid J b"
    and req: "req = welcome_request b i (job_TraceID job)"
    and free: "ents (redis w) (enq_redisKey svc_on req) = None"
    and msg: "msg = enq_job svc_on req (w\<lparr>uuids := Suc (uuids w), ticks := Suc (ticks w)\<rparr>)"
      "wire J msg" "okjob oktext okjson msg" "t_jobs (tab (db w)) (job_ID msg) = None"
  shows "\<exists>w' l. RegistrationProcessor_Process J E p None job w = (None, w') \<and>
    tab (db w') = (tab (db w))\<lparr>
      t_regs := t_regs (tab (db w)) @ [new_registration job inp i (na (time_at E (ticks w)))],
      t_jobs := (t_jobs (tab (db w)))(job_ID msg \<mapsto> stored_job np na msg),
      t_audits := t_audits (tab (db w)) @ [l]\<rparr> \<and>
    queue_view J lst (redis w') = (queue_view J lst (redis w))(2 := queue_view J lst (redis w) 2 @ [msg]) \<and>
    dead_view J lst (redis w') = dead_view J lst (redis w) \<and>
    job_JobType msg = JobTypeNotification \<and> job_Payload msg = b \<and> job_Status msg = JobStatusQueued"
proof -
  let ?reg = "new_registration job inp i (time_at E (ticks w))"
  from redis_registration_succeeds [OF inp p w(2) i txts]
  obtain w1 where w1: "RegistrationProcessor_Process J E p None job w = (None,
      writeAudit p None ''registration'' i ''CREATED'' (job_Payload job) (job_TraceID job)
        (time_at E (ticks w)) (enqueueWelcome J p None job ?reg w1))"
    "redis w1 = redis w" "dok (db w1)" "uuids w1 = Suc (uuids w)" "ticks w1 = Suc (ticks w)"
    "tab (db w1) = (tab (db w))\<lparr>t_regs := t_regs (tab (db w)) @
      [new_registration job inp i (na (time_at E (ticks w)))]\<rparr>"
    by blast
  have e: "enq_job svc_on req w1 = msg" "enq_id svc_on req w1 = job_ID msg"
    using msg(1) enq_cong [of w1 "w\<lparr>uuids := Suc (uuids w), ticks := Suc (ticks w)\<rparr>" svc_on req] w1(4,5)
    by simp_all
  have adm: "admissible svc_on req"
    using b(2,3) by (simp add: admissible_def req welcome_request_def JobType_Valid_def)
  have pre: "server_ok J lst ents up (redis w1)" "ents (redis w1) (enq_redisKey svc_on req) = None"
    "wire J (enq_job svc_on req w1)" "okjob oktext okjson (enq_job svc_on req w1)"
    "t_jobs (tab (db w1)) (enq_id svc_on req w1) = None"
    using w(1) w1(2,6) free msg(2-4) e by simp_all
  have lv: "level (job_Priority msg) = 2"
    by (simp add: msg(1) req welcome_request_def PriorityForType_def level_def jobtype_defs)
  from redis_fresh [OF adm pre(1) w1(3) pre(2-5)]
  obtain w2 where w2: "Enqueue svc_on None req w1 =
      (Inr \<lparr> res_Job = msg, res_Duplicate = False \<rparr>, w2)" "dok (db w2)"
    "queue_view J lst (redis w2) = (queue_view J lst (redis w))(2 := queue_view J lst (redis w) 2 @ [msg])"
    "dead_view J lst (redis w2) = dead_view J lst (redis w)"
    "tab (db w2) = (tab (db w1))\<lparr>t_jobs := (t_jobs (tab (db w1)))(job_ID msg \<mapsto> stored_job np na msg)\<rparr>"
    unfolding e lv w1(2) by blast
  have wel: "enqueueWelcome J p None job ?reg w1 = w2"
    using b(1) w2(1) by (simp add: enqueueWelcome_def p NewRegistrationProcessor_def req welcome_request_def)
  define l where "l = \<lparr> al_EntityType = ''registration'', al_EntityID = i, al_Action = ''CREATED'',
      al_Detail = job_Payload job, al_TraceID = job_TraceID job, al_CreatedAt = time_at E (ticks w) \<rparr>"
  obtain l' where l': "tab (snd (sCreateAuditLog S None l (db w2))) =
      (tab (db w2))\<lparr>t_audits := t_audits (tab (db w2)) @ [l']\<rparr>"
    using redis_audit_step [OF w2(2), of l] txts by (auto simp: l_def registration_text_def)
  have au: "writeAudit p None ''registration'' i ''CREATED'' (job_Payload job) (job_TraceID job)
      (time_at E (ticks w)) w2 = w2\<lparr>db := snd (sCreateAuditLog S None l (db w2))\<rparr>"
    by (simp add: writeAudit_def world_simps p NewRegistrationProcessor_def l_def)
  have "job_JobType msg = JobTypeNotification \<and> job_Payload msg = b \<and> job_Status msg = JobStatusQueued"
    by (simp add: msg(1) req welcome_request_def)
  with w1(1,6) w2(3-5) l' show ?thesis unfolding wel au by auto
qed

end

section \<open>The life of a QR scan\<close>

text \<open>
  The keys of one scan are pairwise different: the idempotency key, the done marker, the lock, the
  duplicate-scan key and the attendance counter.
\<close>

lemma scan_keys_distinct [simp]:
  "enq_redisKey s req \<noteq> done_key j" "enq_redisKey s req \<noteq> lock_key j"
  "enq_redisKey s req \<noteq> dedupKey inp" "enq_redisKey s req \<noteq> attendance_key ev"
  "done_key j \<noteq> enq_redisKey s req" "lock_key j \<noteq> enq_redisKey s req"
  "dedupKey inp \<noteq> enq_redisKey s req" "attendance_key ev \<noteq> enq_redisKey s req"
  "done_key j \<noteq> dedupKey inp" "done_key j \<noteq> attendance_key ev"
  "lock_key j \<noteq> dedupKey inp" "lock_key j \<noteq> attendance_key ev"
  "dedupKey inp \<noteq> done_key j" "attendance_key ev \<noteq> done_key j"
  "dedupKey inp \<noteq> lock_key j" "attendance_key ev \<noteq> lock_key j"
  by (simp_all add: enq_redisKey_def idempotencyRedisKey_def done_key_def lock_key_def dedupKey_def
      attendance_key_def)

text \<open>A state in which a scan request finds nothing in its way.\<close>

definition scan_ready ::
  "(string \<Rightarrow> entry option) \<Rightarrow> tables \<Rightarrow> runtime \<Rightarrow> ('r, 'd) GatewayService \<Rightarrow> EnqueueRequest \<Rightarrow>
    QRScanPayload \<Rightarrow> ('r, 'd) world \<Rightarrow> bool" where
  "scan_ready es t E s req inp w \<longleftrightarrow>
     es (enq_redisKey s req) = None \<and> es (done_key (enq_job s req w)) = None \<and>
     es (lock_key (enq_job s req w)) = None \<and> es (dedupKey inp) = None \<and>
     t_jobs t (enq_id s req w) = None \<and>
     (\<forall>n \<ge> uuids w. uuid_at E n \<notin> qs_ID ` set (t_scans t))"

locale scan_env =
  pipeline_env R lst ents up elapse J pt S tab dok oktext okjson np na cfg E +
  pool_env R lst ents up elapse J pt S tab dok oktext okjson np na procs workers E
  for R :: "'r redis_client" and lst ents up elapse J pt
    and S :: "'d Store_port" and tab dok oktext okjson np na and cfg E
    and procs :: "(JobType \<times> ('r, 'd) processor) list" and workers :: int
begin

abbreviation "pool_on \<equiv> NewPool (RedisQueue_port R J pt) S (RedisCache_port R) procs workers E"

lemma pool_rt: "p_rt pool_on = E"
  by (simp add: NewPool_def)

text \<open>The delivery of a waiting scan job.\<close>

lemma scan_delivered:
  assumes waits: "waiting_job (server_ok J lst ents up) ents (queue_view J lst)
      tab dok oktext okjson np na j w"
    and reg: "p_registry pool_on (job_JobType j) = Some (QRScanProcessor_Process J E qp)"
    and qp: "qp = NewQRScanProcessor S S (RedisCache_port R) ttl" "whole_ms (qrp_dedupTTL qp)"
    and inp: "accepted_scan J (job_Payload j) = Some inp" "ents (redis w) (dedupKey inp) = None"
    and i: "i = uuid_at E (uuids w)" "i \<notin> qs_ID ` set (t_scans (tab (db w)))"
    and txts: "scan_text oktext okjson i j inp"
    and n: "ents (redis w) (attendance_key (qp_EventID inp)) = counter n" "int n + 1 < 2 ^ 63"
  shows "\<exists>w' row scan. delivery pool_on w = w' \<and>
    t_jobs (tab (db w')) (job_ID j) = Some row \<and> job_Status row = JobStatusSuccess \<and>
    t_scans (tab (db w')) = t_scans (tab (db w)) @ [scan] \<and> qs_JobID scan = job_ID j \<and>
    qs_QRCode scan = qp_QRCode inp \<and> qs_EventID scan = qp_EventID inp \<and>
    ents (redis w') (done_key j) = Some (''1'', Some processedTTL) \<and> ents (redis w') (lock_key j) = None \<and>
    (qp_EventID inp \<noteq> '''' \<longrightarrow> ents (redis w') (attendance_key (qp_EventID inp)) = counter (Suc n)) \<and>
    queue_view J lst (redis w') = (\<lambda>_. []) \<and> pending w' = []"
proof -
  define w1 where "w1 = w\<lparr>redis := snd (qPop (RedisQueue_port R J pt) None (redis w))\<rparr>"
  note pop = wk.waiting_popped [OF waits w1_def]
  obtain j' w2 t where cl: "claimed pool_on j w1 = (j', w2)"
    "j' = j\<lparr>job_Status := JobStatusProcessing, job_UpdatedAt := t\<rparr>"
    "server_ok J lst ents up (redis w2)" "takes_row tab dok oktext okjson np na (db w2) j'"
    "tab (db w2) = (tab (db w1))\<lparr>t_jobs := (t_jobs (tab (db w1)))(job_ID j \<mapsto> stored_job np na j')\<rparr>"
    "ents (redis w2) = (ents (redis w1))(lock_key j \<mapsto> (''1'', Some lockTTL))"
    "queue_view J lst (redis w2) = queue_view J lst (redis w1)" "pending w2 = pending w1"
    using redis_claimed [OF pop(2,3) reg] by blast
  have u: "uuids w2 = uuids w" using claimed_uuids [of pool_on j w1] cl(1) by (simp add: w1_def)
  have inp': "accepted_scan J (job_Payload j') = Some inp" using inp(1) cl(2) by simp
  have pre: "dok (db w2)" "ents (redis w2) (dedupKey inp) = None" "i = uuid_at E (uuids w2)"
    "i \<notin> qs_ID ` set (t_scans (tab (db w2)))" "scan_text oktext okjson i j' inp"
    "ents (redis w2) (attendance_key (qp_EventID inp)) = counter n"
    using cl(2,4-6) pop(6,11) inp(2) i u txts n(1) by (simp_all add: takes_row_def scan_text_def)
  from redis_scan_recorded [OF inp' qp cl(3) pre(1-5) pre(6) n(2)]
  obtain w3 l where w3: "QRScanProcessor_Process J E qp None j' w2 = (None, w3)"
    "server_ok J lst ents up (redis w3)" "dok (db w3)"
    "tab (db w3) = (tab (db w2))\<lparr>
      t_scans := t_scans (tab (db w2)) @ [new_scan j' inp i (na (time_at E (ticks w2)))],
      t_audits := t_audits (tab (db w2)) @ [l]\<rparr>"
    "ents (redis w3) = (if qp_EventID inp = '''' then ents (redis w2)
        else (ents (redis w2))(attendance_key (qp_EventID inp) := counter (Suc n)))
      (dedupKey inp \<mapsto> (''1'', Some (qrp_dedupTTL qp)))"
    "queue_view J lst (redis w3) = queue_view J lst (redis w2)" "pending w3 = pending w2"
    by blast
  have ids: "job_ID j' = job_ID j" "takes_row tab dok oktext okjson np na (db w3) j'"
    using cl(2,4) w3(3,4) by (simp_all add: takes_row_def)
  from redis_success [OF pop(2) reg cl(1) w3(1) ids(1) w3(2) ids(2)] pop(1,4,7) w3 cl(7,8) pool_rt
  obtain w4 where w4: "process pool_on None j w1 = w4"
    "tab (db w4) = (tab (db w3))\<lparr>
      t_jobs := (t_jobs (tab (db w3)))(job_ID j \<mapsto>
        stored_job np na (success_job j' (time_at E (Suc (Suc (ticks w3)))))),
      t_atts := t_atts (tab (db w3)) @
        [attempt_row E na j' (time_at E (ticks w1)) JobStatusSuccess '''' w3]\<rparr>"
    "ents (redis w4) = (ents (redis w3))(done_key j \<mapsto> (''1'', Some processedTTL), lock_key j := None)"
    "queue_view J lst (redis w4) = (\<lambda>_. [])" "pending w4 = []"
    by auto
  have "delivery pool_on w = w4" using pop(1) w4(1,5) by simp
  then show ?thesis
    using w4(2-5) w3(4,5) cl(2,5) pop(11)
    by (intro exI [of _ w4] exI conjI) (auto simp: new_scan_def)
qed

text \<open>The request is accepted and, after one delivery, the scan is stored and the job is SUCCESS.\<close>

lemma scan_end_to_end:
  assumes adm: "admissible svc_on req" and type: "er_JobType req = JobTypeQRScan"
    and inp: "accepted_scan J (er_Payload req) = Some inp"
    and reg: "p_registry pool_on JobTypeQRScan = Some (QRScanProcessor_Process J E qp)"
    and qp: "qp = NewQRScanProcessor S S (RedisCache_port R) ttl" "whole_ms (qrp_dedupTTL qp)"
    and w: "server_ok J lst ents up (redis w)" "dok (db w)" "queue_view J lst (redis w) = (\<lambda>_. [])"
      "pending w = []" "\<not> crashed w" "eff_base w \<le> 2 ^ 53" "eff_max w \<le> 2 ^ 53"
    and ready: "scan_ready (ents (redis w)) (tab (db w)) E svc_on req inp w"
    and job: "j = enq_job svc_on req w" "wire J j" "okjob oktext okjson j"
    and txts: "\<And>i. i \<in> range (uuid_at E) \<Longrightarrow> scan_text oktext okjson i j inp"
    and n: "ents (redis w) (attendance_key (qp_EventID inp)) = counter n" "int n + 1 < 2 ^ 63"
  shows "\<exists>w1 w2 row scan. Enqueue svc_on None req w = (Inr \<lparr> res_Job = j, res_Duplicate = False \<rparr>, w1) \<and>
    delivery pool_on w1 = w2 \<and>
    t_jobs (tab (db w2)) (job_ID j) = Some row \<and> job_Status row = JobStatusSuccess \<and>
    t_scans (tab (db w2)) = t_scans (tab (db w)) @ [scan] \<and> qs_JobID scan = job_ID j \<and>
    qs_QRCode scan = qp_QRCode inp \<and> qs_EventID scan = qp_EventID inp \<and>
    (qp_EventID inp \<noteq> '''' \<longrightarrow> ents (redis w2) (attendance_key (qp_EventID inp)) = counter (Suc n)) \<and>
    queue_view J lst (redis w2) = (\<lambda>_. []) \<and> pending w2 = []"
proof -
  have r: "ents (redis w) (enq_redisKey svc_on req) = None" "ents (redis w) (done_key j) = None"
    "ents (redis w) (lock_key j) = None" "ents (redis w) (dedupKey inp) = None"
    "t_jobs (tab (db w)) (enq_id svc_on req w) = None"
    "\<And>n. uuids w \<le> n \<Longrightarrow> uuid_at E n \<notin> qs_ID ` set (t_scans (tab (db w)))"
    using ready by (simp_all add: scan_ready_def job(1))
  from redis_fresh [OF adm w(1,2) r(1) job(2,3) [unfolded job(1)] r(5)]
  obtain w1 where w1: "Enqueue svc_on None req w = (Inr \<lparr> res_Job = j, res_Duplicate = False \<rparr>, w1)"
    "server_ok J lst ents up (redis w1)" "dok (db w1)"
    "ents (redis w1) = (ents (redis w))(enq_redisKey svc_on req \<mapsto>
        (enq_id svc_on req w, Some (gc_IdempotencyTTL (gs_cfg svc_on))))"
    "queue_view J lst (redis w1) = (queue_view J lst (redis w))(level (job_Priority j) :=
        queue_view J lst (redis w) (level (job_Priority j)) @ [j])"
    "tab (db w1) = (tab (db w))\<lparr>t_jobs := (t_jobs (tab (db w)))(enq_id svc_on req w \<mapsto>
        stored_job np na j)\<rparr>"
    unfolding job(1) by blast
  have j: "job_ID j = enq_id svc_on req w" "job_JobType j = JobTypeQRScan" "job_Payload j = er_Payload req"
    "job_RetryCount j = 0"
    by (simp_all add: job(1) type)
  have f: "pending w1 = []" "\<not> crashed w1" "eff_base w1 = eff_base w" "eff_max w1 = eff_max w"
    "uuids w \<le> uuids w1"
    using Enqueue_frame [OF adm, of None w] Enqueue_uuids [OF adm, of None w] w1(1) w(4,5)
    by (simp_all add: pool_part_def eff_base_def eff_max_def enq_drawn_def)
  have waits: "waiting_job (server_ok J lst ents up) ents (queue_view J lst) tab dok oktext okjson np na j w1"
    using w1(2-6) f(1-4) w(3,6,7) r(2,3) job(3) j(1,4)
    by (simp add: waiting_job_def free_job_def takes_row_def same_row_def)
  have pre: "ents (redis w1) (dedupKey inp) = None"
    "uuid_at E (uuids w1) \<notin> qs_ID ` set (t_scans (tab (db w1)))"
    "ents (redis w1) (attendance_key (qp_EventID inp)) = counter n"
    using w1(4,6) r(4,6) f(5) n(1) by simp_all
  from scan_delivered [OF waits reg [folded j(2)] qp inp [folded j(3)] pre(1) refl pre(2) txts pre(3) n(2)]
    w1(1,6) show ?thesis by fastforce
qed

end

lemma pipeline_envI:
  assumes "redis_laws R lst ents up elapse" "event_contract S tab dok oktext okjson np na"
    and "clock_ok E" "whole_ms (gc_IdempotencyTTL (gs_cfg (gateway R J pt S cfg E)))"
  shows "pipeline_env R lst ents up elapse J pt S tab dok oktext okjson np na cfg E"
  using assms gateway_envI [OF assms(1) event_contract.axioms(1) [OF assms(2)] assms(4)]
    processing_envI [OF assms(1,2,3)]
  by (simp add: pipeline_env_def)

lemma scan_envI:
  assumes "redis_laws R lst ents up elapse" "event_contract S tab dok oktext okjson np na"
    and "whole_ms (gc_IdempotencyTTL (gs_cfg (gateway R J pt S cfg E)))" "text_statuses oktext" "clock_ok E"
  shows "scan_env R lst ents up elapse J pt S tab dok oktext okjson np na cfg E"
  using pipeline_envI [OF assms(1,2,5,3)] pool_envI [OF assms(1) event_contract.axioms(1) [OF assms(2)] assms(4,5)]
  by (simp add: scan_env_def)

end
