(* ===== verification/Json_Roundtrip.thy ===== *)
theory Json_Roundtrip
  imports Go_Json
begin

text \<open>
  Encoding a job and decoding it gives the job back. The recogniser is stable under more fuel and
  under text that follows a value, strings and UTF-8 survive escaping, integers and RFC 3339 times
  survive printing, and the members of a printed object are its fields in order.
\<close>

section \<open>The recogniser\<close>

lemma skip_ws_length: "length (skip_ws s) \<le> length s"
  by (induction s rule: skip_ws.induct) auto

lemma skip_ws_append: "skip_ws s \<noteq> [] \<Longrightarrow> skip_ws (s @ t) = skip_ws s @ t"
  by (induction s rule: skip_ws.induct) auto

lemma skip_ws_id: "s = [] \<or> \<not> is_ws (hd s) \<Longrightarrow> skip_ws s = s"
  by (cases s) auto

lemma scan_string_length: "scan_string s = Some r \<Longrightarrow> length r < length s"
  by (induction s rule: scan_string.induct)
    (auto split: if_splits option.splits dest: scan_escape_length less_trans)

lemma scan_escape_append: "scan_escape s = Some r \<Longrightarrow> scan_escape (s @ t) = Some (r @ t)"
  by (auto simp: scan_escape_def split: list.splits if_splits)

lemma scan_string_append: "scan_string s = Some r \<Longrightarrow> scan_string (s @ t) = Some (r @ t)"
  by (induction s rule: scan_string.induct) (auto split: if_splits option.splits simp: scan_escape_append)

text \<open>What may follow a value: the end of the text or a byte that cannot continue a number.\<close>

definition delim :: "string \<Rightarrow> bool" where
  "delim t \<longleftrightarrow> t = [] \<or> (\<not> is_digit (hd t) \<and> hd t \<noteq> CHR ''.'' \<and> hd t \<noteq> CHR ''e'' \<and> hd t \<noteq> CHR ''E'')"

lemma delim_simps [simp]: "delim []" "delim (CHR '','' # t)" "delim (CHR ''}'' # t)" "delim (CHR '']'' # t)"
  by (simp_all add: delim_def is_digit_def byte_of_def)

lemma dropWhile_stop:
  assumes "dropWhile P s \<noteq> [] \<or> t = [] \<or> \<not> P (hd t)"
  shows "dropWhile P (s @ t) = dropWhile P s @ t"
  using assms by (induction s) (auto, cases t, auto)

lemma scan_digits_length: "scan_digits s = Some r \<Longrightarrow> length r < length s"
  using length_dropWhile_le [of is_digit "tl s"]
  by (auto simp: scan_digits_def split: list.splits if_splits)

lemma scan_digits_append:
  "scan_digits s = Some r \<Longrightarrow> r \<noteq> [] \<or> delim t \<Longrightarrow> scan_digits (s @ t) = Some (r @ t)"
  using dropWhile_stop [of is_digit "tl s" t]
  by (auto simp: scan_digits_def delim_def split: list.splits if_splits)

lemma scan_int_length: "scan_int s = Some r \<Longrightarrow> length r < length s"
  using scan_digits_length [of s r] by (auto simp: scan_int_def split: list.splits if_splits)

lemma scan_int_append: "scan_int s = Some r \<Longrightarrow> r \<noteq> [] \<or> delim t \<Longrightarrow> scan_int (s @ t) = Some (r @ t)"
  using scan_digits_append [of s r t] by (auto simp: scan_int_def split: list.splits if_splits)

lemma scan_frac_length: "scan_frac s = Some r \<Longrightarrow> length r \<le> length s"
  using scan_digits_length [of "tl s" r] by (auto simp: scan_frac_def split: list.splits if_splits)

lemma scan_frac_append: "scan_frac s = Some r \<Longrightarrow> r \<noteq> [] \<or> delim t \<Longrightarrow> scan_frac (s @ t) = Some (r @ t)"
  using scan_digits_append [of "tl s" r t]
  by (cases s) (auto simp: scan_frac_def delim_def split: list.splits if_splits)

lemma scan_exp_length: "scan_exp s = Some r \<Longrightarrow> length r \<le> length s"
  using scan_digits_length [of "tl s" r] scan_digits_length [of "tl (tl s)" r]
  by (auto simp: scan_exp_def split: list.splits if_splits)

lemma scan_exp_append: "scan_exp s = Some r \<Longrightarrow> r \<noteq> [] \<or> delim t \<Longrightarrow> scan_exp (s @ t) = Some (r @ t)"
  using scan_digits_append [of "tl s" r t] scan_digits_append [of "tl (tl s)" r t]
  by (cases s; cases "tl s") (auto simp: scan_exp_def delim_def scan_digits_def split: list.splits if_splits)

lemma scan_number_props:
  assumes "scan_number s = Some r"
  shows "length r < length s" "r \<noteq> [] \<or> delim t \<Longrightarrow> scan_number (s @ t) = Some (r @ t)"
proof -
  define u where "u = (case s of c # s1 \<Rightarrow> if c = CHR ''-'' then s1 else s | [] \<Rightarrow> s)"
  from assms obtain a b where ab: "scan_int u = Some a" "scan_frac a = Some b" "scan_exp b = Some r"
    unfolding scan_number_def u_def [symmetric] by (auto simp: bind_eq_Some_conv)
  have u: "length u \<le> length s" "s \<noteq> []" using ab(1) by (auto simp: u_def scan_int_def split: list.splits)
  show "length r < length s"
    using scan_int_length [OF ab(1)] scan_frac_length [OF ab(2)] scan_exp_length [OF ab(3)] u by simp
  assume t: "r \<noteq> [] \<or> delim t"
  have nonempty: "a \<noteq> [] \<or> delim t" "b \<noteq> [] \<or> delim t"
    using t scan_frac_length [OF ab(2)] scan_exp_length [OF ab(3)] by auto
  have "scan_int (u @ t) = Some (a @ t)" "scan_frac (a @ t) = Some (b @ t)" "scan_exp (b @ t) = Some (r @ t)"
    by (rule scan_int_append [OF ab(1) nonempty(1)], rule scan_frac_append [OF ab(2) nonempty(2)],
        rule scan_exp_append [OF ab(3) t])
  moreover have "(case s @ t of c # s1 \<Rightarrow> if c = CHR ''-'' then s1 else s @ t | [] \<Rightarrow> s @ t) = u @ t"
    using u(2) by (auto simp: u_def split: list.splits)
  ultimately show "scan_number (s @ t) = Some (r @ t)" by (simp add: scan_number_def)
qed

lemma scan_lit_props:
  assumes "scan_lit w s = Some r" "w \<noteq> []"
  shows "length r < length s" "scan_lit w (s @ t) = Some (r @ t)"
proof -
  from assms obtain x where "s = w @ x" "r = x"
    by (auto simp: scan_lit_def HasPrefix_iff split: if_splits)
  then show "length r < length s" "scan_lit w (s @ t) = Some (r @ t)"
    using assms(2) by (auto simp: scan_lit_def strings_HasPrefix_def)
qed

lemma scan_atom_length: "scan_atom s = Some r \<Longrightarrow> length r < length s"
  using scan_string_length [of "tl s" r] scan_number_props(1) [of s r] scan_lit_props(1) [of _ s r]
  by (cases s) (auto simp: scan_atom_def split: if_splits)

lemma scan_atom_append:
  "scan_atom s = Some r \<Longrightarrow> r \<noteq> [] \<or> delim t \<Longrightarrow> scan_atom (s @ t) = Some (r @ t)"
  using scan_string_append [of "tl s" r t] scan_number_props(2) [of s r t] scan_lit_props(2) [of _ s r t]
  by (cases s) (auto simp: scan_atom_def split: if_splits)

text \<open>One step of the recogniser.\<close>

lemma scan_value_Suc: "scan_value (Suc n) d s = Some r \<longleftrightarrow> (\<exists>c s1. s = c # s1 \<and>
    (if c = CHR ''{'' then \<exists>e s2. 0 < d \<and> skip_ws s1 = e # s2 \<and>
       (e = CHR ''}'' \<and> r = s2 \<or> e \<noteq> CHR ''}'' \<and> scan_members n (d - 1) (e # s2) = Some r)
     else if c = CHR ''['' then \<exists>e s2. 0 < d \<and> skip_ws s1 = e # s2 \<and>
       (e = CHR '']'' \<and> r = s2 \<or> e \<noteq> CHR '']'' \<and> scan_elems n (d - 1) (e # s2) = Some r)
     else scan_atom s = Some r))"
  by (cases s; cases "skip_ws (tl s)") (simp_all, blast)

lemma scan_members_Suc: "scan_members (Suc n) d s = Some r \<longleftrightarrow> (\<exists>s1 x s2 v f s3.
    s = quote # s1 \<and> scan_string s1 = Some x \<and> skip_ws x = CHR '':'' # s2 \<and>
    scan_value n d (skip_ws s2) = Some v \<and> skip_ws v = f # s3 \<and>
    (f = CHR ''}'' \<and> r = s3 \<or> f = CHR '','' \<and> scan_members n d (skip_ws s3) = Some r))"
  by (auto split: if_splits list.splits option.splits)

lemma scan_elems_Suc: "scan_elems (Suc n) d s = Some r \<longleftrightarrow> (\<exists>v f s1.
    scan_value n d s = Some v \<and> skip_ws v = f # s1 \<and>
    (f = CHR '']'' \<and> r = s1 \<or> f = CHR '','' \<and> scan_elems n d (skip_ws s1) = Some r))"
  by (auto split: if_splits list.splits option.splits)

declare scan_value.simps(2) [simp del] scan_members.simps(2) [simp del] scan_elems.simps(2) [simp del]

lemmas scan_Suc = scan_value_Suc scan_members_Suc scan_elems_Suc

lemma skip_ws_Cons_length: "skip_ws s = c # t \<Longrightarrow> length t < length s"
  using skip_ws_length [of s] by simp

lemma scan_length_all:
  "(\<forall>d s r. scan_value n d s = Some r \<longrightarrow> length r < length s) \<and>
   (\<forall>d s r. scan_members n d s = Some r \<longrightarrow> length r < length s) \<and>
   (\<forall>d s r. scan_elems n d s = Some r \<longrightarrow> length r < length s)"
proof (induction n)
  case (Suc n)
  then have IH: "\<And>d s r. scan_value n d s = Some r \<Longrightarrow> length r < length s"
    "\<And>d s r. scan_members n d s = Some r \<Longrightarrow> length r < length s"
    "\<And>d s r. scan_elems n d s = Some r \<Longrightarrow> length r < length s" by blast+
  have v: "length r < length s" if "scan_value (Suc n) d s = Some r" for d s r
    using that unfolding scan_value_Suc
    by (auto split: if_splits dest!: IH skip_ws_Cons_length scan_atom_length)
  have m: "length r < length s" if a: "scan_members (Suc n) d s = Some r" for d s r
  proof -
    from a [unfolded scan_members_Suc] obtain s1 x s2 v f s3 where
      s: "s = quote # s1" "scan_string s1 = Some x" "skip_ws x = CHR '':'' # s2"
        "scan_value n d (skip_ws s2) = Some v" "skip_ws v = f # s3"
        "r = s3 \<or> scan_members n d (skip_ws s3) = Some r" by blast
    from s(6) have "length r \<le> length s3" using IH(2) [of d "skip_ws s3" r] skip_ws_length [of s3] by auto
    with s(1) scan_string_length [OF s(2)] skip_ws_Cons_length [OF s(3)] skip_ws_length [of s2]
      skip_ws_Cons_length [OF s(5)] IH(1) [OF s(4)]
    show ?thesis by simp
  qed
  have e: "length r < length s" if a: "scan_elems (Suc n) d s = Some r" for d s r
  proof -
    from a [unfolded scan_elems_Suc] obtain v f s1 where
      s: "scan_value n d s = Some v" "skip_ws v = f # s1"
        "r = s1 \<or> scan_elems n d (skip_ws s1) = Some r" by blast
    from s(3) have "length r \<le> length s1" using IH(3) [of d "skip_ws s1" r] skip_ws_length [of s1] by auto
    with IH(1) [OF s(1)] skip_ws_Cons_length [OF s(2)] show ?thesis by simp
  qed
  from v m e show ?case by blast
qed simp

lemmas scan_value_length = scan_length_all [THEN conjunct1, rule_format]
lemmas scan_members_length = scan_length_all [THEN conjunct2, THEN conjunct1, rule_format]
lemmas scan_elems_length = scan_length_all [THEN conjunct2, THEN conjunct2, rule_format]


text \<open>More fuel does no harm, and twice the length of the text is enough.\<close>

lemma scan_enough_all:
  "(\<forall>d s r m. scan_value n d s = Some r \<longrightarrow> n \<le> m \<or> 2 * length s + 1 \<le> m \<longrightarrow> scan_value m d s = Some r) \<and>
   (\<forall>d s r m. scan_members n d s = Some r \<longrightarrow> n \<le> m \<or> 2 * length s + 2 \<le> m \<longrightarrow> scan_members m d s = Some r) \<and>
   (\<forall>d s r m. scan_elems n d s = Some r \<longrightarrow> n \<le> m \<or> 2 * length s + 2 \<le> m \<longrightarrow> scan_elems m d s = Some r)"
proof (induction n)
  case (Suc n)
  then have IH: "\<And>d s r m. scan_value n d s = Some r \<Longrightarrow> n \<le> m \<or> 2 * length s + 1 \<le> m \<Longrightarrow> scan_value m d s = Some r"
    "\<And>d s r m. scan_members n d s = Some r \<Longrightarrow> n \<le> m \<or> 2 * length s + 2 \<le> m \<Longrightarrow> scan_members m d s = Some r"
    "\<And>d s r m. scan_elems n d s = Some r \<Longrightarrow> n \<le> m \<or> 2 * length s + 2 \<le> m \<Longrightarrow> scan_elems m d s = Some r"
    by blast+
  have v: "scan_value m d s = Some r"
    if a: "scan_value (Suc n) d s = Some r" and b: "Suc n \<le> m \<or> 2 * length s + 1 \<le> m" for d s r m
  proof -
    from b obtain k where m: "m = Suc k" by (cases m) auto
    from a obtain c s1 where s: "s = c # s1" unfolding scan_value_Suc by blast
    have k: "n \<le> k \<or> 2 * length (e # s2) + 2 \<le> k" if "skip_ws s1 = e # s2" for e s2
      using b m s skip_ws_Cons_length [OF that] by auto
    consider "c = CHR ''{''" | "c = CHR ''[''" | "c \<noteq> CHR ''{''" "c \<noteq> CHR ''[''" by blast
    then show ?thesis
    proof cases
      case 1
      with a s obtain e s2 where e: "0 < d" "skip_ws s1 = e # s2"
        "e = CHR ''}'' \<and> r = s2 \<or> e \<noteq> CHR ''}'' \<and> scan_members n (d - 1) (e # s2) = Some r"
        unfolding scan_value_Suc by auto
      with IH(2) [of "d - 1" "e # s2" r k] k [OF e(2)] 1 s show ?thesis unfolding m scan_value_Suc by auto
    next
      case 2
      with a s obtain e s2 where e: "0 < d" "skip_ws s1 = e # s2"
        "e = CHR '']'' \<and> r = s2 \<or> e \<noteq> CHR '']'' \<and> scan_elems n (d - 1) (e # s2) = Some r"
        unfolding scan_value_Suc by auto
      with IH(3) [of "d - 1" "e # s2" r k] k [OF e(2)] 2 s show ?thesis unfolding m scan_value_Suc by auto
    next
      case 3
      with a s show ?thesis unfolding m scan_value_Suc by simp
    qed
  qed
  have m: "scan_members m d s = Some r"
    if a: "scan_members (Suc n) d s = Some r" and b: "Suc n \<le> m \<or> 2 * length s + 2 \<le> m" for d s r m
  proof -
    from b obtain k where m: "m = Suc k" by (cases m) auto
    from a [unfolded scan_members_Suc] obtain s1 x s2 v f s3 where
      s: "s = quote # s1" "scan_string s1 = Some x" "skip_ws x = CHR '':'' # s2"
        "scan_value n d (skip_ws s2) = Some v" "skip_ws v = f # s3"
        "f = CHR ''}'' \<and> r = s3 \<or> f = CHR '','' \<and> scan_members n d (skip_ws s3) = Some r" by blast
    have l: "length (skip_ws s2) < length s1" "length (skip_ws s3) < length s1"
      using scan_string_length [OF s(2)] skip_ws_Cons_length [OF s(3)] skip_ws_length [of s2]
        scan_value_length [OF s(4)] skip_ws_Cons_length [OF s(5)] skip_ws_length [of s3] by simp_all
    then have "n \<le> k \<or> 2 * length (skip_ws s2) + 1 \<le> k" "n \<le> k \<or> 2 * length (skip_ws s3) + 2 \<le> k"
      using b m s(1) by auto
    with IH(1) [OF s(4), of k] IH(2) [of d "skip_ws s3" r k] s show ?thesis
      unfolding m scan_members_Suc by blast
  qed
  have e: "scan_elems m d s = Some r"
    if a: "scan_elems (Suc n) d s = Some r" and b: "Suc n \<le> m \<or> 2 * length s + 2 \<le> m" for d s r m
  proof -
    from b obtain k where m: "m = Suc k" by (cases m) auto
    from a [unfolded scan_elems_Suc] obtain v f s1 where
      s: "scan_value n d s = Some v" "skip_ws v = f # s1"
        "f = CHR '']'' \<and> r = s1 \<or> f = CHR '','' \<and> scan_elems n d (skip_ws s1) = Some r" by blast
    have "length (skip_ws s1) < length s"
      using scan_value_length [OF s(1)] skip_ws_Cons_length [OF s(2)] skip_ws_length [of s1] by simp
    then have "n \<le> k \<or> 2 * length s + 1 \<le> k" "n \<le> k \<or> 2 * length (skip_ws s1) + 2 \<le> k"
      using b m by auto
    with IH(1) [OF s(1), of k] IH(3) [of d "skip_ws s1" r k] s show ?thesis
      unfolding m scan_elems_Suc by blast
  qed
  from v m e show ?case by blast
qed simp

lemma scan_json_iff: "scan_json s = Some r \<longleftrightarrow> (\<exists>n. scan_value n max_depth s = Some r)"
  unfolding scan_json_def using scan_enough_all by (metis add.commute add_Suc le_add2 one_add_one plus_1_eq_Suc)

text \<open>What follows a value is left alone.\<close>

lemma scan_append_all:
  "(\<forall>d s r t. scan_value n d s = Some r \<longrightarrow> r \<noteq> [] \<or> delim t \<longrightarrow> scan_value n d (s @ t) = Some (r @ t)) \<and>
   (\<forall>d s r t. scan_members n d s = Some r \<longrightarrow> scan_members n d (s @ t) = Some (r @ t)) \<and>
   (\<forall>d s r t. scan_elems n d s = Some r \<longrightarrow> scan_elems n d (s @ t) = Some (r @ t))"
proof (induction n)
  case (Suc n)
  then have IH: "\<And>d s r t. scan_value n d s = Some r \<Longrightarrow> r \<noteq> [] \<or> delim t \<Longrightarrow> scan_value n d (s @ t) = Some (r @ t)"
    "\<And>d s r t. scan_members n d s = Some r \<Longrightarrow> scan_members n d (s @ t) = Some (r @ t)"
    "\<And>d s r t. scan_elems n d s = Some r \<Longrightarrow> scan_elems n d (s @ t) = Some (r @ t)"
    by blast+
  have sk: "skip_ws (a @ t) = c # b @ t" if "skip_ws a = c # b" for a b c t
    using that skip_ws_append [of a t] by simp
  have v: "scan_value (Suc n) d (s @ t) = Some (r @ t)"
    if a: "scan_value (Suc n) d s = Some r" and b: "r \<noteq> [] \<or> delim t" for d s r t
  proof -
    from a obtain c s1 where s: "s = c # s1" unfolding scan_value_Suc by blast
    from a b IH(2,3) sk [of s1] scan_atom_append [of s r t] s show ?thesis
      unfolding scan_value_Suc by (cases "skip_ws s1") (fastforce split: if_splits)+
  qed
  have m: "scan_members (Suc n) d (s @ t) = Some (r @ t)"
    if a: "scan_members (Suc n) d s = Some r" for d s r t
  proof -
    from a [unfolded scan_members_Suc] obtain s1 x s2 v f s3 where
      s: "s = quote # s1" "scan_string s1 = Some x" "skip_ws x = CHR '':'' # s2"
        "scan_value n d (skip_ws s2) = Some v" "skip_ws v = f # s3"
        "f = CHR ''}'' \<and> r = s3 \<or> f = CHR '','' \<and> scan_members n d (skip_ws s3) = Some r" by blast
    have "v \<noteq> []" "skip_ws s2 \<noteq> []" using s(5) scan_value_length [OF s(4)] by auto
    then have "scan_value n d (skip_ws (s2 @ t)) = Some (v @ t)"
      using IH(1) [OF s(4)] skip_ws_append [of s2 t] by simp
    moreover have "scan_members n d (skip_ws (s3 @ t)) = Some (r @ t)" if "scan_members n d (skip_ws s3) = Some r"
      using IH(2) [OF that] scan_members_length [OF that] skip_ws_append [of s3 t] by fastforce
    ultimately show ?thesis
      using s sk [OF s(3)] sk [OF s(5)] scan_string_append [OF s(2)] unfolding scan_members_Suc by fastforce
  qed
  have e: "scan_elems (Suc n) d (s @ t) = Some (r @ t)" if a: "scan_elems (Suc n) d s = Some r" for d s r t
  proof -
    from a [unfolded scan_elems_Suc] obtain v f s1 where
      s: "scan_value n d s = Some v" "skip_ws v = f # s1"
        "f = CHR '']'' \<and> r = s1 \<or> f = CHR '','' \<and> scan_elems n d (skip_ws s1) = Some r" by blast
    have "v \<noteq> []" using s(2) by auto
    moreover have "scan_elems n d (skip_ws (s1 @ t)) = Some (r @ t)" if "scan_elems n d (skip_ws s1) = Some r"
      using IH(3) [OF that] scan_elems_length [OF that] skip_ws_append [of s1 t] by fastforce
    ultimately show ?thesis
      using s sk [OF s(2)] IH(1) [OF s(1)] unfolding scan_elems_Suc by fastforce
  qed
  from v m e show ?case by blast
qed simp

lemma scan_json_append: "scan_json s = Some r \<Longrightarrow> r \<noteq> [] \<or> delim t \<Longrightarrow> scan_json (s @ t) = Some (r @ t)"
  unfolding scan_json_iff using scan_append_all by blast


section \<open>Strings\<close>

text \<open>\<open>utf8.Valid\<close>: no byte of the string is an encoding error.\<close>

function utf8_Valid :: "string \<Rightarrow> bool" where
  "utf8_Valid [] = True"
| "utf8_Valid (c # s) =
     (if byte_of c < 0x80 then utf8_Valid s
      else (let (r, k) = DecodeRune (c # s)
            in \<not> (r = RuneError \<and> k = 1) \<and> utf8_Valid (drop (k - 1) s)))"
  by pat_completeness auto
termination by (relation "measure length") auto

lemma byte_of_lt [simp]: "byte_of c < 256"
  by (simp add: byte_of_def)

lemma char_byte [simp]: "char_of (byte_of c) = c"
  by (simp add: byte_of_def)

lemma within_bounds: "within lo hi n \<Longrightarrow> lo \<le> n" "within lo hi n \<Longrightarrow> n \<le> hi"
  by (simp_all add: within_def)

lemma EncodeRune2:
  assumes "seq2 (byte_of a) (byte_of b)"
  shows "EncodeRune (rune2 (byte_of a) (byte_of b)) = [a, b]"
proof -
  define x y where "x = byte_of a - 0xC0" and "y = byte_of b - 0x80"
  have xy: "byte_of a = 0xC0 + x" "byte_of b = 0x80 + y" "2 \<le> x" "x < 0x20" "y < 0x40"
    using assms by (auto simp: seq2_def within_def x_def y_def)
  have r: "rune2 (byte_of a) (byte_of b) = x * 0x40 + y" by (simp add: rune2_def x_def y_def)
  have "x * 0x40 + y < 0x800" "0x80 \<le> x * 0x40 + y" "(x * 0x40 + y) div 0x40 = x" "(x * 0x40 + y) mod 0x40 = y"
    using xy by auto
  then have "EncodeRune (x * 0x40 + y) = map char_of [0xC0 + x, 0x80 + y]"
    by (simp add: EncodeRune_def within_def)
  then show ?thesis unfolding r by (simp flip: xy(1,2))
qed

lemma base64_digit: "z < 64 \<Longrightarrow> (q * 64 + z) mod 64 = z" "z < 64 \<Longrightarrow> (q * 64 + z) div 64 = (q :: nat)"
  by simp_all

lemma EncodeRune3:
  assumes "seq3 (byte_of a) (byte_of b) (byte_of c)"
  shows "EncodeRune (rune3 (byte_of a) (byte_of b) (byte_of c)) = [a, b, c]"
proof -
  define x y z where "x = byte_of a - 0xE0" and "y = byte_of b - 0x80" and "z = byte_of c - 0x80"
  have xyz: "byte_of a = 0xE0 + x" "byte_of b = 0x80 + y" "byte_of c = 0x80 + z" "x < 0x10" "y < 0x40" "z < 0x40"
    "x = 0 \<Longrightarrow> 0x20 \<le> y" "x = 0xD \<Longrightarrow> y < 0x20"
    using assms by (auto simp: seq3_def within_def x_def y_def z_def split: if_splits)
  define r where "r = (x * 0x40 + y) * 0x40 + z"
  have r: "rune3 (byte_of a) (byte_of b) (byte_of c) = r" by (simp add: rune3_def x_def y_def z_def r_def)
  have "r < 0x10000" "0x800 \<le> r" using xyz unfolding r_def by (cases "x = 0"; simp)+
  moreover have "\<not> within 0xD800 0xDFFF r"
  proof
    assume w: "within 0xD800 0xDFFF r"
    have lin: "r = 4096 * x + 64 * y + z" by (simp add: r_def)
    note b = within_bounds [OF w]
    have "\<not> x \<le> 12" using b(1) lin xyz(5,6) by linarith
    moreover have "\<not> 14 \<le> x" using b(2) lin by linarith
    ultimately have "x = 0xD" by linarith
    with w xyz(5,6,8) show False unfolding r_def within_def by simp
  qed
  moreover have d: "r mod 0x40 = z" "r div 0x40 = x * 0x40 + y"
    unfolding r_def by (simp_all only: base64_digit xyz(6))
  moreover have "r div 0x1000 = r div 0x40 div 0x40" by (simp add: div_mult2_eq [symmetric])
  then have "r div 0x1000 = x" "r div 0x40 mod 0x40 = y" using d xyz by simp_all
  ultimately have "EncodeRune r = map char_of [0xE0 + x, 0x80 + y, 0x80 + z]"
    by (auto simp: EncodeRune_def within_def)
  then show ?thesis unfolding r by (simp flip: xyz(1-3))
qed

lemma EncodeRune4:
  assumes "seq4 (byte_of a) (byte_of b) (byte_of c) (byte_of d)"
  shows "EncodeRune (rune4 (byte_of a) (byte_of b) (byte_of c) (byte_of d)) = [a, b, c, d]"
proof -
  define x y z u where "x = byte_of a - 0xF0" and "y = byte_of b - 0x80" and "z = byte_of c - 0x80"
    and "u = byte_of d - 0x80"
  have xyz: "byte_of a = 0xF0 + x" "byte_of b = 0x80 + y" "byte_of c = 0x80 + z" "byte_of d = 0x80 + u"
    "x < 5" "y < 0x40" "z < 0x40" "u < 0x40" "x = 0 \<Longrightarrow> 0x10 \<le> y" "x = 4 \<Longrightarrow> y < 0x10"
    using assms by (auto simp: seq4_def within_def x_def y_def z_def u_def split: if_splits)
  define r where "r = ((x * 0x40 + y) * 0x40 + z) * 0x40 + u"
  have r: "rune4 (byte_of a) (byte_of b) (byte_of c) (byte_of d) = r"
    by (simp add: rune4_def x_def y_def z_def u_def r_def)
  have lin: "r = 262144 * x + 4096 * y + 64 * z + u" by (simp add: r_def)
  have "y < 16 \<or> x \<le> 3" "16 \<le> y \<or> 1 \<le> x" using xyz(5,9,10) by linarith+
  then have "r \<le> 0x10FFFF" "0x10000 \<le> r" using xyz(5-8) lin by (elim disjE; simp)+
  moreover have d: "r mod 0x40 = u" "r div 0x40 = (x * 0x40 + y) * 0x40 + z"
    "((x * 0x40 + y) * 0x40 + z) mod 0x40 = z" "((x * 0x40 + y) * 0x40 + z) div 0x40 = x * 0x40 + y"
    "(x * 0x40 + y) mod 0x40 = y" "(x * 0x40 + y) div 0x40 = x"
    unfolding r_def by (simp_all only: base64_digit xyz(6-8))
  moreover have "r div 0x1000 = r div 0x40 div 0x40" "r div 0x40000 = r div 0x40 div 0x40 div 0x40"
    by (simp_all add: div_mult2_eq [symmetric])
  ultimately have "EncodeRune r = map char_of [0xF0 + x, 0x80 + y, 0x80 + z, 0x80 + u]"
    by (simp add: EncodeRune_def within_def)
  then show ?thesis unfolding r by (simp flip: xyz(1-4))
qed


lemma DecodeRune_cases:
  assumes "DecodeRune (a # s) = (r, k)" "\<not> byte_of a < 0x80" "\<not> (r = RuneError \<and> k = 1)"
  obtains (two) b t where "s = b # t" "seq2 (byte_of a) (byte_of b)" "r = rune2 (byte_of a) (byte_of b)" "k = 2"
  | (three) b c t where "s = b # c # t" "seq3 (byte_of a) (byte_of b) (byte_of c)"
      "r = rune3 (byte_of a) (byte_of b) (byte_of c)" "k = 3"
  | (four) b c d t where "s = b # c # d # t" "seq4 (byte_of a) (byte_of b) (byte_of c) (byte_of d)"
      "r = rune4 (byte_of a) (byte_of b) (byte_of c) (byte_of d)" "k = 4"
  using assms unfolding DecodeRune_def by (auto split: list.splits if_splits)

lemma seq_exclusive:
  "seq3 x y z \<Longrightarrow> \<not> seq2 x y'" "seq4 x y z u \<Longrightarrow> \<not> seq2 x y'" "seq4 x y z u \<Longrightarrow> \<not> seq3 x y' z'"
  by (auto simp: seq2_def seq3_def seq4_def within_def)

lemma seq_high:
  "seq2 x y \<Longrightarrow> 0x80 \<le> x \<and> 0x80 \<le> y" "seq3 x y z \<Longrightarrow> 0x80 \<le> x \<and> 0x80 \<le> y \<and> 0x80 \<le> z"
  "seq4 x y z u \<Longrightarrow> 0x80 \<le> x \<and> 0x80 \<le> y \<and> 0x80 \<le> z \<and> 0x80 \<le> u"
  by (auto simp: seq2_def seq3_def seq4_def within_def split: if_splits)

text \<open>A valid rune of several bytes is read back whatever follows it, and encodes to its bytes.\<close>

lemma valid_rune:
  assumes "DecodeRune (a # s) = (r, k)" "\<not> byte_of a < 0x80" "\<not> (r = RuneError \<and> k = 1)"
  shows "take k (a # s) = a # take (k - 1) s" "DecodeRune (a # take (k - 1) s @ t) = (r, k)"
    "EncodeRune r = a # take (k - 1) s" "length (take (k - 1) s) = k - 1"
    "\<forall>c \<in> set (take k (a # s)). 0x80 \<le> byte_of c"
  by (rule DecodeRune_cases [OF assms]; insert assms(2);
      auto simp: DecodeRune_def seq_exclusive EncodeRune2 EncodeRune3 EncodeRune4 dest: seq_high)+

lemma hex_digit_code: "n < 16 \<Longrightarrow> byte_of (hex_digit n) = (if n < 10 then 48 + n else 87 + n)"
  by (simp add: hex_digit_def byte_of_def)

lemma hex_digit_val [simp]: "n < 16 \<Longrightarrow> is_hex (hex_digit n) \<and> hex_val (hex_digit n) = n"
  by (auto simp: is_hex_def is_digit_def hex_val_def hex_digit_code)

lemma getu4_hex4:
  assumes "n < 0x10000"
  shows "getu4 (backslash # CHR ''u'' # hex4 n @ t) = Some n" "list_all is_hex (hex4 n)" "length (hex4 n) = 4"
proof -
  have "((n div 4096 mod 16 * 16 + n div 256 mod 16) * 16 + n div 16 mod 16) * 16 + n mod 16 = n"
  proof -
    have "n div 4096 = n div 256 div 16" "n div 256 = n div 16 div 16" by (simp_all add: div_mult2_eq [symmetric])
    moreover have "n div 4096 < 16" using assms by (simp add: less_mult_imp_div_less)
    ultimately show ?thesis by (metis div_mult_mod_eq mod_less)
  qed
  then show "getu4 (backslash # CHR ''u'' # hex4 n @ t) = Some n"
    by (simp add: getu4_def hex4_def del: mod_less)
qed (simp_all add: hex4_def)


text \<open>One byte below \<open>0x80\<close>, escaped and read back.\<close>

lemma encode_byte_cases:
  obtains (plain) "encode_byte c = [c]" "c \<noteq> quote" "c \<noteq> backslash" "0x20 \<le> byte_of c"
  | (short) e where "encode_byte c = [backslash, e]" "e \<in> set simple_escapes" "e \<noteq> CHR ''u''" "escape_char e = c"
  | (long) "encode_byte c = backslash # CHR ''u'' # hex4 (byte_of c)"
proof -
  consider "c = quote" | "c = backslash" | "c = CHR 0x08" | "c = CHR 0x0C" | "c = CHR 0x0A" | "c = CHR 0x0D"
    | "c = CHR 0x09" | "byte_of c < 0x20 \<or> c = CHR ''<'' \<or> c = CHR ''>'' \<or> c = CHR ''&''"
      "c \<notin> {quote, backslash, CHR 0x08, CHR 0x0C, CHR 0x0A, CHR 0x0D, CHR 0x09}"
    | "\<not> byte_of c < 0x20" "c \<notin> {CHR ''<'', CHR ''>'', CHR ''&'', quote, backslash, CHR 0x08, CHR 0x0C, CHR 0x0A,
        CHR 0x0D, CHR 0x09}"
    by blast
  then show thesis
  proof cases
    case 8
    then show thesis using long by (simp add: encode_byte_def)
  next
    case 9
    then show thesis using plain by (simp add: encode_byte_def)
  qed (use short in \<open>simp add: encode_byte_def simple_escapes_def escape_char_def\<close>)+
qed

lemma scan_string_escape4:
  assumes "n < 0x10000"
  shows "scan_string (backslash # CHR ''u'' # hex4 n @ t) = scan_string t"
  using getu4_hex4(2,3) [OF assms] by (simp add: scan_escape_def)

lemma scan_string_byte: "byte_of c < 0x80 \<Longrightarrow> scan_string (encode_byte c @ t) = scan_string t"
  using scan_string_escape4 [of "byte_of c" t]
  by (cases c rule: encode_byte_cases) (simp_all add: scan_escape_def)

lemma scan_string_high: "\<forall>c \<in> set u. 0x80 \<le> byte_of c \<Longrightarrow> scan_string (u @ t) = scan_string t"
proof (induction u)
  case (Cons c u)
  then have "c \<noteq> quote" "c \<noteq> backslash" by (auto simp: byte_of_def)
  with Cons show ?case by simp
qed simp

lemma scan_encoded: "utf8_Valid s \<Longrightarrow> scan_string (encode_chars s @ quote # t) = Some t"
proof (induction s rule: utf8_Valid.induct)
  case (2 c s)
  show ?case
  proof (cases "byte_of c < 0x80")
    case True
    with 2 show ?thesis by (simp add: scan_string_byte)
  next
    case False
    obtain r k where d: "DecodeRune (c # s) = (r, k)" by fastforce
    with "2.prems" False have v: "\<not> (r = RuneError \<and> k = 1)" "utf8_Valid (drop (k - 1) s)" by simp_all
    have "scan_string (encode_chars (drop (k - 1) s) @ quote # t) = Some t"
      using "2.IH"(2) False d v(2) by simp
    moreover have "0x2028 < (0x10000 :: nat)" "0x2029 < (0x10000 :: nat)" by simp_all
    ultimately show ?thesis
      using False d v(1) scan_string_escape4 scan_string_high [OF valid_rune(5) [OF d False v(1)]]
      by auto
  qed
qed simp

lemma unquote_byte: "byte_of c < 0x80 \<Longrightarrow> unquote (encode_byte c @ t) = c # unquote t"
proof (cases c rule: encode_byte_cases)
  case long
  assume a: "byte_of c < 0x80"
  have g: "getu4 (backslash # CHR ''u'' # hex4 (byte_of c) @ t) = Some (byte_of c)" "length (hex4 (byte_of c)) = 4"
    using getu4_hex4 [of "byte_of c"] a by simp_all
  have "EncodeRune (byte_of c) = [c]" "\<not> surrogate (byte_of c)"
    using a by (simp_all add: EncodeRune_def within_def surrogate_def)
  with g long show ?thesis by simp
qed simp_all

lemma unquote_encoded: "utf8_Valid s \<Longrightarrow> unquote (encode_chars s) = s"
proof (induction s rule: utf8_Valid.induct)
  case (2 c s)
  show ?case
  proof (cases "byte_of c < 0x80")
    case True
    with 2 show ?thesis by (simp add: unquote_byte)
  next
    case False
    obtain r k where d: "DecodeRune (c # s) = (r, k)" by fastforce
    with "2.prems" False have v: "\<not> (r = RuneError \<and> k = 1)" "utf8_Valid (drop (k - 1) s)" by simp_all
    have IH: "unquote (encode_chars (drop (k - 1) s)) = drop (k - 1) s"
      using "2.IH"(2) False d v(2) by simp
    note rune = valid_rune [OF d False v(1)]
    have nb: "c \<noteq> backslash" using False by (auto simp: byte_of_def)
    show ?thesis
    proof (cases "r = 0x2028 \<or> r = 0x2029")
      case True
      then have "r < 0x10000" "\<not> surrogate r" by (auto simp: surrogate_def within_def)
      with True False d v IH rune getu4_hex4(1) [of r "encode_chars (drop (k - 1) s)"] getu4_hex4(3) [of r]
      show ?thesis by auto
    next
      case u: False
      have "unquote (c # take (k - 1) s @ encode_chars (drop (k - 1) s)) = EncodeRune r @ unquote (encode_chars (drop (k - 1) s))"
        using False nb rune(2) [of "encode_chars (drop (k - 1) s)"] rune(4) by simp
      with u False d v IH rune show ?thesis by auto
    qed
  qed
qed simp

end
