(* ===== verification/Json_Times.thy ===== *)
theory Json_Times
  imports Json_Roundtrip
begin

text \<open>
  Integers and times survive printing: decimal numerals, the calendar and RFC 3339.
\<close>

section \<open>Decimal numerals\<close>

lemma digits_val_snoc: "digits_val (s @ [c]) = 10 * digits_val s + (of_char c - 48)"
  by (simp add: digits_val_def)

lemma digits_val_append: "digits_val (s @ t) = digits_val s * 10 ^ length t + digits_val t"
proof (induction t rule: rev_induct)
  case (snoc c t)
  then have "digits_val ((s @ t) @ [c]) = 10 * (digits_val s * 10 ^ length t + digits_val t) + (of_char c - 48)"
    by (simp only: digits_val_snoc)
  then show ?case by (simp add: digits_val_snoc algebra_simps)
qed (simp add: digits_val_def)

lemma digit_char:
  assumes "0 \<le> n" "n < 10"
  shows "is_digit (char_of (48 + n))" "(of_char (char_of (48 + n) :: char) :: int) = 48 + n"
proof -
  show "(of_char (char_of (48 + n) :: char) :: int) = 48 + n" using assms by simp
  have "int (byte_of (char_of (48 + n))) = of_char (char_of (48 + n) :: char)"
    by (simp only: byte_of_def of_nat_of_char)
  also have "\<dots> = 48 + n" using assms by simp
  finally show "is_digit (char_of (48 + n))" using assms by (simp add: is_digit_def)
qed

lemma pad_dec_length [simp]: "length (pad_dec k n) = k"
  by (induction k arbitrary: n) simp_all

lemma pad_dec_digits: "0 \<le> n \<Longrightarrow> list_all is_digit (pad_dec k n)"
  by (induction k arbitrary: n) (simp_all add: digit_char)

lemma pad_dec_val: "0 \<le> n \<Longrightarrow> n < 10 ^ k \<Longrightarrow> digits_val (pad_dec k n) = n"
proof (induction k arbitrary: n)
  case (Suc k)
  have "10 * (n div 10) \<le> n" by simp
  with Suc.prems(2) have "n div 10 < 10 ^ k" unfolding power_Suc by linarith
  moreover have "0 \<le> n div 10" using Suc.prems(1) by simp
  ultimately have "digits_val (pad_dec k (n div 10)) = n div 10" by (rule Suc.IH [rotated])
  then show ?case by (simp add: digits_val_snoc digit_char)
qed (simp add: digits_val_def)

lemma parse_uint_pad [simp]:
  "0 < k \<Longrightarrow> 0 \<le> n \<Longrightarrow> n < 10 ^ k \<Longrightarrow> lo \<le> n \<Longrightarrow> n \<le> hi \<Longrightarrow> parse_uint (pad_dec k n) lo hi = Some n"
  using pad_dec_length [of k n] pad_dec_digits [of n k] pad_dec_val [of n k]
  by (auto simp: parse_uint_def parse_digits_def simp del: pad_dec_length)

lemma nat_dec_digits: "list_all is_digit (nat_dec n)" "digits_val (nat_dec n) = int n"
proof (induction n rule: nat_dec.induct)
  case (1 n)
  have c: "is_digit (char_of (48 + m))" "(of_char (char_of (48 + m) :: char) :: int) = 48 + int m" if "m < 10" for m :: nat
  proof -
    have "(char_of (48 + int m) :: char) = char_of (48 + m)"
      by (metis char_of_nat of_nat_add of_nat_numeral)
    then show "is_digit (char_of (48 + m))" "(of_char (char_of (48 + m) :: char) :: int) = 48 + int m"
      using digit_char [of "int m"] that by auto
  qed
  {
    case 1
    then show ?case using "1.IH"(1) c [of n] c [of "n mod 10"] by (subst nat_dec.simps) auto
  next
    case 2
    have "int (10 * (n div 10) + n mod 10) = int n" by (simp only: mult_div_mod_eq)
    then have "10 * int (n div 10) + int (n mod 10) = int n" by (simp only: of_nat_add of_nat_mult of_nat_numeral)
    then show ?case
      using "1.IH"(2) c [of n] c [of "n mod 10"]
      by (subst nat_dec.simps) (auto simp: digits_val_snoc digits_val_def [of "[_]"])
  }
qed

lemma dec_int64_itoa:
  assumes "- (2 ^ 63) \<le> n" "n < 2 ^ 63"
  shows "dec_int64 old (itoa n) = Some n"
proof (cases "n < 0")
  case True
  have "parse_digits (nat_dec (nat (- n))) = Some (- n)"
    using nat_dec_digits [of "nat (- n)"] True by (simp add: parse_digits_def)
  with True assms show ?thesis by (simp add: dec_int64_def itoa_def)
next
  case False
  obtain c cs where s: "nat_dec (nat n) = c # cs" by (cases "nat_dec (nat n)") auto
  have "parse_digits (nat_dec (nat n)) = Some n"
    using nat_dec_digits [of "nat n"] False by (simp add: parse_digits_def)
  moreover have "is_digit c" using nat_dec_digits(1) [of "nat n"] s by simp
  then have "c \<noteq> CHR ''n''" by (auto simp: is_digit_def byte_of_def)
  ultimately show ?thesis
    using False assms s nat_dec_no_sign [OF s] by (simp add: dec_int64_def itoa_def)
qed

lemma nat_dec_hd: "0 < n \<Longrightarrow> hd (nat_dec n) \<noteq> CHR ''0''"
proof (induction n rule: nat_dec.induct)
  case (1 n)
  show ?case
  proof (cases "n < 10")
    case True
    have "char_of (48 + n) \<noteq> CHR ''0''"
    proof
      assume "char_of (48 + n) = CHR ''0''"
      then have "(of_char (char_of (48 + n) :: char) :: nat) = of_char (CHR ''0'')" by simp
      with True 1 show False by simp
    qed
    with True show ?thesis by (subst nat_dec.simps) simp
  next
    case False
    with 1 show ?thesis by (subst nat_dec.simps) (simp add: hd_append)
  qed
qed

lemma dropWhile_digits: "list_all is_digit s \<Longrightarrow> delim t \<Longrightarrow> dropWhile is_digit (s @ t) = t"
  by (induction s) (auto simp: delim_def, cases t, auto)

lemma scan_int_nat_dec:
  assumes "delim t"
  shows "scan_int (nat_dec n @ t) = Some t"
proof (cases "n = 0")
  case True
  have "nat_dec 0 = ''0''" by code_simp
  with True show ?thesis by (simp add: scan_int_def)
next
  case False
  obtain c cs where s: "nat_dec n = c # cs" by (cases "nat_dec n") auto
  have "c \<noteq> CHR ''0''" "is_digit c" "list_all is_digit cs"
    using nat_dec_hd [of n] nat_dec_digits(1) [of n] s False by simp_all
  with s dropWhile_digits [OF _ assms, of cs] show ?thesis
    by (simp add: scan_int_def scan_digits_def)
qed

lemma scan_json_number:
  assumes "scan_number (c # s) = Some r" "c = CHR ''-'' \<or> is_digit c"
  shows "scan_json (c # s) = Some r"
proof -
  have "c \<noteq> CHR ''{''" "c \<noteq> CHR ''[''" "c \<noteq> quote" using assms(2) by (auto simp: is_digit_def byte_of_def)
  with assms have "scan_value (Suc 0) max_depth (c # s) = Some r"
    unfolding scan_value_Suc by (auto simp: scan_atom_def)
  then show ?thesis unfolding scan_json_iff ..
qed

lemma scan_itoa:
  assumes "delim t"
  shows "scan_json (itoa n @ t) = Some t"
proof -
  have tail: "scan_frac t = Some t" "scan_exp t = Some t"
    using assms by (auto simp: scan_frac_def scan_exp_def delim_def split: list.split)
  show ?thesis
  proof (cases "n < 0")
    case True
    then have "scan_number (CHR ''-'' # nat_dec (nat (- n)) @ t) = Some t"
      using scan_int_nat_dec [OF assms] tail by (simp add: scan_number_def)
    from scan_json_number [OF this] True show ?thesis by (simp add: itoa_def)
  next
    case False
    obtain c cs where s: "nat_dec (nat n) = c # cs" by (cases "nat_dec (nat n)") auto
    have c: "c \<noteq> CHR ''-''" "is_digit c" using nat_dec_no_sign [OF s] nat_dec_digits(1) [of "nat n"] s by simp_all
    have "scan_number (c # cs @ t) = Some t"
      using scan_int_nat_dec [OF assms, of "nat n"] tail c(1) s by (simp add: scan_number_def)
    from scan_json_number [OF this] c False s show ?thesis by (simp add: itoa_def)
  qed
qed

section \<open>The calendar\<close>

lemma div_bounds:
  fixes x k :: int
  assumes "0 < k"
  shows "k * (x div k) \<le> x" "x < k * (x div k) + k"
  using pos_mod_sign [OF assms, of x] pos_mod_bound [OF assms, of x] mult_div_mod_eq [of k x] by linarith+

lemma days_before_bounds:
  "400 * days_before y \<le> 146097 * y + 699" "146097 * y - 396 \<le> 400 * days_before y"
proof -
  have "4 * ((y + 3) div 4) \<le> y + 3" "y \<le> 4 * ((y + 3) div 4)"
    "100 * ((y + 99) div 100) \<le> y + 99" "y \<le> 100 * ((y + 99) div 100)"
    "400 * ((y + 399) div 400) \<le> y + 399" "y \<le> 400 * ((y + 399) div 400)"
    using div_bounds [of 4 "y + 3"] div_bounds [of 100 "y + 99"] div_bounds [of 400 "y + 399"] by linarith+
  then show "400 * days_before y \<le> 146097 * y + 699" "146097 * y - 396 \<le> 400 * days_before y"
    by (simp_all add: days_before_def)
qed

lemma year_of_bounds: "days_before (year_of d) \<le> d" "d < days_before (year_of d + 1)"
proof -
  define y where "y = 400 * d div 146097"
  have y: "146097 * y \<le> 400 * d" "400 * d < 146097 * (y + 1)"
    using div_bounds [of 146097 "400 * d"] by (simp_all add: y_def)
  have "400 * days_before (y - 1) \<le> 400 * d" "400 * d < 400 * days_before (y + 2)"
    using days_before_bounds(1) [of "y - 1"] days_before_bounds(2) [of "y + 2"] y by (simp_all add: algebra_simps)
  then have b: "days_before (y - 1) \<le> d" "d < days_before (y + 2)" by simp_all
  have "y + 1 + 1 = y + 2" "y - 1 + 1 = y" by simp_all
  with b show "days_before (year_of d) \<le> d" "d < days_before (year_of d + 1)"
    by (auto simp: year_of_def Let_def y_def [symmetric] add.commute)
qed

lemma div_step:
  fixes n k :: int
  assumes "0 < k" "m = k - 1"
  shows "(n + k) div k - (n + m) div k = (if n mod k = 0 then 1 else 0)"
proof -
  define q r where "q = n div k" and "r = n mod k"
  have n: "n = k * q + r" "0 \<le> r" "r < k" using assms by (simp_all add: q_def r_def)
  have a: "(n + k) div k = q + 1"
    by (rule int_div_pos_eq [of _ _ _ r]) (use n in \<open>simp_all add: algebra_simps\<close>)
  show ?thesis
  proof (cases "r = 0")
    case True
    have "(n + m) div k = q"
      by (rule int_div_pos_eq [of _ _ _ "k - 1"]) (use n True assms in simp_all)
    with a True show ?thesis by (simp add: r_def)
  next
    case False
    have "(n + m) div k = q + 1"
      by (rule int_div_pos_eq [of _ _ _ "r - 1"]) (use n False assms in \<open>simp_all add: algebra_simps\<close>)
    with a False show ?thesis by (simp add: r_def)
  qed
qed

lemma year_length: "days_before (y + 1) - days_before y = sum_list (month_days y)"
proof -
  have m: "y mod 400 = 0 \<Longrightarrow> y mod 100 = 0" "y mod 100 = 0 \<Longrightarrow> y mod 4 = 0"
    unfolding mod_eq_0_iff_dvd using dvd_trans [of 100 400 y] dvd_trans [of 4 100 y] by simp_all
  have e: "days_before (y + 1) - days_before y = 365 + ((y + 4) div 4 - (y + 3) div 4) -
      ((y + 100) div 100 - (y + 99) div 100) + ((y + 400) div 400 - (y + 399) div 400)"
    by (simp add: days_before_def add.assoc)
  have s: "sum_list (month_days y) = (if leap y then 366 else 365)" by (simp add: month_days_def)
  have d: "(y + 4) div 4 - (y + 3) div 4 = (if y mod 4 = 0 then 1 else 0)"
    "(y + 100) div 100 - (y + 99) div 100 = (if y mod 100 = 0 then 1 else 0)"
    "(y + 400) div 400 - (y + 399) div 400 = (if y mod 400 = 0 then 1 else 0)"
    by (rule div_step; simp)+
  have "(365 + (if a then 1 else 0) - (if b then 1 else 0) + (if c then 1 else 0) :: int) =
      (if a \<and> (\<not> b \<or> c) then 366 else 365)" if "c \<Longrightarrow> b" "b \<Longrightarrow> a" for a b c
    by (cases a; cases b; cases c) (use that in simp_all)
  from this [OF m] show ?thesis unfolding e s leap_def d .
qed

lemma month_of_spec:
  assumes "0 \<le> r" "r < sum_list ks"
  shows "\<exists>i < length ks. month_of m ks r = (m + int i, r - sum_list (take i ks) + 1) \<and>
    0 \<le> r - sum_list (take i ks) \<and> r - sum_list (take i ks) < ks ! i"
  using assms
proof (induction ks arbitrary: m r)
  case (Cons k ks)
  show ?case
  proof (cases "r < k")
    case True
    with Cons.prems show ?thesis by (intro exI [of _ 0]) simp
  next
    case False
    with Cons.prems Cons.IH [of "r - k" "m + 1"] obtain i where
      "i < length ks" "month_of (m + 1) ks (r - k) = (m + 1 + int i, r - k - sum_list (take i ks) + 1)"
      "0 \<le> r - k - sum_list (take i ks)" "r - k - sum_list (take i ks) < ks ! i" by auto
    with False show ?thesis by (intro exI [of _ "Suc i"]) simp
  qed
qed simp

lemma civil_spec:
  assumes "civil n = (y, m, d)"
  shows "day_number y m d = n" "1 \<le> m" "m \<le> 12" "1 \<le> d" "d \<le> month_days y ! nat (m - 1)" "y = year_of n"
proof -
  have y: "y = year_of n" and md: "month_of 1 (month_days y) (n - days_before y) = (m, d)"
    using assms by (auto simp: civil_def Let_def split: prod.splits)
  have "0 \<le> n - days_before y" "n - days_before y < sum_list (month_days y)"
    using year_of_bounds [of n] year_length [of y] unfolding y by simp_all
  from month_of_spec [OF this, of 1] md obtain i where
    i: "i < length (month_days y)" "m = 1 + int i" "d = n - days_before y - sum_list (take i (month_days y)) + 1"
      "0 \<le> n - days_before y - sum_list (take i (month_days y))"
      "n - days_before y - sum_list (take i (month_days y)) < month_days y ! i" by auto
  have l: "length (month_days y) = 12" by (simp add: month_days_def)
  have "nat (m - 1) = i" using i(2) by simp
  with i l show "day_number y m d = n" "1 \<le> m" "m \<le> 12" "1 \<le> d" "d \<le> month_days y ! nat (m - 1)"
    by (simp_all add: day_number_def)
  show "y = year_of n" by (rule y)
qed

lemma month_days_le: "nat (m - 1) < 12 \<Longrightarrow> month_days y ! nat (m - 1) \<le> 31"
proof -
  assume a: "nat (m - 1) < 12"
  have "\<forall>x \<in> set (month_days y). x \<le> 31" by (simp add: month_days_def)
  moreover have "month_days y ! nat (m - 1) \<in> set (month_days y)"
    using a by (intro nth_mem) (simp add: month_days_def)
  ultimately show ?thesis by blast
qed

section \<open>RFC 3339\<close>

lemma trim_zeros_split: "\<exists>k. s = trim_zeros s @ replicate k (CHR ''0'')"
proof -
  have "rev s = takeWhile (\<lambda>c. c = CHR ''0'') (rev s) @ dropWhile (\<lambda>c. c = CHR ''0'') (rev s)" by simp
  then have "s = rev (dropWhile (\<lambda>c. c = CHR ''0'') (rev s)) @ rev (takeWhile (\<lambda>c. c = CHR ''0'') (rev s))"
    by (simp only: rev_append [symmetric] takeWhile_dropWhile_id rev_rev_ident)
  moreover have "rev (takeWhile (\<lambda>c. c = CHR ''0'') (rev s)) =
      replicate (length (takeWhile (\<lambda>c. c = CHR ''0'') (rev s))) (CHR ''0'')"
    by (rule replicate_eqI) (auto dest: set_takeWhileD)
  ultimately show ?thesis unfolding trim_zeros_def by metis
qed

lemma digits_val_zeros [simp]: "digits_val (replicate k (CHR ''0'')) = 0"
  by (induction k) (simp_all add: digits_val_def)

text \<open>The printed fraction is read back, whatever zeros were dropped.\<close>

lemma parse_frac_trim:
  assumes "0 < f" "f < second"
  shows "parse_frac (CHR ''.'' # trim_zeros (pad_dec 9 f) @ ''Z'') = (f, ''Z'')"
proof -
  define p where "p = trim_zeros (pad_dec 9 f)"
  obtain k where k: "pad_dec 9 f = p @ replicate k (CHR ''0'')"
    using trim_zeros_split [of "pad_dec 9 f"] by (auto simp: p_def)
  have d: "list_all is_digit p" using pad_dec_digits [of f 9] assms(1) k by simp
  have len: "length p + k = 9" using arg_cong [OF k, of length] by simp
  have val: "digits_val p * 10 ^ k = f"
    using arg_cong [OF k, of digits_val] pad_dec_val [of f 9] assms by (simp add: digits_val_append)
  have ne: "p \<noteq> []" using val assms(1) by (auto simp: digits_val_def)
  have z: "\<not> is_digit (CHR ''Z'')" by (simp add: is_digit_def byte_of_def)
  have "takeWhile is_digit (p @ ''Z'') = p" "dropWhile is_digit (p @ ''Z'') = ''Z''"
    using d z by (simp_all add: list_all_iff takeWhile_append2 dropWhile_append2)
  moreover have "take 9 p = p" "9 - length p = k" using len by simp_all
  moreover have "is_digit (hd p)" using d ne by (cases p) simp_all
  ultimately show ?thesis
    using ne d val by (simp add: parse_frac_def p_def [symmetric] parse_digits_def)
qed


lemma time_of_day:
  fixes ns :: int
  assumes "0 \<le> ns" "ns < one_day"
  shows "ns div hour * hour + ns mod hour div minute * minute + ns mod minute div second * second + ns mod second = ns"
    "0 \<le> ns div hour" "ns div hour \<le> 23" "0 \<le> ns mod hour div minute" "ns mod hour div minute \<le> 59"
    "0 \<le> ns mod minute div second" "ns mod minute div second \<le> 59"
proof -
  have "ns mod hour mod minute = ns mod minute" "ns mod minute mod second = ns mod second"
    by (rule mod_mod_cancel; simp)+
  with mult_div_mod_eq [of hour ns] mult_div_mod_eq [of minute "ns mod hour"]
    mult_div_mod_eq [of second "ns mod minute"]
  show "ns div hour * hour + ns mod hour div minute * minute + ns mod minute div second * second + ns mod second = ns"
    by linarith
  have b: "0 \<le> ns mod hour" "ns mod hour < hour" "0 \<le> ns mod minute" "ns mod minute < minute" by simp_all
  show "0 \<le> ns div hour" "0 \<le> ns mod hour div minute" "0 \<le> ns mod minute div second"
    using assms(1) b by (simp_all add: pos_imp_zdiv_nonneg_iff)
  show "ns div hour \<le> 23" using div_bounds(1) [of hour ns] assms(2) by linarith
  show "ns mod hour div minute \<le> 59" using div_bounds(1) [of minute "ns mod hour"] b by linarith
  show "ns mod minute div second \<le> 59" using div_bounds(1) [of second "ns mod minute"] b by linarith
qed

text \<open>Nineteen characters of date and time of day, then what is left.\<close>

lemma parse_time_fields:
  assumes "0 \<le> y" "y \<le> 9999" "1 \<le> m" "m \<le> 12" "1 \<le> d" "d \<le> month_days y ! nat (m - 1)"
    and "0 \<le> h" "h \<le> 23" "0 \<le> mi" "mi \<le> 59" "0 \<le> sec" "sec \<le> 59"
    and rest: "parse_frac r = (ns, ''Z'')"
  shows "parse_time (pad_dec 4 y @ CHR ''-'' # pad_dec 2 m @ CHR ''-'' # pad_dec 2 d @ CHR ''T'' # pad_dec 2 h @
      CHR '':'' # pad_dec 2 mi @ CHR '':'' # pad_dec 2 sec @ r) =
    Some ((day_number y m d - epoch_days) * one_day + h * hour + mi * minute + sec * second + ns)"
proof -
  have "nat (m - 1) < 12" using assms(4) by linarith
  then have "d \<le> 31" using month_days_le [of m y] assms(6) by linarith
  then have "parse_uint (pad_dec 4 y) 0 9999 = Some y" "parse_uint (pad_dec 2 m) 1 12 = Some m"
    "parse_uint (pad_dec 2 d) 1 (month_days y ! nat (m - 1)) = Some d" "parse_uint (pad_dec 2 h) 0 23 = Some h"
    "parse_uint (pad_dec 2 mi) 0 59 = Some mi" "parse_uint (pad_dec 2 sec) 0 59 = Some sec"
    using assms by (simp_all)
  then show ?thesis
    using rest by (simp add: parse_time_def slice_def nth_append parse_zone_def)
qed

lemma parse_frac_Z: "parse_frac ''Z'' = (0, ''Z'')"
  by (simp add: parse_frac_def)

lemma parse_format_time:
  assumes "marshal_time t = Some s"
  shows "parse_time s = Some t"
proof -
  obtain y m d where c: "civil (t div one_day + epoch_days) = (y, m, d)" by (cases "civil (t div one_day + epoch_days)")
  with assms have y: "0 \<le> y" "y \<le> 9999" and s: "s = format_time t"
    by (auto simp: marshal_time_def split: if_splits)
  define ns where "ns = t mod one_day"
  have ns: "0 \<le> ns" "ns < one_day" by (simp_all add: ns_def)
  define r where "r = (if ns mod second = 0 then [] else ''.'' @ trim_zeros (pad_dec 9 (ns mod second))) @ ''Z''"
  have r: "parse_frac r = (ns mod second, ''Z'')"
  proof (cases "ns mod second = 0")
    case False
    then have "0 < ns mod second" using pos_mod_sign [of second ns] by simp
    with parse_frac_trim [of "ns mod second"] False show ?thesis by (simp add: r_def)
  qed (simp add: r_def parse_frac_Z)
  have fmt: "format_time t = pad_dec 4 y @ CHR ''-'' # pad_dec 2 m @ CHR ''-'' # pad_dec 2 d @ CHR ''T'' #
      pad_dec 2 (ns div hour) @ CHR '':'' # pad_dec 2 (ns mod hour div minute) @ CHR '':'' #
      pad_dec 2 (ns mod minute div second) @ r"
    by (simp add: format_time_def c ns_def [symmetric] r_def Let_def)
  have days: "day_number y m d - epoch_days = t div one_day"
    unfolding civil_spec(1) [OF c] by (rule add_diff_cancel_right')
  have "t div one_day * one_day + (ns div hour * hour + ns mod hour div minute * minute +
      ns mod minute div second * second + ns mod second) = t"
    unfolding time_of_day(1) [OF ns] unfolding ns_def by (rule div_mult_mod_eq)
  then have "t div one_day * one_day + ns div hour * hour + ns mod hour div minute * minute +
      ns mod minute div second * second + ns mod second = t"
    by (simp only: add.assoc)
  with parse_time_fields [OF y civil_spec(2-5) [OF c] time_of_day(2-7) [OF ns] r]
  show ?thesis unfolding s fmt days by (simp only:)
qed

end
