(* ===== verification/Json_Job.thy ===== *)
theory Json_Job
  imports Json_Times Redis_Adapters
begin

text \<open>
  The job on the wire: the members of a printed object are its fields, and a job whose strings are
  valid UTF-8 and whose payload is one compact JSON value is decoded from its own encoding.
\<close>

declare encode_chars.simps [simp del] unquote.simps [simp del] utf8_Valid.simps [simp del]

section \<open>Texts of single values\<close>

text \<open>A text that is one value at any place inside an object.\<close>

definition token :: "string \<Rightarrow> bool" where
  "token s \<longleftrightarrow> s \<noteq> [] \<and> \<not> is_ws (hd s) \<and> (\<exists>n. \<forall>t. delim t \<longrightarrow> scan_value n (max_depth - 1) (s @ t) = Some t)"

lemma scan_depth_all:
  "(\<forall>d s r e. scan_value n d s = Some r \<longrightarrow> d \<le> e \<longrightarrow> scan_value n e s = Some r) \<and>
   (\<forall>d s r e. scan_members n d s = Some r \<longrightarrow> d \<le> e \<longrightarrow> scan_members n e s = Some r) \<and>
   (\<forall>d s r e. scan_elems n d s = Some r \<longrightarrow> d \<le> e \<longrightarrow> scan_elems n e s = Some r)"
proof (induction n)
  case (Suc n)
  then have IH: "\<And>d s r e. scan_value n d s = Some r \<Longrightarrow> d \<le> e \<Longrightarrow> scan_value n e s = Some r"
    "\<And>d s r e. scan_members n d s = Some r \<Longrightarrow> d \<le> e \<Longrightarrow> scan_members n e s = Some r"
    "\<And>d s r e. scan_elems n d s = Some r \<Longrightarrow> d \<le> e \<Longrightarrow> scan_elems n e s = Some r" by blast+
  have v: "scan_value (Suc n) e s = Some r" if a: "scan_value (Suc n) d s = Some r" and b: "d \<le> e" for d s r e
  proof -
    have "d - 1 \<le> e - 1" "0 < d \<Longrightarrow> 0 < e" using b by simp_all
    with a IH(2,3) [of "d - 1" _ r "e - 1"] show ?thesis
      unfolding scan_value_Suc by (fastforce split: if_splits)
  qed
  have m: "scan_members (Suc n) e s = Some r" if "scan_members (Suc n) d s = Some r" "d \<le> e" for d s r e
    using that IH(1,2) unfolding scan_members_Suc by blast
  have e: "scan_elems (Suc n) e s = Some r" if "scan_elems (Suc n) d s = Some r" "d \<le> e" for d s r e
    using that IH(1,3) unfolding scan_elems_Suc by blast
  from v m e show ?case by blast
qed simp

lemma token_scan: "token s \<Longrightarrow> delim t \<Longrightarrow> scan_json (s @ t) = Some t"
  unfolding token_def scan_json_iff using scan_depth_all diff_le_self [of max_depth 1] by blast

text \<open>A text the recogniser passes at one level below the limit.\<close>

definition inner_value :: "string \<Rightarrow> bool" where
  "inner_value s \<longleftrightarrow> scan_value (2 * length s + 2) (max_depth - 1) s = Some []"

lemma scan_not_ws:
  assumes "scan_value n d s = Some r"
  shows "s \<noteq> [] \<and> \<not> is_ws (hd s)"
proof -
  from assms obtain m where n: "n = Suc m" by (cases n) auto
  with assms obtain c s1 where s: "s = c # s1" unfolding n scan_value_Suc by blast
  have "\<not> is_ws c"
  proof
    assume "is_ws c"
    then have "c \<noteq> CHR ''{''" "c \<noteq> CHR ''[''" "scan_atom s = None"
      unfolding s is_ws_def by (elim disjE; simp add: scan_atom_def is_digit_def byte_of_def)+
    with assms show False unfolding n scan_value_Suc s by simp
  qed
  with s show ?thesis by simp
qed

lemma token_inner:
  assumes "inner_value s"
  shows "token s"
proof -
  have "\<forall>t. delim t \<longrightarrow> scan_value (2 * length s + 2) (max_depth - 1) (s @ t) = Some ([] @ t)"
    using assms scan_append_all unfolding inner_value_def by blast
  with scan_not_ws [OF assms [unfolded inner_value_def]] show ?thesis
    unfolding token_def append_Nil by blast
qed

lemma token_atom:
  assumes "\<And>t. delim t \<Longrightarrow> scan_atom (s @ t) = Some t" "s \<noteq> []" "hd s \<noteq> CHR ''{''" "hd s \<noteq> CHR ''[''"
  shows "token s"
proof -
  have v: "scan_value (Suc 0) (max_depth - 1) (s @ t) = Some t" if "delim t" for t
    using assms(1) [OF that] assms(2-4) unfolding scan_value_Suc by (cases s) auto
  have "\<not> is_ws (hd s)" using scan_not_ws [OF v [of "[]"]] by simp
  with v assms(2) show ?thesis unfolding token_def by blast
qed

lemma token_string: "utf8_Valid s \<Longrightarrow> token (encode_string s)"
  by (rule token_atom) (simp_all add: encode_string_def scan_atom_def scan_encoded)

lemma scan_atom_number: "c = CHR ''-'' \<or> is_digit c \<Longrightarrow> scan_atom (c # s) = scan_number (c # s)"
  by (auto simp: scan_atom_def is_digit_def byte_of_def)

lemma scan_number_itoa:
  assumes "delim t"
  shows "scan_number (itoa n @ t) = Some t"
proof -
  have tail: "scan_frac t = Some t" "scan_exp t = Some t"
    using assms by (auto simp: scan_frac_def scan_exp_def delim_def split: list.split)
  obtain c cs where s: "nat_dec (nat n) = c # cs" by (cases "nat_dec (nat n)") auto
  show ?thesis
    using scan_int_nat_dec [OF assms, of "nat n"] scan_int_nat_dec [OF assms, of "nat (- n)"] tail
      nat_dec_no_sign [OF s] s
    by (auto simp: itoa_def scan_number_def)
qed

lemma itoa_hd: "hd (itoa n) = CHR ''-'' \<or> is_digit (hd (itoa n))"
  using nat_dec_digits(1) [of "nat n"] by (cases "nat_dec (nat n)") (auto simp: itoa_def)

lemma token_itoa: "token (itoa n)"
proof (rule token_atom)
  obtain c cs where s: "itoa n = c # cs" by (cases "itoa n") auto
  show "scan_atom (itoa n @ t) = Some t" if "delim t" for t
    using scan_number_itoa [OF that, of n] scan_atom_number [of c] itoa_hd [of n] s by simp
  show "hd (itoa n) \<noteq> CHR ''{''" "hd (itoa n) \<noteq> CHR ''[''"
    using itoa_hd [of n] by (auto simp: is_digit_def byte_of_def)
qed simp

text \<open>Times contain no byte that ends or escapes a string.\<close>

definition plain_char :: "char \<Rightarrow> bool" where
  "plain_char c \<longleftrightarrow> c \<noteq> quote \<and> c \<noteq> backslash \<and> 0x20 \<le> byte_of c"

lemma scan_string_plain: "list_all plain_char s \<Longrightarrow> scan_string (s @ t) = scan_string t"
  by (induction s) (simp_all add: plain_char_def)

lemma digit_plain: "is_digit c \<Longrightarrow> plain_char c"
  by (auto simp: is_digit_def plain_char_def byte_of_def)

lemma pad_dec_plain: "list_all plain_char (pad_dec k n)"
  by (induction k arbitrary: n) (simp_all add: digit_plain digit_char)

lemma trim_zeros_plain: "list_all plain_char s \<Longrightarrow> list_all plain_char (trim_zeros s)"
  by (auto simp: trim_zeros_def list_all_iff dest: set_dropWhileD)

lemma format_time_plain: "list_all plain_char (format_time t)"
proof -
  have "plain_char (CHR ''-'')" "plain_char (CHR ''T'')" "plain_char (CHR '':'')" "plain_char (CHR ''.'')"
    "plain_char (CHR ''Z'')"
    by (simp_all add: plain_char_def byte_of_def)
  then show ?thesis
    by (simp add: format_time_def Let_def case_prod_beta pad_dec_plain trim_zeros_plain)
qed

lemma token_time: "marshal_time t = Some s \<Longrightarrow> token (quote # s @ [quote])"
  using scan_string_plain [OF format_time_plain [of t]]
  by (intro token_atom) (auto simp: scan_atom_def marshal_time_def split: if_splits prod.splits)

section \<open>Objects\<close>

definition field_text :: "string \<times> string \<Rightarrow> string" where
  "field_text f = encode_string (fst f) @ '':'' @ snd f"

definition object_text :: "(string \<times> string) list \<Rightarrow> string" where
  "object_text fs = ''{'' @ commas (map field_text fs) @ ''}''"

definition good_field :: "string \<times> string \<Rightarrow> bool" where
  "good_field f \<longleftrightarrow> utf8_Valid (fst f) \<and> token (snd f)"

text \<open>The text from the first name to behind the closing brace.\<close>

fun fields_text :: "(string \<times> string) list \<Rightarrow> string \<Rightarrow> string" where
  "fields_text [] t = CHR ''}'' # t"
| "fields_text [f] t = field_text f @ CHR ''}'' # t"
| "fields_text (f # g # fs) t = field_text f @ CHR '','' # fields_text (g # fs) t"

lemma commas_fields: "fs \<noteq> [] \<Longrightarrow> commas (map field_text fs) @ CHR ''}'' # t = fields_text fs t"
  by (induction fs t rule: fields_text.induct) simp_all

lemma fields_text_hd: "fs \<noteq> [] \<Longrightarrow> \<exists>u. fields_text fs t = quote # u"
  by (cases fs; cases "tl fs") (auto simp: field_text_def encode_string_def)

lemma ws_simps [simp]: "\<not> is_ws (CHR '':'')" "\<not> is_ws (CHR '','')" "\<not> is_ws (CHR ''}'')" "\<not> is_ws quote"
  by (simp_all add: is_ws_def)

lemma skip_token: "token v \<Longrightarrow> skip_ws (v @ t) = v @ t"
  by (cases v) (auto simp: token_def)

text \<open>One field in front of a delimiter.\<close>

lemma members_field:
  assumes "good_field f" "c = CHR '','' \<or> c = CHR ''}''"
  shows "members (Suc n) (field_text f @ c # t) =
    (encode_chars (fst f), snd f) # (if c = CHR '','' then members n (skip_ws t) else [])"
proof -
  obtain k v where f: "f = (k, v)" by fastforce
  have g: "utf8_Valid k" "token v" using assms(1) f by (simp_all add: good_field_def)
  have d: "delim (c # t)" using assms(2) by auto
  have "\<not> is_ws c" using assms(2) by auto
  with scan_encoded [OF g(1), of "CHR '':'' # v @ c # t"] token_scan [OF g(2) d] skip_token [OF g(2), of "c # t"]
  show ?thesis by (simp add: f field_text_def encode_string_def)
qed

lemma members_fields:
  assumes "fs \<noteq> []" "list_all good_field fs" "length fs \<le> n"
  shows "members n (fields_text fs t) = map (\<lambda>f. (encode_chars (fst f), snd f)) fs"
  using assms
proof (induction fs t arbitrary: n rule: fields_text.induct)
  case (2 f t)
  then obtain m where "n = Suc m" by (cases n) auto
  with 2 members_field [of f "CHR ''}''" m t] show ?case by (simp del: members.simps)
next
  case (3 f g fs t)
  then obtain m where m: "n = Suc m" "length (g # fs) \<le> m" by (cases n) auto
  obtain u where u: "fields_text (g # fs) t = quote # u" using fields_text_hd [of "g # fs" t] by auto
  then have "skip_ws (fields_text (g # fs) t) = fields_text (g # fs) t" by simp
  with 3 m members_field [of f "CHR '',''" m "fields_text (g # fs) t"] show ?case by (simp del: members.simps)
qed simp

lemma scan_members_field:
  assumes "good_field f" "c = CHR '','' \<or> c = CHR ''}''"
  shows "\<exists>n. \<forall>m \<ge> n. scan_members (Suc m) (max_depth - 1) (field_text f @ c # t) =
    (if c = CHR '','' then scan_members m (max_depth - 1) (skip_ws t) else Some t)"
proof -
  obtain k v where f: "f = (k, v)" by fastforce
  have g: "utf8_Valid k" "token v" using assms(1) f by (simp_all add: good_field_def)
  have d: "delim (c # t)" "\<not> is_ws c" using assms(2) by auto
  from g(2) d(1) obtain n where "scan_value n (max_depth - 1) (v @ c # t) = Some (c # t)"
    unfolding token_def by blast
  then have "scan_value m (max_depth - 1) (v @ c # t) = Some (c # t)" if "n \<le> m" for m
    using scan_enough_all that by blast
  with scan_encoded [OF g(1), of "CHR '':'' # v @ c # t"] skip_token [OF g(2), of "c # t"] d(2) assms(2)
  show ?thesis by (intro exI [of _ n]) (auto simp: f field_text_def encode_string_def scan_members.simps(2))
qed

lemma scan_fields:
  assumes "fs \<noteq> []" "list_all good_field fs"
  shows "\<exists>n. scan_members n (max_depth - 1) (fields_text fs t) = Some t"
  using assms
proof (induction fs t rule: fields_text.induct)
  case (2 f t)
  then show ?case using scan_members_field [of f "CHR ''}''" t] by auto
next
  case (3 f g fs t)
  then obtain n where n: "scan_members n (max_depth - 1) (fields_text (g # fs) t) = Some t" by auto
  obtain k where k: "\<And>m. k \<le> m \<Longrightarrow> scan_members (Suc m) (max_depth - 1) (field_text f @ CHR '','' # fields_text (g # fs) t) =
      scan_members m (max_depth - 1) (skip_ws (fields_text (g # fs) t))"
    using scan_members_field [of f "CHR '',''" "fields_text (g # fs) t"] 3 by auto
  obtain u where "fields_text (g # fs) t = quote # u" using fields_text_hd [of "g # fs" t] by auto
  then have "skip_ws (fields_text (g # fs) t) = fields_text (g # fs) t" by simp
  moreover have "scan_members (max n k) (max_depth - 1) (fields_text (g # fs) t) = Some t"
    using n scan_enough_all by (metis max.cobounded1)
  ultimately show ?case using k [of "max n k"] by (metis fields_text.simps(3) max.cobounded2)
qed simp

lemma object_text_props:
  assumes "fs \<noteq> []" "list_all good_field fs"
  shows "scan_json (object_text fs) = Some []"
    "object_members (object_text fs) = map (\<lambda>f. (encode_chars (fst f), snd f)) fs"
proof -
  obtain u where u: "fields_text fs [] = quote # u" using fields_text_hd [OF assms(1)] by blast
  have o: "object_text fs = CHR ''{'' # quote # u"
    using commas_fields [OF assms(1), of "[]"] u by (simp add: object_text_def)
  obtain n where "scan_members n (max_depth - 1) (quote # u) = Some []"
    using scan_fields [OF assms, of "[]"] u by auto
  then have "scan_value (Suc n) max_depth (object_text fs) = Some []"
    unfolding scan_value_Suc o by simp
  then show "scan_json (object_text fs) = Some []" unfolding scan_json_iff ..
  have "length fs \<le> length (fields_text fs [])" by (induction fs "[] :: string" rule: fields_text.induct) simp_all
  then have "length fs \<le> length (object_text fs)" using o u by simp
  from members_fields [OF assms this, of "[]"] u
  show "object_members (object_text fs) = map (\<lambda>f. (encode_chars (fst f), snd f)) fs"
    by (simp add: object_members_def o del: members.simps)
qed

text \<open>Decoding an object that was printed from its fields.\<close>

lemma unmarshal_object:
  assumes "fs \<noteq> []" "list_all good_field fs"
  shows "unmarshal msg sts zero (object_text fs) =
    (case fold (set_member sts) (map (\<lambda>f. (encode_chars (fst f), snd f)) fs) (Some zero) of
       None \<Rightarrow> Inl (ErrorString (msg (object_text fs))) | Some x \<Rightarrow> Inr x)"
proof -
  have "\<not> is_ws (CHR ''{'')" by (simp add: is_ws_def)
  then have sk: "skip_ws (object_text fs) = object_text fs" by (simp add: object_text_def)
  have "hd (object_text fs) = CHR ''{''" by (simp add: object_text_def)
  moreover have "object_text fs \<noteq> ''null''" by (simp add: object_text_def)
  ultimately show ?thesis
    using object_text_props [OF assms] by (simp add: unmarshal_def json_valid_def sk Let_def)
qed


section \<open>Jobs\<close>

text \<open>
  A job that survives the queue: valid UTF-8, integers of 64 bits, times between the years 0 and
  9999, and a payload that is one value in compact form, at most 9999 levels deep.
\<close>

definition has_time :: "time \<Rightarrow> bool" where "has_time t \<longleftrightarrow> marshal_time t \<noteq> None"

text \<open>The times from 1970 to the year 9909.\<close>

lemma has_time_range:
  assumes "0 \<le> t" "t div one_day \<le> 2900000"
  shows "has_time t"
proof -
  define d where "d = t div one_day + epoch_days"
  have d: "719528 \<le> d" "d \<le> 3619528"
    using assms by (simp_all add: d_def epoch_days_def pos_imp_zdiv_nonneg_iff)
  have "0 \<le> year_of d"
    using d(1) year_of_bounds(2) [of d] days_before_bounds(1) [of "year_of d + 1"] by (simp add: distrib_left)
  moreover have "year_of d \<le> 9999"
    using d(2) year_of_bounds(1) [of d] days_before_bounds(2) [of "year_of d"] by linarith
  ultimately show ?thesis
    by (simp add: has_time_def marshal_time_def civil_def d_def [symmetric] Let_def case_prod_beta)
qed

definition fits64 :: "int \<Rightarrow> bool" where "fits64 n \<longleftrightarrow> - (2 ^ 63) \<le> n \<and> n < 2 ^ 63"

definition clean_job :: "Job \<Rightarrow> bool" where
  "clean_job j \<longleftrightarrow>
     list_all utf8_Valid [job_ID j, job_JobType j, job_Status j, job_Priority j, job_IdempotencyKey j,
       job_TraceID j, job_ErrorMessage j] \<and>
     fits64 (job_RetryCount j) \<and> fits64 (job_MaxRetries j) \<and>
     inner_value (job_Payload j) \<and> compact False (job_Payload j) = job_Payload j \<and>
     has_time (job_CreatedAt j) \<and> has_time (job_UpdatedAt j) \<and> (case job_ProcessedAt j of None \<Rightarrow> True | Some t \<Rightarrow> has_time t)"

definition time_text :: "time \<Rightarrow> string" where "time_text t = quote # the (marshal_time t) @ [quote]"

definition job_fields :: "Job \<Rightarrow> (string \<times> string) list" where
  "job_fields j =
     [(''id'', encode_string (job_ID j)), (''job_type'', encode_string (job_JobType j)),
      (''payload'', job_Payload j), (''status'', encode_string (job_Status j)),
      (''retry_count'', itoa (job_RetryCount j)), (''max_retries'', itoa (job_MaxRetries j)),
      (''priority'', encode_string (job_Priority j)),
      (''idempotency_key'', encode_string (job_IdempotencyKey j)), (''trace_id'', encode_string (job_TraceID j))] @
     (if job_ErrorMessage j = '''' then [] else [(''error_message'', encode_string (job_ErrorMessage j))]) @
     [(''created_at'', time_text (job_CreatedAt j)), (''updated_at'', time_text (job_UpdatedAt j))] @
     (case job_ProcessedAt j of None \<Rightarrow> [] | Some t \<Rightarrow> [(''processed_at'', time_text t)])"

lemma inner_valid:
  assumes "inner_value s"
  shows "s \<noteq> []" "json_valid s"
proof -
  from token_inner [OF assms] have t: "s \<noteq> []" "\<not> is_ws (hd s)" "scan_json s = Some []"
    using token_scan [of s "[]"] by (simp_all add: token_def)
  then show "s \<noteq> []" "json_valid s" using skip_ws_id [of s] by (simp_all add: json_valid_def)
qed

lemma all_right_Inr: "all_right (map Inr xs) = Inr xs"
  by (induction xs) simp_all

lemma encode_fields:
  assumes "\<And>f. f \<in> set fs \<Longrightarrow> json_encode msg (snd f) = Inr (g f)"
  shows "json_encode msg (JObj fs) = Inr (object_text (map (\<lambda>f. (fst f, g f)) fs))"
proof -
  have "map (\<lambda>(k, v). case json_encode msg v of Inl e \<Rightarrow> Inl e | Inr t \<Rightarrow> Inr (encode_string k @ '':'' @ t)) fs =
      map Inr (map (\<lambda>f. field_text (fst f, g f)) fs)"
    using assms by (auto simp: field_text_def)
  then show ?thesis
    unfolding json_encode.simps by (simp only: all_right_Inr sum.case) (simp add: object_text_def o_def)
qed

lemma encode_leaf:
  "json_encode msg (JStr s) = Inr (encode_string s)" "json_encode msg (JInt n) = Inr (itoa n)"
  "has_time t \<Longrightarrow> json_encode msg (JTime t) = Inr (time_text t)"
  "inner_value p \<Longrightarrow> compact False p = p \<Longrightarrow> json_encode msg (JRaw p) = Inr p"
  using inner_valid [of p] by (auto simp: has_time_def time_text_def)

lemma encode_job:
  assumes "clean_job j"
  shows "json_encode msg (job_tree j) = Inr (object_text (job_fields j))"
proof -
  define g where "g = (\<lambda>f :: string \<times> jtree. projr (json_encode msg (snd f)))"
  have p: "inner_value (job_Payload j)" "compact False (job_Payload j) = job_Payload j"
    and t: "has_time (job_CreatedAt j)" "has_time (job_UpdatedAt j)" "(case job_ProcessedAt j of None \<Rightarrow> True | Some t \<Rightarrow> has_time t)"
    using assms by (simp_all add: clean_job_def)
  note leaf = encode_leaf(1,2) [of msg] encode_leaf(3) [OF t(1), of msg] encode_leaf(3) [OF t(2), of msg]
    encode_leaf(4) [OF p, of msg]
  obtain fs where fs: "job_tree j = JObj fs" by (simp add: job_tree_def)
  have all: "\<forall>f \<in> set fs. json_encode msg (snd f) = Inr (g f)" and m: "map (\<lambda>f. (fst f, g f)) fs = job_fields j"
    using fs t(3) leaf encode_leaf(3) [of _ msg]
    by (auto simp: job_tree_def g_def omitempty_def job_fields_def simp del: json_encode.simps
        split: option.splits if_splits)
  from encode_fields [of fs msg g] all show ?thesis unfolding fs m by blast
qed

lemma token_time_text: "has_time t \<Longrightarrow> token (time_text t)"
  using token_time [of t] by (auto simp: has_time_def time_text_def)

lemma ascii_utf8: "list_all (\<lambda>c. byte_of c < 0x80) s \<Longrightarrow> utf8_Valid s"
  by (induction s) (simp_all add: utf8_Valid.simps)

lemma job_names_utf8: "list_all (\<lambda>k. list_all (\<lambda>c. byte_of c < 0x80) k) (map fst job_setters)"
  by (simp add: job_setters_def byte_of_def)

lemma job_fields_good:
  assumes "clean_job j"
  shows "list_all good_field (job_fields j)"
proof -
  have k: "fst f \<in> set (map fst job_setters)" if "f \<in> set (job_fields j)" for f
    using that by (auto simp: job_fields_def job_setters_def split: if_splits option.splits)
  have "utf8_Valid (fst f)" if "f \<in> set (job_fields j)" for f
    using k [OF that] job_names_utf8 ascii_utf8 by (auto simp: list_all_iff)
  moreover have "token (snd f)" if "f \<in> set (job_fields j)" for f
    using that assms token_string token_itoa token_inner token_time_text
    by (auto simp: job_fields_def clean_job_def split: if_splits option.splits)
  ultimately show ?thesis by (auto simp: list_all_iff good_field_def)
qed

lemma dec_string_encoded: "utf8_Valid s \<Longrightarrow> dec_string old (encode_string s) = Some s"
  by (simp add: dec_string_def encode_string_def unquote_encoded)

lemma dec_time_text:
  assumes "has_time t"
  shows "dec_time old (time_text t) = Some t"
proof -
  obtain s where s: "marshal_time t = Some s" using assms by (auto simp: has_time_def)
  have "time_text t = quote # s @ [quote]" by (simp add: time_text_def s)
  then show ?thesis using parse_format_time [OF s] by (simp add: dec_time_def)
qed

lemma dec_time_ptr_text: "has_time t \<Longrightarrow> dec_time_ptr old (time_text t) = Some (Some t)"
  using dec_time_text [of t 0] by (simp add: dec_time_ptr_def time_text_def)

lemma set_job_field:
  assumes "k \<in> set (map fst job_setters)"
  shows "set_member job_setters (encode_chars k, v) (Some x) = the (map_of job_setters k) v x"
proof -
  have "utf8_Valid k" using assms job_names_utf8 ascii_utf8 by (auto simp: list_all_iff)
  with assms show ?thesis by (simp add: set_member_def unquote_encoded field_of_def)
qed

lemma dec_int64_fits: "fits64 n \<Longrightarrow> dec_int64 old (itoa n) = Some n"
  unfolding fits64_def by (rule dec_int64_itoa) simp_all

text \<open>What each member of an encoded job does to the job that is being decoded.\<close>

lemma job_member:
  "utf8_Valid v \<Longrightarrow> set_member job_setters (encode_chars ''id'', encode_string v) (Some x) = Some (x\<lparr>job_ID := v\<rparr>)"
  "utf8_Valid v \<Longrightarrow> set_member job_setters (encode_chars ''job_type'', encode_string v) (Some x) = Some (x\<lparr>job_JobType := v\<rparr>)"
  "set_member job_setters (encode_chars ''payload'', p) (Some x) = Some (x\<lparr>job_Payload := p\<rparr>)"
  "utf8_Valid v \<Longrightarrow> set_member job_setters (encode_chars ''status'', encode_string v) (Some x) = Some (x\<lparr>job_Status := v\<rparr>)"
  "fits64 n \<Longrightarrow>
     set_member job_setters (encode_chars ''retry_count'', itoa n) (Some x) = Some (x\<lparr>job_RetryCount := n\<rparr>)"
  "fits64 n \<Longrightarrow>
     set_member job_setters (encode_chars ''max_retries'', itoa n) (Some x) = Some (x\<lparr>job_MaxRetries := n\<rparr>)"
  "utf8_Valid v \<Longrightarrow> set_member job_setters (encode_chars ''priority'', encode_string v) (Some x) = Some (x\<lparr>job_Priority := v\<rparr>)"
  "utf8_Valid v \<Longrightarrow>
     set_member job_setters (encode_chars ''idempotency_key'', encode_string v) (Some x) = Some (x\<lparr>job_IdempotencyKey := v\<rparr>)"
  "utf8_Valid v \<Longrightarrow> set_member job_setters (encode_chars ''trace_id'', encode_string v) (Some x) = Some (x\<lparr>job_TraceID := v\<rparr>)"
  "utf8_Valid v \<Longrightarrow>
     set_member job_setters (encode_chars ''error_message'', encode_string v) (Some x) = Some (x\<lparr>job_ErrorMessage := v\<rparr>)"
  "has_time t \<Longrightarrow> set_member job_setters (encode_chars ''created_at'', time_text t) (Some x) = Some (x\<lparr>job_CreatedAt := t\<rparr>)"
  "has_time t \<Longrightarrow> set_member job_setters (encode_chars ''updated_at'', time_text t) (Some x) = Some (x\<lparr>job_UpdatedAt := t\<rparr>)"
  "has_time t \<Longrightarrow> set_member job_setters (encode_chars ''processed_at'', time_text t) (Some x) = Some (x\<lparr>job_ProcessedAt := Some t\<rparr>)"
  by (subst set_job_field; simp add: job_setters_def str_field_def int_field_def time_field_def
      dec_string_encoded dec_int64_fits dec_time_text dec_time_ptr_text)+

text \<open>A clean job is decoded from its own encoding.\<close>

lemma wire_clean_job:
  assumes "clean_job j"
  shows "wire (go_json msg) j"
proof -
  have s: "utf8_Valid (job_ID j)" "utf8_Valid (job_JobType j)" "utf8_Valid (job_Status j)"
    "utf8_Valid (job_Priority j)" "utf8_Valid (job_IdempotencyKey j)" "utf8_Valid (job_TraceID j)"
    "utf8_Valid (job_ErrorMessage j)" "has_time (job_CreatedAt j)" "has_time (job_UpdatedAt j)"
    "fits64 (job_RetryCount j)" "fits64 (job_MaxRetries j)"
    and t: "\<And>t. job_ProcessedAt j = Some t \<Longrightarrow> has_time t"
    using assms by (simp_all add: clean_job_def)
  have fold: "fold (set_member job_setters) (map (\<lambda>f. (encode_chars (fst f), snd f)) (job_fields j)) (Some zero_job) = Some j"
    using t
    by (cases "job_ProcessedAt j"; cases "job_ErrorMessage j = ''''")
      (simp_all add: job_fields_def job_member s zero_job_def)
  have ne: "job_fields j \<noteq> []" by (simp add: job_fields_def)
  show ?thesis
    unfolding wire_def go_json_def
    using encode_job [OF assms, of msg] unmarshal_object [OF ne job_fields_good [OF assms], of msg job_setters zero_job]
      fold
    by simp
qed


section \<open>The queue\<close>

context redis_env
begin

lemma json_roundtrip:
  assumes "ok r" "wire J j" "queue_view J lst r = (\<lambda>_. [])"
  shows "\<exists>r1 r2. RedisQueue_Push R J None j r = (None, r1) \<and> RedisQueue_Pop R J pt None r1 = (Inr (Some j), r2) \<and>
    queue_view J lst r2 = (\<lambda>_. []) \<and> ents r2 = ents r"
proof -
  obtain r1 where p: "RedisQueue_Push R J None j r = (None, r1)" "ok r1" "ents r1 = ents r"
    "queue_view J lst r1 = (\<lambda>_. [])(level (job_Priority j) := [j])"
    using push_full [OF assms(1,2)] assms(3) by auto
  have l: "next_level (queue_view J lst r1) = Some (level (job_Priority j))"
    unfolding p(4) by (auto simp: next_level_def level_def)
  show ?thesis using p pop_full [OF p(2), of pt] unfolding l by (auto simp: fun_eq_iff)
qed

end

lemma redis_envI: "redis_laws R lst ents up elapse \<Longrightarrow> redis_env R lst ents up elapse"
  by (simp add: redis_env_def)

end
