(* ===== verification/Reference_Instance.thy ===== *)
theory Reference_Instance
  imports Pipeline Memory_Store Reference_Json Json_Job
begin

text \<open>
  One concrete deployment: the reference Redis server, the in-memory store, the reference codec,
  and a deterministic clock, identifier source and random source. Every environment locale is
  interpreted on it, so that each theorem with an assumption on the environment is applied to a
  state that satisfies it.
\<close>

definition ref_runtime :: runtime where
  "ref_runtime = \<lparr> time_at = (\<lambda>n. min (int n) 1000000000 * second), uuid_at = (\<lambda>n. replicate (Suc n) CHR ''u''),
     rand_at = (\<lambda>k n. int k mod n) \<rparr>"

definition ref_world :: "(ref_redis, InMemoryStore) world" where
  "ref_world = \<lparr> redis = ref_empty, db = NewInMemoryStore, metrics = Metrics_New, ticks = 0,
     uuids = 0, rands = 0, pending = [], retryBase = 0, retryMax = 0, crashed = False \<rparr>"

definition ref_config :: GatewayConfig where
  "ref_config = \<lparr> gc_MaxRetries = 0, gc_IdempotencyTTL = 0 \<rparr>"

abbreviation ref_gateway :: "(ref_redis, InMemoryStore) GatewayService" where
  "ref_gateway \<equiv> gateway ref_client ref_json 0 MemStore_port ref_config ref_runtime"

definition ref_request :: EnqueueRequest where
  "ref_request = \<lparr> er_JobType = JobTypeQRScan,
     er_Payload = enc_fields [''code-7'', ''event-1'', ''gate-2'', ''''],
     er_IdempotencyKey = ''k1'', er_TraceID = '''' \<rparr>"

lemma ref_gateway_cfg [simp]: "gs_cfg ref_gateway = \<lparr> gc_MaxRetries = 5, gc_IdempotencyTTL = 24 * hour \<rparr>"
  by (simp add: gateway_def NewGatewayService_def ref_config_def)

lemma ref_server_ok [simp]: "server_ok J rf_lists rf_ents rf_up ref_empty"
  by (simp add: server_ok_def ref_empty_def)

lemma ref_world_simps [simp]:
  "redis ref_world = ref_empty" "db ref_world = NewInMemoryStore" "metrics ref_world = Metrics_New"
  "ticks ref_world = 0" "uuids ref_world = 0" "pending ref_world = []" "\<not> crashed ref_world"
  "rands ref_world = 0" "retryBase ref_world = 0" "retryMax ref_world = 0"
  "rf_lists ref_empty = (\<lambda>_. [])" "rf_ents ref_empty = (\<lambda>_. None)" "rf_up ref_empty"
  by (simp_all add: ref_world_def ref_empty_def)

lemma ref_tables [simp]: "mem_tables NewInMemoryStore =
    \<lparr> t_jobs = (\<lambda>_. None), t_atts = [], t_regs = [], t_pays = (\<lambda>_. None), t_scans = [], t_notes = [],
      t_audits = [] \<rparr>"
  by (simp add: mem_tables_def NewInMemoryStore_def)

lemma ref_request_simps [simp]:
  "er_JobType ref_request = JobTypeQRScan" "er_IdempotencyKey ref_request = ''k1''"
  "er_TraceID ref_request = ''''"
  "er_Payload ref_request = enc_fields [''code-7'', ''event-1'', ''gate-2'', '''']"
  by (simp_all add: ref_request_def)

lemma enc_fields_nonempty [simp]: "enc_fields (f # fs) \<noteq> []"
  by (simp add: enc_fields_def enc_field_def)

lemma ref_admissible [simp]: "admissible ref_gateway ref_request"
  by (simp add: admissible_def JobType_Valid_def)

lemma ref_stamps [simp]: "stamp_ok (time_at ref_runtime n)"
  by (simp add: stamp_ok_def ref_runtime_def min_def)

lemma ref_clock [simp]: "clock_ok ref_runtime"
  by (simp add: clock_ok_def)

lemma ref_uuids [simp]: "inj (uuid_at ref_runtime)"
  by (simp add: inj_def ref_runtime_def replicate_eq_replicate)

lemma ref_okjob [simp]: "okjob (\<lambda>_. True) (\<lambda>_. True) j \<longleftrightarrow> 0 \<le> job_RetryCount j \<and>
    job_RetryCount j < 2 ^ 31 - 1 \<and> 0 \<le> job_MaxRetries j \<and> job_MaxRetries j < 2 ^ 31 - 1 \<and>
    stamp_ok (job_CreatedAt j) \<and> stamp_ok (job_UpdatedAt j) \<and> pred_option stamp_ok (job_ProcessedAt j)"
  by (simp add: okjob_def)

interpretation refgw: gateway_env ref_client rf_lists rf_ents rf_up ref_elapse ref_json 0
  MemStore_port mem_tables "\<lambda>_. True" "\<lambda>_. True" "\<lambda>_. True" "\<lambda>x. x" "\<lambda>t. t"
  ref_config ref_runtime
  by unfold_locales (simp add: whole_ms_def)

interpretation refpool: pool_env ref_client rf_lists rf_ents rf_up ref_elapse ref_json 0
  MemStore_port mem_tables "\<lambda>_. True" "\<lambda>_. True" "\<lambda>_. True" "\<lambda>x. x" "\<lambda>t. t"
  procs workers ref_runtime for procs workers
  by unfold_locales simp_all

text \<open>A queued job with one retry left, alone in the queue, and two processors for its type.\<close>

definition ref_job :: Job where
  "ref_job = NewJob ''j1'' JobTypeQRScan (enc_fields [''code-7'', ''event-1'', ''gate-2'', ''''])
     ''k1'' ''t1'' 1 0"

definition ref_loaded :: "(ref_redis, InMemoryStore) world" where
  "ref_loaded = ref_world\<lparr>
     redis := ref_empty\<lparr>rf_lists := (\<lambda>_. [])(KeyHigh := [projr (ref_marshal_Job ref_job)])\<rparr>,
     db := NewInMemoryStore\<lparr>ms_jobs := [(''j1'', ref_job)]\<rparr>\<rparr>"

definition ref_fails :: "(ref_redis, InMemoryStore) processor" where
  "ref_fails c j w = (Some (ErrorString ''provider down''), w)"

definition ref_works :: "(ref_redis, InMemoryStore) processor" where
  "ref_works c j w = (None, w)"

abbreviation ref_pool ::
  "(ref_redis, InMemoryStore) processor \<Rightarrow> (ref_redis, InMemoryStore) Pool" where
  "ref_pool pr \<equiv> NewPool (RedisQueue_port ref_client ref_json 0) MemStore_port
     (RedisCache_port ref_client) [(JobTypeQRScan, pr)] 2 ref_runtime"

lemma ref_job_simps [simp]:
  "job_ID ref_job = ''j1''" "job_JobType ref_job = JobTypeQRScan" "job_Priority ref_job = PriorityHigh"
  "job_RetryCount ref_job = 0" "job_MaxRetries ref_job = 1"
  "stamp_ok (job_CreatedAt ref_job)" "stamp_ok (job_UpdatedAt ref_job)" "job_ProcessedAt ref_job = None"
  by (simp_all add: ref_job_def PriorityForType_def stamp_ok_def)

lemma ref_marshal_decodes [simp]: "json_Unmarshal_Job ref_json (projr (ref_marshal_Job j)) = Inr j"
  using wire_ref_json [of j] by (simp add: wire_def ref_json_def ref_marshal_Job_def)

lemma ref_loaded_simps [simp]:
  "pending ref_loaded = []" "\<not> crashed ref_loaded" "metrics ref_loaded = Metrics_New"
  "ticks ref_loaded = 0" "rands ref_loaded = 0"
  "rf_ents (redis ref_loaded) = (\<lambda>_. None)" "rf_up (redis ref_loaded)"
  "mem_tables (db ref_loaded) = (mem_tables NewInMemoryStore)\<lparr>t_jobs := [''j1'' \<mapsto> ref_job]\<rparr>"
  "queue_view ref_json rf_lists (redis ref_loaded) = (\<lambda>_. [])(0 := [ref_job])"
  "dead_view ref_json rf_lists (redis ref_loaded) = []"
  by (auto simp: ref_loaded_def mem_tables_def NewInMemoryStore_def fun_eq_iff queue_view_def
      level_key_def dead_view_def)

lemma ref_loaded_ok [simp]: "server_ok ref_json rf_lists rf_ents rf_up (redis ref_loaded)"
  by (auto simp: server_ok_def ref_loaded_def list_keys_def cache_key_def)

lemma ref_pool_registry [simp]:
  "p_registry (ref_pool pr) JobTypeQRScan = Some pr" "p_rt (ref_pool pr) = ref_runtime"
  by (simp_all add: NewPool_def)

lemma ref_loaded_waiting [simp]:
  "waiting_job (server_ok ref_json rf_lists rf_ents rf_up) rf_ents (queue_view ref_json rf_lists)
     mem_tables (\<lambda>_. True) (\<lambda>_. True) (\<lambda>_. True) (\<lambda>x. x) (\<lambda>t. t) ref_job ref_loaded"
  by (simp add: waiting_job_def free_job_def takes_row_def same_row_def level_def)
    (simp add: ref_loaded_def eff_base_def eff_max_def)

lemma ref_rand [simp]: "0 < n \<Longrightarrow> 0 \<le> rand_at ref_runtime k n \<and> rand_at ref_runtime k n < n"
  by (simp add: ref_runtime_def)

lemma ref_statuses [simp]: "text_statuses (\<lambda>_. True)"
  by (simp add: text_statuses_def)

text \<open>A database that is unreachable.\<close>

definition ref_down :: "InMemoryStore Store_port" where
  "ref_down = MemStore_port\<lparr>sCreate := (\<lambda>c j d. (Some ref_refused, d))\<rparr>"

lemma ref_down_contract: "store_contract ref_down mem_tables (\<lambda>_. False) (\<lambda>_. True) (\<lambda>_. True)
    (\<lambda>x. x) (\<lambda>t. t)"
  by unfold_locales simp_all

lemma ref_down_create [simp]: "sCreate ref_down c j d = (Some ref_refused, d)"
  by (simp add: ref_down_def)

abbreviation ref_down_gateway :: "(ref_redis, InMemoryStore) GatewayService" where
  "ref_down_gateway \<equiv> gateway ref_client ref_json 0 ref_down ref_config ref_runtime"

lemma ref_other_gateways [simp]:
  "gs_cfg ref_down_gateway = gs_cfg ref_gateway" "admissible ref_down_gateway ref_request"
  by (simp_all add: gateway_def NewGatewayService_def ref_config_def admissible_def JobType_Valid_def)

lemma ref_idemp_cache_key [simp]: "cache_key (enq_redisKey s req)"
  by (simp add: cache_key_def list_keys_def listkey_defs enq_redisKey_def idempotencyRedisKey_def)

lemma ref_free: "free_job (server_ok ref_json rf_lists rf_ents rf_up) rf_ents (redis ref_loaded) ref_job"
  and ref_takes: "takes_row mem_tables (\<lambda>_. True) (\<lambda>_. True) (\<lambda>_. True) (\<lambda>x. x) (\<lambda>t. t)
    (db ref_loaded) ref_job"
  using ref_loaded_waiting by (simp_all only: waiting_job_def)

lemma ref_claimed:
  obtains j' w2 t where "claimed (ref_pool pr) ref_job ref_loaded = (j', w2)"
    "j' = ref_job\<lparr>job_Status := JobStatusProcessing, job_UpdatedAt := t\<rparr>"
    "server_ok ref_json rf_lists rf_ents rf_up (redis w2)"
    "takes_row mem_tables (\<lambda>_. True) (\<lambda>_. True) (\<lambda>_. True) (\<lambda>x. x) (\<lambda>t. t) (db w2) j'"
    "pending w2 = []" "retryBase w2 = 0" "retryMax w2 = 0" "dead_view ref_json rf_lists (redis w2) = []"
  using refpool.redis_claimed [OF ref_free ref_takes, of "[(JobTypeQRScan, pr)]" 2 pr]
  by (auto simp: ref_loaded_def dead_view_def fun_eq_iff queue_view_def)

text \<open>The same job while a worker holds its lock.\<close>

definition ref_held :: "(ref_redis, InMemoryStore) world" where
  "ref_held = ref_loaded\<lparr>redis := (redis ref_loaded)\<lparr>rf_ents :=
     [lock_key ref_job \<mapsto> (''1'', Some minute)]\<rparr>\<rparr>"

lemma ref_held_ents [simp]: "rf_ents (redis ref_held) = [lock_key ref_job \<mapsto> (''1'', Some minute)]"
  by (simp add: ref_held_def)

lemma ref_held_ok [simp]: "server_ok ref_json rf_lists rf_ents rf_up (redis ref_held)"
  using ref_loaded_ok job_keys_cache_key(2) [of ref_job]
  by (auto simp: server_ok_def ref_held_def cache_key_def)

text \<open>The whole pipeline: the four processors registered with a pool.\<close>

abbreviation ref_qr :: "(ref_redis, InMemoryStore) QRScanProcessor" where
  "ref_qr \<equiv> NewQRScanProcessor MemStore_port MemStore_port (RedisCache_port ref_client) 0"

abbreviation ref_procs :: "(JobType \<times> (ref_redis, InMemoryStore) processor) list" where
  "ref_procs \<equiv>
     [(RegistrationProcessor_Type, RegistrationProcessor_Process ref_json ref_runtime
         (NewRegistrationProcessor MemStore_port MemStore_port (Enqueue ref_gateway))),
      (PaymentProcessor_Type, PaymentProcessor_Process ref_json ref_runtime
         (NewPaymentProcessor MemStore_port MemStore_port)),
      (QRScanProcessor_Type, QRScanProcessor_Process ref_json ref_runtime ref_qr),
      (NotificationProcessor_Type, NotificationProcessor_Process ref_json ref_runtime
         (NewNotificationProcessor MemStore_port MemStore_port None))]"

abbreviation ref_full_pool :: "(ref_redis, InMemoryStore) Pool" where
  "ref_full_pool \<equiv> NewPool (RedisQueue_port ref_client ref_json 0) MemStore_port
     (RedisCache_port ref_client) ref_procs 2 ref_runtime"

interpretation refscan: scan_env ref_client rf_lists rf_ents rf_up ref_elapse ref_json 0
  MemStore_port mem_tables "\<lambda>_. True" "\<lambda>_. True" "\<lambda>_. True" "\<lambda>x. x" "\<lambda>t. t"
  ref_config ref_runtime procs workers for procs workers
  by unfold_locales simp_all

lemma ref_scan_payload [simp]: "accepted_scan ref_json (enc_fields [a, b, c, d]) =
    (if a = '''' then None else Some \<lparr> qp_QRCode = a, qp_EventID = b, qp_GateID = c, qp_ScannedBy = d \<rparr>)"
  by (simp add: accepted_scan_def)

lemma ref_full_registry [simp]:
  "p_registry ref_full_pool JobTypeQRScan = Some (QRScanProcessor_Process ref_json ref_runtime ref_qr)"
  by (simp add: NewPool_def RegistrationProcessor_Type_def PaymentProcessor_Type_def
      QRScanProcessor_Type_def NotificationProcessor_Type_def jobtype_defs)

lemma ref_qr_ttl [simp]: "qrp_dedupTTL ref_qr = 10000000000" "whole_ms 10000000000"
  "whole_ms 86400000000000"
  by (simp_all add: NewQRScanProcessor_def whole_ms_def)

abbreviation ref_scan :: QRScanPayload where
  "ref_scan \<equiv> \<lparr> qp_QRCode = ''code-7'', qp_EventID = ''event-1'', qp_GateID = ''gate-2'', qp_ScannedBy = '''' \<rparr>"

lemma ref_empty_view [simp]: "queue_view J rf_lists ref_empty = (\<lambda>_. [])"
  by (simp add: queue_view_def fun_eq_iff)

lemma ref_job_payload [simp]: "job_Payload ref_job = enc_fields [''code-7'', ''event-1'', ''gate-2'', '''']"
  by (simp add: ref_job_def)

lemma ref_attendance [simp]: "attendance_ok (\<lambda>_. None) t \<longleftrightarrow> (\<forall>ev. ev \<noteq> '''' \<longrightarrow> scans_of t ev = 0)"
  by (auto simp: attendance_ok_def counter_def)

lemma ref_texts [simp]: "scan_text (\<lambda>_. True) (\<lambda>_. True) i job inp"
  "payment_text (\<lambda>_. True) (\<lambda>_. True) i job inp2 \<longleftrightarrow> int64 (pw_AmountCents inp2)"
  "registration_text (\<lambda>_. True) (\<lambda>_. True) i job inp3"
  "notification_text (\<lambda>_. True) (\<lambda>_. True) i job inp4 \<longleftrightarrow> int32 (job_RetryCount job + 1)"
  by (simp_all add: scan_text_def payment_text_def registration_text_def notification_text_def)

lemma ref_scan_cache_key: "cache_key (dedupKey inp)"
  by (simp add: cache_key_def list_keys_def listkey_defs dedupKey_def)

text \<open>A store that refuses scan rows.\<close>

definition ref_full :: "InMemoryStore Store_port" where
  "ref_full = MemStore_port\<lparr>sCreateQRScanEvent := (\<lambda>c e d. (Some ref_refused, d))\<rparr>"

lemma ref_full_create [simp]: "sCreateQRScanEvent ref_full c e d = (Some ref_refused, d)"
  by (simp add: ref_full_def)

abbreviation ref_full_qr :: "(ref_redis, InMemoryStore) QRScanProcessor" where
  "ref_full_qr \<equiv> NewQRScanProcessor ref_full ref_full (RedisCache_port ref_client) 0"

lemma ref_full_ttl [simp]: "qrp_dedupTTL ref_full_qr = 10000000000"
  by (simp add: NewQRScanProcessor_def)

text \<open>A webhook, a registration and a notification.\<close>

definition ref_webhook :: "string \<Rightarrow> Job" where
  "ref_webhook st = NewJob ''j2'' JobTypePaymentWebhook
     (enc_fields [''order-1'', ''pay-1'', st, itoa 4200, '''']) ''k2'' ''t2'' 5 0"

lemma ref_webhook_accepted [simp]:
  "accepted_payment ref_json (job_Payload (ref_webhook st)) =
     (if st \<in> set validPaymentStatuses then
        Some \<lparr> pw_GatewayOrderID = ''order-1'', pw_PaymentID = ''pay-1'', pw_PaymentStatus = st,
               pw_AmountCents = 4200, pw_Currency = '''' \<rparr> else None)"
  by (simp add: accepted_payment_def ref_webhook_def)

definition ref_signup :: Job where
  "ref_signup = NewJob ''j3'' JobTypeRegistration
     (enc_fields [''event-1'', ''Ada'', ''ada@example.org'', '''', '''']) ''k3'' ''t3'' 5 0"

definition ref_attendee :: RegistrationPayload where
  "ref_attendee = \<lparr> rp_EventID = ''event-1'', rp_AttendeeName = ''Ada'', rp_Email = ''ada@example.org'',
     rp_Phone = '''', rp_TicketType = '''' \<rparr>"

lemma ref_signup_accepted [simp]:
  "accepted_registration ref_json (job_Payload ref_signup) = Some ref_attendee" "job_TraceID ref_signup = ''t3''"
  by (simp_all add: accepted_registration_def ref_signup_def ref_attendee_def)

definition ref_message :: Job where
  "ref_message = NewJob ''j4'' JobTypeNotification
     (enc_fields [''EMAIL'', ''ada@example.org'', '''', '''', ''hello'', '''']) ''k4'' ''t4'' 5 0"

abbreviation ref_mail :: NotificationPayload where
  "ref_mail \<equiv> \<lparr> np_Channel = ''EMAIL'', np_Recipient = ''ada@example.org'', np_Template = '''',
     np_Subject = '''', np_Body = ''hello'', np_EventID = '''' \<rparr>"

lemma ref_message_attempt [simp]: "int32 (job_RetryCount ref_message + 1)"
  by (simp add: ref_message_def int32_def)

lemma ref_message_accepted [simp]:
  "accepted_notification ref_json (job_Payload ref_message) = Some ref_mail"
  by (simp add: accepted_notification_def ref_message_def NotificationChannel_Valid_def channel_defs)

abbreviation ref_bad_sender :: "(ref_redis, InMemoryStore) Sender" where
  "ref_bad_sender \<equiv> \<lambda>c ch rc sb bd w. (Some (ErrorString ''smtp timeout''), w)"


section \<open>The deployment with the JSON codec\<close>

text \<open>
  The same server and store with \<open>go_json\<close>, the format of \<open>encoding/json\<close>: a request, a job alone in
  the queue, and a server whose \<open>LPUSH\<close> runs into a timeout.
\<close>

definition json_payload :: string where
  "json_payload = ''{'' @ encode_string ''qr_code'' @ '':'' @ encode_string ''Q-7'' @ ''}''"

definition json_job :: Job where
  "json_job = NewJob ''j1'' JobTypeQRScan json_payload ''k1'' ''t1'' 3 0"

definition json_request :: EnqueueRequest where
  "json_request = \<lparr> er_JobType = JobTypeQRScan, er_Payload = json_payload, er_IdempotencyKey = ''k1'', er_TraceID = ''t1'' \<rparr>"

definition ref_timeout :: goerr where "ref_timeout = ErrorString ''read tcp: i/o timeout''"

abbreviation json_busy_gateway :: "(ref_redis, InMemoryStore) GatewayService" where
  "json_busy_gateway \<equiv> gateway (ref_client\<lparr>rLPush := (\<lambda>c k v r. (Inl ref_timeout, r))\<rparr>) (go_json id) 0
     MemStore_port ref_config ref_runtime"

definition json_loaded :: "(ref_redis, InMemoryStore) world" where
  "json_loaded = ref_world\<lparr>
     redis := ref_empty\<lparr>rf_lists := (\<lambda>_. [])(KeyHigh := [projr (json_Marshal_Job (go_json id) json_job)])\<rparr>,
     db := NewInMemoryStore\<lparr>ms_jobs := [(''j1'', json_job)]\<rparr>\<rparr>"

abbreviation json_pool :: "(ref_redis, InMemoryStore) processor \<Rightarrow> (ref_redis, InMemoryStore) Pool" where
  "json_pool pr \<equiv> NewPool (RedisQueue_port ref_client (go_json id) 0) MemStore_port
     (RedisCache_port ref_client) [(JobTypeQRScan, pr)] 2 ref_runtime"

lemma json_job_clean: "clean_job json_job"
  unfolding clean_job_def json_job_def json_payload_def by code_simp

lemma json_job_simps [simp]:
  "job_ID json_job = ''j1''" "job_JobType json_job = JobTypeQRScan" "job_Priority json_job = PriorityHigh"
  "job_RetryCount json_job = 0" "job_MaxRetries json_job = 3"
  "stamp_ok (job_CreatedAt json_job)" "stamp_ok (job_UpdatedAt json_job)" "job_ProcessedAt json_job = None"
  by (simp_all add: json_job_def PriorityForType_def stamp_ok_def)

lemma json_job_decodes: "json_Unmarshal_Job (go_json id) (projr (json_Marshal_Job (go_json id) json_job)) = Inr json_job"
  using wire_clean_job [OF json_job_clean, of id] by (auto simp: wire_def split: sum.splits)

text \<open>Every reading of the reference clock can be encoded.\<close>

lemma ref_clock_years: "has_time (time_at ref_runtime n)"
proof (rule has_time_range)
  have "min (int n) 1000000000 div 86400 \<le> 1000000000 div 86400" by (rule zdiv_mono1) simp_all
  then show "time_at ref_runtime n div one_day \<le> 2900000" by (simp add: ref_runtime_def)
qed (simp add: ref_runtime_def)

text \<open>What a clean job is pushed as when it fails is clean again.\<close>

lemma failed_form_clean:
  assumes "clean_job j" "utf8_Valid err" "\<And>n. has_time (time_at E n)" "failed_form E err j j'"
  shows "clean_job j'"
proof -
  have s: "utf8_Valid JobStatusQueued" "utf8_Valid JobStatusDeadLetter"
    by (simp_all add: ascii_utf8 jobstatus_defs byte_of_def)
  obtain st k n pr where j': "j' = j\<lparr>job_Status := st, job_RetryCount := k, job_ErrorMessage := err,
      job_UpdatedAt := time_at E n, job_ProcessedAt := pr\<rparr>" "st \<in> {JobStatusQueued, JobStatusDeadLetter}"
    "job_RetryCount j \<le> k" "k \<le> max (job_RetryCount j) (job_MaxRetries j)"
    "pr = job_ProcessedAt j \<or> (\<exists>m. pr = Some (time_at E m))"
    using assms(4) unfolding failed_form_def by blast
  have "fits64 k" using assms(1) j'(3,4) by (auto simp: clean_job_def fits64_def max_def split: if_splits)
  moreover have "case pr of None \<Rightarrow> True | Some t \<Rightarrow> has_time t"
    using j'(5) assms(1,3) by (auto simp: clean_job_def)
  ultimately show ?thesis using assms(1-3) s j'(2) unfolding clean_job_def j'(1) by auto
qed

lemma json_loaded_simps [simp]:
  "pending json_loaded = []" "\<not> crashed json_loaded" "ticks json_loaded = 0"
  "rf_ents (redis json_loaded) = (\<lambda>_. None)" "rf_up (redis json_loaded)"
  "mem_tables (db json_loaded) = (mem_tables NewInMemoryStore)\<lparr>t_jobs := [''j1'' \<mapsto> json_job]\<rparr>"
  "queue_view (go_json id) rf_lists (redis json_loaded) = (\<lambda>_. [])(0 := [json_job])"
  "dead_view (go_json id) rf_lists (redis json_loaded) = []"
  by (auto simp: json_loaded_def mem_tables_def NewInMemoryStore_def fun_eq_iff queue_view_def
      level_key_def dead_view_def json_job_decodes)

lemma json_loaded_waiting:
  "waiting_job (server_ok (go_json id) rf_lists rf_ents rf_up) rf_ents (queue_view (go_json id) rf_lists)
     mem_tables (\<lambda>_. True) (\<lambda>_. True) (\<lambda>_. True) (\<lambda>x. x) (\<lambda>t. t) json_job json_loaded"
proof -
  have "server_ok (go_json id) rf_lists rf_ents rf_up (redis json_loaded)"
    by (auto simp: server_ok_def json_loaded_def list_keys_def cache_key_def json_job_decodes)
  then show ?thesis
    by (simp add: waiting_job_def free_job_def takes_row_def same_row_def level_def)
      (simp add: json_loaded_def eff_base_def eff_max_def)
qed

lemma json_request_admissible [simp]: "admissible json_busy_gateway json_request"
proof -
  have "json_payload \<noteq> [] \<and> json_valid json_payload" unfolding json_payload_def by code_simp
  then show ?thesis by (simp add: admissible_def json_request_def go_json_def JobType_Valid_def)
qed

lemma json_request_clean: "clean_job (enq_job json_busy_gateway json_request ref_world)"
proof -
  have "clean_job (NewJob ''u'' JobTypeQRScan json_payload ''k1'' ''t1'' 5 0)"
    unfolding clean_job_def json_payload_def by code_simp
  moreover have "enq_job json_busy_gateway json_request ref_world = NewJob ''u'' JobTypeQRScan json_payload ''k1'' ''t1'' 5 0"
    by (simp add: enq_job_def enq_id_def enq_key_def enq_trace_def json_request_def gateway_def NewGatewayService_def
        ref_config_def ref_runtime_def)
  ultimately show ?thesis by simp
qed

text \<open>The job in the dead-letter table, with the done marker its last delivery left.\<close>

definition ref_dead_job :: Job where
  "ref_dead_job = ref_job\<lparr>job_Status := JobStatusDeadLetter\<rparr>"

definition ref_dead_world :: "(ref_redis, InMemoryStore) world" where
  "ref_dead_world = ref_world\<lparr>
     redis := ref_empty\<lparr>rf_ents := [done_key ref_job \<mapsto> (''1'', Some hour)]\<rparr>,
     db := NewInMemoryStore\<lparr>ms_jobs := [(''j1'', ref_dead_job)]\<rparr>\<rparr>"

lemma ref_dead_simps [simp]:
  "queue_view J rf_lists (redis ref_dead_world) = (\<lambda>_. [])" "pending ref_dead_world = []"
  "dead_view J rf_lists (redis ref_dead_world) = []"
  "t_jobs (mem_tables (db ref_dead_world)) = [''j1'' \<mapsto> ref_dead_job]"
  "rf_ents (redis ref_dead_world) = [done_key ref_job \<mapsto> (''1'', Some hour)]"
  "ms_jobs (db ref_dead_world) = [(''j1'', ref_dead_job)]" "ticks ref_dead_world = 0"
  "job_ID ref_dead_job = ''j1''" "job_Status ref_dead_job = JobStatusDeadLetter"
  "job_JobType ref_dead_job = JobTypeQRScan" "done_key ref_dead_job = done_key ref_job"
  "job_Priority ref_dead_job = PriorityHigh" "stamp_ok (job_CreatedAt ref_dead_job)"
  "job_MaxRetries ref_dead_job = 1" "job_RetryCount ref_dead_job = 0"
  by (auto simp: ref_dead_world_def ref_dead_job_def queue_view_def dead_view_def fun_eq_iff mem_tables_def
      done_key_def)

lemma ref_dead_ok [simp]: "server_ok J rf_lists rf_ents rf_up (redis ref_dead_world)"
  using job_keys_cache_key(1) [of ref_job]
  by (auto simp: server_ok_def ref_dead_world_def ref_empty_def cache_key_def)

end
