(* ===== verification/Api.thy ===== *)
theory Api
  imports Router Reference_Instance Json_Job
begin

text \<open>
  The API as a whole: what the multiplexer of chi promises, what the middleware stack lets through,
  and what a request that is refused on its way leaves as it was.
\<close>

section \<open>What chi promises\<close>

text \<open>Routing touches only chi's own state of a request.\<close>

definition same_request :: "Request \<Rightarrow> Request \<Rightarrow> bool" where
  "same_request r r' \<longleftrightarrow> r' = r\<lparr>rq_RoutePath := rq_RoutePath r', rq_id := rq_id r'\<rparr>"

text \<open>
  The path chi routes on: what is left of it below a mounted router, else the encoded path where
  the URL has one, else the path.
\<close>

definition route_path :: "Request \<Rightarrow> string" where
  "route_path r = (if rq_RoutePath r \<noteq> '''' then rq_RoutePath r
     else let p = (if rq_RawPath r \<noteq> '''' then rq_RawPath r else rq_Path r)
          in if p = '''' then ''/'' else p)"

text \<open>The methods chi knows; it answers every other method with 405.\<close>

definition chi_methods :: "string list" where
  "chi_methods = [''CONNECT'', ''DELETE'', ''GET'', ''HEAD'', ''OPTIONS'', ''PATCH'', ''POST'', ''PUT'', ''TRACE'']"

text \<open>A pattern without parameters.\<close>

definition plain_pattern :: "string \<Rightarrow> bool" where
  "plain_pattern p \<longleftrightarrow> CHR ''{'' \<notin> set p \<and> CHR ''*'' \<notin> set p"

text \<open>
  The documented behaviour of \<open>RealIP\<close> (it sets the remote address), of \<open>Mount\<close> (a path that
  continues the prefix of one mounted router, and that no endpoint lies below, goes there with the
  rest of the path), of a route without parameters (its path and method select it), and of a method
  chi does not know (the handler for methods that are not allowed, which answers 405).
\<close>

locale chi_laws =
  fixes C :: "('r, 'd) chi_lib"
  assumes real_ip: "\<exists>a. chi_RealIP C r = r\<lparr>rq_RemoteAddr := a\<rparr>"
    and mounted: "rq_Method r \<in> set chi_methods \<Longrightarrow> j < length mounts \<Longrightarrow> route_path r = mounts ! j @ ''/'' @ rest \<Longrightarrow>
      (\<And>i. i < length mounts \<Longrightarrow> i \<noteq> j \<Longrightarrow> \<not> strings_HasPrefix (route_path r) (mounts ! i @ ''/'')) \<Longrightarrow>
      (\<And>m p. (m, p) \<in> set ends \<Longrightarrow> \<not> strings_HasPrefix p (mounts ! j)) \<Longrightarrow>
      \<exists>r'. chi_route C ends mounts r = (Mounted j, r') \<and> same_request r r' \<and> rq_RoutePath r' = ''/'' @ rest"
    and endpoint: "rq_Method r \<in> set chi_methods \<Longrightarrow> i < length ends \<Longrightarrow> ends ! i = (rq_Method r, p) \<Longrightarrow> route_path r = p \<Longrightarrow> plain_pattern p \<Longrightarrow>
      (\<And>k m. k < length ends \<Longrightarrow> k \<noteq> i \<Longrightarrow> ends ! k \<noteq> (m, p)) \<Longrightarrow>
      (\<And>q. q \<in> set mounts \<Longrightarrow> \<not> strings_HasPrefix p q) \<Longrightarrow>
      \<exists>r'. chi_route C ends mounts r = (Endpoint i, r') \<and> same_request r r'"
    and unknown_method: "rq_Method r \<notin> set chi_methods \<Longrightarrow>
      \<exists>r'. chi_route C ends mounts r = (MethodNotAllowed, r') \<and> same_request r r'"
    and not_allowed: "rw_status w = 0 \<Longrightarrow> \<exists>w'. chi_MethodNotAllowed C r w s = (False, w', s) \<and> rw_status w' = 405"

text \<open>A multiplexer that knows routes without parameters.\<close>

definition text_response :: "int \<Rightarrow> string \<Rightarrow> ('r, 'd) handler" where
  "text_response status t r w s =
     answer (Write t (WriteHeader status (set_header ''Content-Type'' ''text/plain; charset=utf-8'' w))) s"

definition find_index :: "('a \<Rightarrow> bool) \<Rightarrow> 'a list \<Rightarrow> nat option" where
  "find_index P xs = find (\<lambda>i. P (xs ! i)) [0..<length xs]"

definition ref_route :: "(string \<times> string) list \<Rightarrow> string list \<Rightarrow> Request \<Rightarrow> choice \<times> Request" where
  "ref_route ends mounts r =
     (if rq_Method r \<notin> set chi_methods then (MethodNotAllowed, r) else
      case find_index (\<lambda>q. strings_HasPrefix (route_path r) (q @ ''/'')) mounts of
        Some j \<Rightarrow> (Mounted j, r\<lparr>rq_RoutePath := drop (length (mounts ! j)) (route_path r)\<rparr>)
      | None \<Rightarrow>
          (case find_index (\<lambda>(m, p). p = route_path r \<and> (m = rq_Method r \<or> m = ''*'')) ends of
             Some i \<Rightarrow> (Endpoint i, r)
           | None \<Rightarrow> if route_path r \<in> snd ` set ends then (MethodNotAllowed, r) else (NotFound, r)))"

definition ref_chi :: "('r, 'd) chi_lib" where
  "ref_chi = \<lparr> chi_RealIP = (\<lambda>r. r), chi_route = ref_route, chi_RoutePattern = rq_Path,
     chi_NotFound = text_response 404 ''404 page not found'',
     chi_MethodNotAllowed = text_response 405 '''' \<rparr>"

lemma find_index_unique:
  assumes "i < length xs" "P (xs ! i)" "\<And>k. k < length xs \<Longrightarrow> k \<noteq> i \<Longrightarrow> \<not> P (xs ! k)"
  shows "find_index P xs = Some i"
proof -
  have "find (\<lambda>i. P (xs ! i)) [0..<length xs] = Some i"
    using assms by (subst find_Some_iff) (auto intro!: exI [of _ i])
  then show ?thesis by (simp add: find_index_def)
qed

lemma find_index_none: "(\<And>x. x \<in> set xs \<Longrightarrow> \<not> P x) \<Longrightarrow> find_index P xs = None"
  by (auto simp: find_index_def find_None_iff)

lemma HasPrefix_take: "strings_HasPrefix p (q @ t) \<Longrightarrow> strings_HasPrefix p q"
  by (auto simp: HasPrefix_iff)

interpretation rchi: chi_laws ref_chi
proof
  show "\<exists>a. chi_RealIP ref_chi r = r\<lparr>rq_RemoteAddr := a\<rparr>" for r
    by (rule exI [of _ "rq_RemoteAddr r"]) (simp add: ref_chi_def)
next
  fix j mounts r rest and ends :: "(string \<times> string) list"
  assume k: "rq_Method r \<in> set chi_methods"
    and a: "j < length mounts" "route_path r = mounts ! j @ ''/'' @ rest"
    "\<And>i. i < length mounts \<Longrightarrow> i \<noteq> j \<Longrightarrow> \<not> strings_HasPrefix (route_path r) (mounts ! i @ ''/'')"
  have "strings_HasPrefix (route_path r) (mounts ! j @ ''/'')" using a(2) by (auto simp: HasPrefix_iff)
  with find_index_unique [OF a(1), of "\<lambda>q. strings_HasPrefix (route_path r) (q @ ''/'')"] a(3)
  have "find_index (\<lambda>q. strings_HasPrefix (route_path r) (q @ ''/'')) mounts = Some j" by blast
  with a(2) k show "\<exists>r'. chi_route ref_chi ends mounts r = (Mounted j, r') \<and> same_request r r' \<and>
      rq_RoutePath r' = ''/'' @ rest"
    by (simp add: ref_chi_def ref_route_def same_request_def)
next
  fix i r p mounts and ends :: "(string \<times> string) list"
  assume k: "rq_Method r \<in> set chi_methods"
    and a: "i < length ends" "ends ! i = (rq_Method r, p)" "route_path r = p"
    "\<And>k m. k < length ends \<Longrightarrow> k \<noteq> i \<Longrightarrow> ends ! k \<noteq> (m, p)"
    "\<And>q. q \<in> set mounts \<Longrightarrow> \<not> strings_HasPrefix p q"
  let ?P = "\<lambda>(m, q). q = route_path r \<and> (m = rq_Method r \<or> m = ''*'')"
  have "\<not> ?P (ends ! k)" if "k < length ends" "k \<noteq> i" for k
    using a(4) [OF that] a(3) by (cases "ends ! k") auto
  with find_index_unique [OF a(1), of ?P] a(2,3) have "find_index ?P ends = Some i" by auto
  moreover have "find_index (\<lambda>q. strings_HasPrefix (route_path r) (q @ ''/'')) mounts = None"
    using a(3,5) HasPrefix_take by (intro find_index_none) blast
  ultimately show "\<exists>r'. chi_route ref_chi ends mounts r = (Endpoint i, r') \<and> same_request r r'"
    using k by (simp add: ref_chi_def ref_route_def same_request_def)
qed (auto simp: ref_chi_def ref_route_def same_request_def text_response_def answer_def Write_def set_header_def Let_def)

section \<open>Refusals\<close>

text \<open>The request was answered with one of some statuses, and no table, list or key has changed.\<close>

definition turned_away :: "int set \<Rightarrow> ('r, 'd) server \<Rightarrow> bool \<times> ResponseWriter \<times> ('r, 'd) server \<Rightarrow> bool" where
  "turned_away codes s x \<longleftrightarrow> \<not> fst x \<and> rw_status (fst (snd x)) \<in> codes \<and> untouched s (snd (snd x))"

lemma turned_away_trans: "untouched s s1 \<Longrightarrow> turned_away A s1 x \<Longrightarrow> turned_away A s x"
  using untouched_trans by (auto simp: turned_away_def)

lemma turned_away_error: "rw_status w = 0 \<Longrightarrow> c \<in> A \<Longrightarrow> c \<noteq> 0 \<Longrightarrow> turned_away A s (answer (WriteError r c a b w) s)"
  by (simp add: turned_away_def answer_def)

text \<open>A limiter that does nothing but count.\<close>

definition quiet :: "('r, 'd) limiter \<Rightarrow> bool" where
  "quiet lm \<longleftrightarrow> (\<forall>k s. untouched s (snd (lm k s)))"

lemma quiet_limiters [simp]: "quiet (global_limiter E)" "quiet (client_limiter E)"
  by (simp_all add: quiet_def untouched_limiter)

section \<open>The way of a request\<close>

lemma same_request_refl [simp]: "same_request r r" by (simp add: same_request_def)

lemma same_request_trans: "same_request r r1 \<Longrightarrow> same_request r1 r2 \<Longrightarrow> same_request r r2"
  by (cases r; cases r1; cases r2) (simp add: same_request_def)

lemma same_requestD:
  assumes "same_request r r'"
  shows "rq_Method r' = rq_Method r" "rq_Path r' = rq_Path r" "rq_RawPath r' = rq_RawPath r" "rq_Header r' = rq_Header r"
    "rq_ContentLength r' = rq_ContentLength r" "rq_Body r' = rq_Body r" "rq_ctx r' = rq_ctx r"
    "rq_RemoteAddr r' = rq_RemoteAddr r"
  using assms by (cases r; cases r'; simp add: same_request_def)+

lemma same_request_body: "same_request r r1 \<Longrightarrow> same_request (r\<lparr>rq_Body := b\<rparr>) (r1\<lparr>rq_Body := b\<rparr>)"
  by (cases r; cases r1) (simp add: same_request_def)

text \<open>
  A request on its way to a router under \<open>/api/v1\<close>: its identifiers are read or drawn and put on the
  context, the access log takes the time, the global limiter is asked, and below \<open>/gateway\<close> the limiter
  of the client. Each of these changes the state of the server, and the next one sees it.
\<close>

definition request_ids :: "('r, 'd) RouterDeps \<Rightarrow> Request \<Rightarrow> ('r, 'd) server \<Rightarrow> (string \<times> string) \<times> ('r, 'd) server" where
  "request_ids d r s =
     (let (i, s1) = id_or_new (rd_rt d) (Header_Get (rq_Header r) HeaderRequestID) s;
          (t, s2) = id_or_new (rd_rt d) (Header_Get (rq_Header r) HeaderTraceID) s1
      in ((i, t), s2))"

definition trace_of :: "('r, 'd) RouterDeps \<Rightarrow> Request \<Rightarrow> ('r, 'd) server \<Rightarrow> string" where
  "trace_of d r s = snd (fst (request_ids d r s))"

definition entered :: "('r, 'd) chi_lib \<Rightarrow> ('r, 'd) RouterDeps \<Rightarrow> Request \<Rightarrow> ('r, 'd) server \<Rightarrow> Request" where
  "entered C d r s = (chi_RealIP C r)\<lparr>rq_ctx := WithIDs (rq_ctx r) (fst (fst (request_ids d r s))) (trace_of d r s)\<rparr>"

definition arrived :: "('r, 'd) RouterDeps \<Rightarrow> Request \<Rightarrow> ('r, 'd) server \<Rightarrow> ('r, 'd) server" where
  "arrived d r s = snd (on_world (time_Now (rd_rt d)) (snd (request_ids d r s)))"

definition after_global :: "('r, 'd) RouterDeps \<Rightarrow> Request \<Rightarrow> ('r, 'd) server \<Rightarrow> bool \<times> ('r, 'd) server" where
  "after_global d r s = rd_GlobalLimiter d ''global'' (arrived d r s)"

definition after_client ::
  "('r, 'd) chi_lib \<Rightarrow> ('r, 'd) RouterDeps \<Rightarrow> Request \<Rightarrow> ('r, 'd) server \<Rightarrow> bool \<times> ('r, 'd) server" where
  "after_client C d r s = rd_ClientLimiter d (ClientIPKey (chi_RealIP C r)) (snd (after_global d r s))"

lemma untouched_arrived: "untouched s (arrived d r s)"
proof -
  have "untouched s (snd (request_ids d r s))"
    using untouched_ids untouched_trans by (fastforce simp: request_ids_def Let_def case_prod_beta)
  then show ?thesis by (simp add: arrived_def untouched_def world_simps)
qed

lemma untouched_after:
  "quiet (rd_GlobalLimiter d) \<Longrightarrow> untouched s (snd (after_global d r s))"
  "quiet (rd_GlobalLimiter d) \<Longrightarrow> quiet (rd_ClientLimiter d) \<Longrightarrow> untouched s (snd (after_client C d r s))"
proof -
  show g: "quiet (rd_GlobalLimiter d) \<Longrightarrow> untouched s (snd (after_global d r s))"
    using untouched_trans [OF untouched_arrived [of s d r]] by (simp add: after_global_def quiet_def)
  show "quiet (rd_GlobalLimiter d) \<Longrightarrow> quiet (rd_ClientLimiter d) \<Longrightarrow> untouched s (snd (after_client C d r s))"
    using untouched_trans [OF g] by (simp add: after_client_def quiet_def)
qed

lemma enteredD:
  assumes "chi_laws C"
  shows "rq_Method (entered C d r s) = rq_Method r" "rq_Header (entered C d r s) = rq_Header r"
    "rq_ContentLength (entered C d r s) = rq_ContentLength r" "rq_Body (entered C d r s) = rq_Body r"
    "rc_err (rq_ctx (entered C d r s)) = rc_err (rq_ctx r)" "rq_RoutePath (entered C d r s) = rq_RoutePath r"
    "route_path (entered C d r s) = route_path r" "ctx_TraceID (rq_ctx (entered C d r s)) = trace_of d r s"
    "ClientIPKey (entered C d r s) = ClientIPKey (chi_RealIP C r)"
proof -
  obtain a where a: "chi_RealIP C r = r\<lparr>rq_RemoteAddr := a\<rparr>" using chi_laws.real_ip [OF assms] by blast
  show "rq_Method (entered C d r s) = rq_Method r" "rq_Header (entered C d r s) = rq_Header r"
    "rq_ContentLength (entered C d r s) = rq_ContentLength r" "rq_Body (entered C d r s) = rq_Body r"
    "rc_err (rq_ctx (entered C d r s)) = rc_err (rq_ctx r)" "rq_RoutePath (entered C d r s) = rq_RoutePath r"
    "route_path (entered C d r s) = route_path r" "ctx_TraceID (rq_ctx (entered C d r s)) = trace_of d r s"
    "ClientIPKey (entered C d r s) = ClientIPKey (chi_RealIP C r)"
    by (simp_all add: entered_def a WithIDs_def route_path_def ctx_TraceID_def stringFrom_def ClientIPKey_def
        split: option.split)
qed

text \<open>A result that later bookkeeping does not undo.\<close>

definition outcome ::
  "(ResponseWriter \<Rightarrow> ('r, 'd) server \<Rightarrow> bool) \<Rightarrow> bool \<times> ResponseWriter \<times> ('r, 'd) server \<Rightarrow> bool" where
  "outcome Q x \<longleftrightarrow> \<not> fst x \<and> Q (fst (snd x)) (snd (snd x))"

definition stable :: "(ResponseWriter \<Rightarrow> ('r, 'd) server \<Rightarrow> bool) \<Rightarrow> bool" where
  "stable Q \<longleftrightarrow> (\<forall>w s s'. Q w s \<longrightarrow> untouched s s' \<longrightarrow> Q w s')"

lemma turned_away_outcome: "turned_away A s = outcome (\<lambda>w s'. rw_status w \<in> A \<and> untouched s s')"
  by (simp add: turned_away_def outcome_def fun_eq_iff)

lemma stable_turned_away: "stable (\<lambda>w s'. rw_status w \<in> A \<and> untouched s s')"
  by (auto simp: stable_def intro: untouched_trans)

text \<open>A writer to which nothing was written.\<close>

definition unwritten :: "ResponseWriter \<Rightarrow> bool" where "unwritten w \<longleftrightarrow> rw_status w = 0 \<and> rw_body w = ''''"

lemma unwritten_status: "unwritten w \<Longrightarrow> rw_status w = 0" by (simp add: unwritten_def)

text \<open>The outer stack: correlation ids, recovery, log and metrics.\<close>

lemma outer_stack:
  assumes Q: "stable Q"
    and inner: "\<And>w1. unwritten w1 \<Longrightarrow>
      outcome Q (mux C (top_routes d) [(''/api/v1'', api_routes C d)] (entered C d r s) w1 (arrived d r s))"
    and chi: "chi_laws C"
  shows "outcome Q (NewRouter C d r new_response s)"
proof -
  obtain a where ip: "chi_RealIP C r = r\<lparr>rq_RemoteAddr := a\<rparr>" using chi_laws.real_ip [OF chi] by blast
  define i where "i = fst (fst (request_ids d r s))"
  define w1 where "w1 = set_header HeaderTraceID (trace_of d r s) (set_header HeaderRequestID i new_response)"
  define x where "x = mux C (top_routes d) [(''/api/v1'', api_routes C d)] (entered C d r s) w1 (arrived d r s)"
  have "unwritten w1" by (simp add: w1_def set_header_def new_response_def unwritten_def)
  from inner [OF this] have x: "\<not> fst x" "Q (fst (snd x)) (snd (snd x))" by (simp_all add: outcome_def x_def)
  define g where "g = mux C (top_routes d) [(''/api/v1'', api_routes C d)]"
  have "NewRouter C d r new_response s =
      Recovery (Logging (rd_rt d) (Metrics_mw (chi_RoutePattern C) g)) (entered C d r s) w1 (snd (request_ids d r s))"
    by (simp add: NewRouter_def RequestID_def request_ids_def trace_of_def entered_def i_def w1_def ip g_def Let_def case_prod_beta)
  moreover have "fst (g (entered C d r s) w1 (snd (on_world (time_Now (rd_rt d)) (snd (request_ids d r s))))) = fst x"
    "fst (snd (g (entered C d r s) w1 (snd (on_world (time_Now (rd_rt d)) (snd (request_ids d r s)))))) = fst (snd x)"
    "snd (snd (g (entered C d r s) w1 (snd (on_world (time_Now (rd_rt d)) (snd (request_ids d r s)))))) = snd (snd x)"
    by (simp_all add: g_def x_def arrived_def)
  ultimately have "\<exists>s'. NewRouter C d r new_response s = (False, fst (snd x), s') \<and> untouched (snd (snd x)) s'"
    using x(1) unfolding Recovery_def Logging_def Metrics_mw_def
    by (simp add: Let_def case_prod_beta) (simp add: untouched_def world_simps)
  with x(2) Q show ?thesis by (fastforce simp: outcome_def stable_def)
qed

text \<open>A method that chi does not know is answered by the outermost router.\<close>

lemma unknown_method_refused:
  assumes chi: "chi_laws C" and r: "rq_Method r \<notin> set chi_methods"
  shows "turned_away {405} s (NewRouter C d r new_response s)"
  unfolding turned_away_outcome
proof (rule outer_stack [OF stable_turned_away _ chi])
  fix w1
  assume w: "unwritten w1"
  obtain r' where r': "chi_route C (map (\<lambda>(m, p, _). (m, p)) (top_routes d)) (map fst [(''/api/v1'', api_routes C d)])
      (entered C d r s) = (MethodNotAllowed, r')"
    using chi_laws.unknown_method [OF chi, of "entered C d r s"] enteredD(1) [OF chi] r by metis
  obtain w' where "chi_MethodNotAllowed C r' w1 (arrived d r s) = (False, w', arrived d r s)" "rw_status w' = 405"
    using chi_laws.not_allowed [OF chi unwritten_status [OF w]] by blast
  then show "outcome (\<lambda>w s'. rw_status w \<in> {405} \<and> untouched s s')
      (mux C (top_routes d) [(''/api/v1'', api_routes C d)] (entered C d r s) w1 (arrived d r s))"
    using untouched_arrived [of s d r] unfolding mux_def r' by (simp add: outcome_def)
qed

text \<open>Below \<open>/api/v1\<close>: the global limiter, then the two mounted routers.\<close>

lemma top_not_api: "(m, p) \<in> set (map (\<lambda>(m, p, _). (m, p)) (top_routes d)) \<Longrightarrow> \<not> strings_HasPrefix p ''/api/v1''"
  by (auto simp: top_routes_def strings_HasPrefix_def split: if_splits)

lemma mux_mounted:
  assumes "chi_laws C" "rq_Method r \<in> set chi_methods" "j < length mounts" "route_path r = fst (mounts ! j) @ ''/'' @ rest"
    and "\<And>i. i < length mounts \<Longrightarrow> i \<noteq> j \<Longrightarrow> \<not> strings_HasPrefix (route_path r) (fst (mounts ! i) @ ''/'')"
    and "\<And>m p. (m, p) \<in> set (map (\<lambda>(m, p, _). (m, p)) ends) \<Longrightarrow> \<not> strings_HasPrefix p (fst (mounts ! j))"
  obtains r' where "mux C ends mounts r w s = snd (mounts ! j) r' w s" "same_request r r'" "rq_RoutePath r' = ''/'' @ rest"
proof -
  have "\<exists>r'. chi_route C (map (\<lambda>(m, p, _). (m, p)) ends) (map fst mounts) r = (Mounted j, r') \<and>
      same_request r r' \<and> rq_RoutePath r' = ''/'' @ rest"
    by (rule chi_laws.mounted [OF assms(1,2)]) (use assms(3-6) in auto)
  then show thesis using assms(3) that by (auto simp: mux_def)
qed

lemma through_api:
  assumes chi: "chi_laws C" and r: "rq_Method r \<in> set chi_methods" "rq_RoutePath r = ''''"
      "route_path r = ''/api/v1'' @ fst m @ ''/'' @ rest"
    and m: "m \<in> {(''/gateway'', gateway_routes C d), (''/admin'', admin_routes C d)}"
    and Q: "stable Q"
    and limited: "\<And>r1 w1 s1. same_request (entered C d r s) r1 \<Longrightarrow> unwritten w1 \<Longrightarrow> \<not> fst (after_global d r s) \<Longrightarrow>
      untouched (snd (after_global d r s)) s1 \<Longrightarrow>
      Q (WriteError r1 429 ''rate_limited'' ''too many requests, slow down'' (set_header ''Retry-After'' ''1'' w1)) s1"
    and inner: "\<And>r1 w1. same_request (entered C d r s) r1 \<Longrightarrow> rq_RoutePath r1 = ''/'' @ rest \<Longrightarrow> unwritten w1 \<Longrightarrow>
      fst (after_global d r s) \<Longrightarrow> outcome Q (snd m r1 w1 (snd (after_global d r s)))"
  shows "outcome Q (NewRouter C d r new_response s)"
proof (rule outer_stack [OF Q _ chi])
  fix w1
  assume w: "unwritten w1"
  define r1 where "r1 = entered C d r s"
  define s1 where "s1 = arrived d r s"
  note ent = enteredD [OF chi, of d r s, folded r1_def]
  have rp: "route_path r1 = ''/api/v1'' @ ''/'' @ tl (fst m) @ ''/'' @ rest" using ent(7) r(3) m by auto
  obtain r2 where r2: "mux C (top_routes d) [(''/api/v1'', api_routes C d)] r1 w1 s1 = api_routes C d r2 w1 s1"
    "same_request r1 r2" "rq_RoutePath r2 = ''/'' @ tl (fst m) @ ''/'' @ rest"
    by (rule mux_mounted [OF chi, of r1 0 "[(''/api/v1'', api_routes C d)]" "tl (fst m) @ ''/'' @ rest" "top_routes d" w1 s1])
      (use rp ent(1) r(1) in \<open>simp_all add: top_not_api\<close>)
  have g: "rd_GlobalLimiter d (GlobalKey r2) s1 = after_global d r s" by (simp add: GlobalKey_def after_global_def s1_def)
  define s2 where "s2 = snd (after_global d r s)"
  let ?mounts = "[(''/gateway'', gateway_routes C d), (''/admin'', admin_routes C d)]"
  have "m = ?mounts ! 0 \<or> m = ?mounts ! 1" using m by auto
  then obtain j where j: "j < length ?mounts" "m = ?mounts ! j" "j = 0 \<or> j = 1" by fastforce
  have rp2: "route_path r2 = fst (?mounts ! j) @ ''/'' @ rest"
    using r2(3) j by (auto simp: route_path_def)
  obtain r3 where r3: "mux C [] ?mounts r2 w1 s2 = snd (?mounts ! j) r3 w1 s2" "same_request r2 r3"
    "rq_RoutePath r3 = ''/'' @ rest"
  proof (rule mux_mounted [OF chi _ j(1) rp2, of "[]" w1 s2])
    show "rq_Method r2 \<in> set chi_methods" using same_requestD(1) [OF r2(2)] ent(1) r(1) by simp
    show "\<not> strings_HasPrefix (route_path r2) (fst (?mounts ! i) @ ''/'')" if "i < length ?mounts" "i \<noteq> j" for i
      using that j(3) rp2 by (auto simp: less_Suc_eq strings_HasPrefix_def)
  qed auto
  have eq: "mux C (top_routes d) [(''/api/v1'', api_routes C d)] r1 w1 s1 =
      RateLimit (rd_GlobalLimiter d) ''global'' GlobalKey (mux C [] ?mounts) r2 w1 s1"
    by (simp only: r2(1)) (simp only: api_routes_def)
  have "outcome Q (mux C (top_routes d) [(''/api/v1'', api_routes C d)] r1 w1 s1)"
  proof (cases "fst (after_global d r s)")
    case True
    have "outcome Q (mux C [] ?mounts r2 w1 s2)"
      unfolding r3(1) j(2) [symmetric]
      by (unfold s2_def, rule inner [OF same_request_trans [OF r2(2) r3(2), unfolded r1_def] r3(3) w True])
    with True show ?thesis unfolding eq RateLimit_def g by (simp add: Let_def case_prod_beta s2_def)
  next
    case False
    have "untouched s2 (s2\<lparr>sv_world := bump f (sv_world s2)\<rparr>)" for f by (simp add: untouched_def bump_def)
    with limited [OF r2(2) [unfolded r1_def] w False] False show ?thesis
      unfolding eq RateLimit_def g by (auto simp: Let_def case_prod_beta s2_def outcome_def)
  qed
  then show "outcome Q (mux C (top_routes d) [(''/api/v1'', api_routes C d)] (entered C d r s) w1 (arrived d r s))"
    by (simp only: r1_def s1_def)
qed


text \<open>Below \<open>/gateway\<close>: the size limit, the limiter of the client, the depth of the queue, the endpoint.\<close>

lemma mux_endpoint:
  assumes "chi_laws C" "rq_Method r \<in> set chi_methods" "i < length ends" "fst (ends ! i) = rq_Method r"
    and "route_path r = fst (snd (ends ! i))" "plain_pattern (fst (snd (ends ! i)))"
    and "\<And>k. k < length ends \<Longrightarrow> k \<noteq> i \<Longrightarrow> fst (snd (ends ! k)) \<noteq> fst (snd (ends ! i))"
  obtains r' where "\<And>w s. mux C ends [] r w s = snd (snd (ends ! i)) r' w s" "same_request r r'"
proof -
  have "\<exists>r'. chi_route C (map (\<lambda>(m, p, _). (m, p)) ends) (map fst []) r = (Endpoint i, r') \<and> same_request r r'"
    by (rule chi_laws.endpoint [OF assms(1,2), of i _ "fst (snd (ends ! i))"])
      (use assms(3-7) in \<open>auto simp: case_prod_beta\<close>)
  then show thesis using assms(3) that by (auto simp: mux_def)
qed

definition gateway_table :: "(string \<times> JobType \<times> bool) list" where
  "gateway_table = [(''/registrations'', JobTypeRegistration, False), (''/payment-webhooks'', JobTypePaymentWebhook, True),
     (''/qr-scans'', JobTypeQRScan, False), (''/notifications'', JobTypeNotification, False)]"

definition limited_body :: "('r, 'd) RouterDeps \<Rightarrow> body \<Rightarrow> body" where
  "limited_body d b = (if 0 < rd_MaxBodyBytes d then MaxBytesReader b (rd_MaxBodyBytes d) else b)"

lemma gateway_endpoint:
  assumes "chi_laws C" "(p, t, v) \<in> set gateway_table" "rq_Method r = ''POST''" "route_path r = p"
  obtains r' where "\<And>w s. mux C [(''POST'', ''/registrations'', Registrations J h), (''POST'', ''/payment-webhooks'', PaymentWebhooks J h),
      (''POST'', ''/qr-scans'', QRScans J h), (''POST'', ''/notifications'', Notifications J h)] [] r w s =
    accept J h t v r' w s" "same_request r r'"
proof -
  let ?ends = "[(''POST'', ''/registrations'', Registrations J h), (''POST'', ''/payment-webhooks'', PaymentWebhooks J h),
      (''POST'', ''/qr-scans'', QRScans J h), (''POST'', ''/notifications'', Notifications J h)]"
  have "\<exists>i < length ?ends. fst (snd (?ends ! i)) = p \<and> snd (snd (?ends ! i)) = accept J h t v"
  proof -
    have "(p, t, v) = gateway_table ! i \<Longrightarrow> i < 4 \<Longrightarrow> fst (snd (?ends ! i)) = p \<and> snd (snd (?ends ! i)) = accept J h t v" for i
      by (auto simp: gateway_table_def Registrations_def PaymentWebhooks_def QRScans_def Notifications_def
          less_Suc_eq numeral_eq_Suc)
    moreover have "length gateway_table = 4" by (simp add: gateway_table_def)
    with assms(2) obtain i where "i < 4" "(p, t, v) = gateway_table ! i" by (metis in_set_conv_nth)
    ultimately show ?thesis by (intro exI [of _ i]) simp
  qed
  then obtain i where i: "i < length ?ends" "fst (snd (?ends ! i)) = p" "snd (snd (?ends ! i)) = accept J h t v" by blast
  have p: "\<forall>e \<in> set ?ends. fst e = ''POST'' \<and> plain_pattern (fst (snd e))" by (simp add: plain_pattern_def)
  have dist: "distinct (map (fst \<circ> snd) ?ends)" by simp
  obtain r' where "\<And>w s. mux C ?ends [] r w s = snd (snd (?ends ! i)) r' w s" "same_request r r'"
  proof (rule mux_endpoint [OF assms(1) _ i(1), of r])
    show "rq_Method r \<in> set chi_methods" using assms(3) by (simp add: chi_methods_def)
    show "fst (?ends ! i) = rq_Method r" "plain_pattern (fst (snd (?ends ! i)))" using p i(1) assms(3) nth_mem by metis+
    show "fst (snd (?ends ! k)) \<noteq> fst (snd (?ends ! i))" if "k < length ?ends" "k \<noteq> i" for k
      using nth_eq_iff_index_eq [OF dist, of k i] that i(1) by (simp only: length_map nth_map comp_apply) simp
    show "route_path r = fst (snd (?ends ! i))" using assms(4) i(2) by simp
  qed blast
  with i(3) show thesis using that by simp
qed

lemma gateway_run:
  assumes chi: "chi_laws C" and row: "(p, t, v) \<in> set gateway_table"
    and r: "rq_Method r = ''POST''" "rq_RoutePath r = p"
    and s1: "s1 = snd (rd_ClientLimiter d (ClientIPKey r) s)"
    and depth: "qTotalDepth (rd_Queue d) (rc_err (rq_ctx r)) (redis (sv_world s1)) = (load, redis (sv_world s1))"
    and big: "0 < rd_MaxBodyBytes d \<Longrightarrow> rd_MaxBodyBytes d < rq_ContentLength r \<Longrightarrow>
      Q (WriteError r 413 ''payload_too_large'' ''request body exceeds limit'' w) s"
    and limited: "\<And>r1 s2. \<not> fst (rd_ClientLimiter d (ClientIPKey r) s) \<Longrightarrow> untouched s1 s2 \<Longrightarrow>
      Q (WriteError r1 429 ''rate_limited'' ''too many requests, slow down'' (set_header ''Retry-After'' ''1'' w)) s2"
    and shed: "\<And>r1 n s2. untouched s1 s2 \<Longrightarrow> load = Inr n \<Longrightarrow> 0 < rd_QueueMaxDepth d \<Longrightarrow> rd_QueueMaxDepth d \<le> n \<Longrightarrow>
      Q (WriteError r1 503 ''service_unavailable'' ''queue saturated, please retry shortly''
           (set_header ''Retry-After'' ''2'' w)) s2"
    and inner: "\<And>r1. same_request (r\<lparr>rq_Body := limited_body d (rq_Body r)\<rparr>) r1 \<Longrightarrow>
      fst (rd_ClientLimiter d (ClientIPKey r) s) \<Longrightarrow>
      (\<And>n. load = Inr n \<Longrightarrow> 0 < rd_QueueMaxDepth d \<Longrightarrow> n < rd_QueueMaxDepth d) \<Longrightarrow>
      outcome Q (accept (rd_JSON d) (rd_Gateway d) t v r1 w s1)"
  shows "outcome Q (gateway_routes C d r w s)"
proof -
  define r1 where "r1 = r\<lparr>rq_Body := limited_body d (rq_Body r)\<rparr>"
  have c: "rc_err (rq_ctx r1) = rc_err (rq_ctx r)" "ClientIPKey r1 = ClientIPKey r" by (simp_all add: r1_def ClientIPKey_def split: option.split)
  have same: "on_world (on_redis (qTotalDepth (rd_Queue d) (rc_err (rq_ctx r)))) s1 = (load, s1)"
    using depth by (simp add: on_world_def on_redis_def)
  have ub: "untouched s1 (s1\<lparr>sv_world := bump g (sv_world s1)\<rparr>)" for g by (simp add: untouched_def bump_def)
  define mx where "mx = mux C [(''POST'', ''/registrations'', Registrations (rd_JSON d) (rd_Gateway d)),
      (''POST'', ''/payment-webhooks'', PaymentWebhooks (rd_JSON d) (rd_Gateway d)),
      (''POST'', ''/qr-scans'', QRScans (rd_JSON d) (rd_Gateway d)),
      (''POST'', ''/notifications'', Notifications (rd_JSON d) (rd_Gateway d))] []"
  have "rq_Method r1 = ''POST''" "route_path r1 = p"
    using r row by (auto simp: r1_def route_path_def gateway_table_def)
  then obtain r' where r': "\<And>w x. mx r1 w x = accept (rd_JSON d) (rd_Gateway d) t v r' w x" "same_request r1 r'"
    unfolding mx_def by (rule gateway_endpoint [OF chi row]) blast
  have routes: "gateway_routes C d = BodyLimit (rd_MaxBodyBytes d) (RateLimit (rd_ClientLimiter d) ''route'' ClientIPKey
      (Backpressure (rd_Queue d) (rd_QueueMaxDepth d) mx))"
    by (simp add: gateway_routes_def mx_def)
  have bp: "outcome Q (Backpressure (rd_Queue d) (rd_QueueMaxDepth d) mx r1 w s1)" if "fst (rd_ClientLimiter d (ClientIPKey r) s)"
    using inner [folded r1_def, OF r'(2) that] shed [OF ub]
    unfolding Backpressure_def c same by (auto simp: Let_def r'(1) outcome_def split: sum.split)
  have "outcome Q (RateLimit (rd_ClientLimiter d) ''route'' ClientIPKey
      (Backpressure (rd_Queue d) (rd_QueueMaxDepth d) mx) r1 w s)"
    using bp limited [OF _ ub] unfolding RateLimit_def c
    by (auto simp: Let_def case_prod_beta s1 [symmetric] outcome_def)
  with big show ?thesis
    unfolding routes BodyLimit_def by (auto simp: outcome_def r1_def limited_body_def split: if_splits)
qed

text \<open>The number of jobs that wait in the three levels.\<close>

definition queue_load :: "json_lib \<Rightarrow> ('r \<Rightarrow> string \<Rightarrow> string list) \<Rightarrow> 'r \<Rightarrow> int" where
  "queue_load J lst r = int (length (queue_view J lst r 0) + length (queue_view J lst r 1) + length (queue_view J lst r 2))"

text \<open>The whole way of a request to a route of the gateway, with every place where it may be refused.\<close>

lemma gateway_way:
  assumes chi: "chi_laws C" and redis: "redis_laws R lst ents up elapse"
    and d: "rd_Queue d = RedisQueue_port R J pt" "quiet (rd_GlobalLimiter d)" "quiet (rd_ClientLimiter d)"
    and s: "server_ok J lst ents up (redis (sv_world s))"
    and r: "rq_Method r = ''POST''" "route_path r = ''/api/v1/gateway'' @ p" "rq_RoutePath r = ''''" "rc_err (rq_ctx r) = None"
    and row: "(p, t, v) \<in> set gateway_table" and Q: "stable Q"
    and load: "load = wrap64 (queue_load J lst (redis (sv_world s)))"
    and limited: "\<And>r1 w1 s1. unwritten w1 \<Longrightarrow> untouched s s1 \<Longrightarrow>
      \<not> (fst (after_global d r s) \<and> fst (after_client C d r s)) \<Longrightarrow>
      Q (WriteError r1 429 ''rate_limited'' ''too many requests, slow down'' (set_header ''Retry-After'' ''1'' w1)) s1"
    and big: "\<And>r1 w1 s1. unwritten w1 \<Longrightarrow> untouched s s1 \<Longrightarrow> 0 < rd_MaxBodyBytes d \<Longrightarrow>
      rd_MaxBodyBytes d < rq_ContentLength r \<Longrightarrow>
      Q (WriteError r1 413 ''payload_too_large'' ''request body exceeds limit'' w1) s1"
    and shed: "\<And>r1 w1 s1. unwritten w1 \<Longrightarrow> untouched s s1 \<Longrightarrow> 0 < rd_QueueMaxDepth d \<Longrightarrow> rd_QueueMaxDepth d \<le> load \<Longrightarrow>
      Q (WriteError r1 503 ''service_unavailable'' ''queue saturated, please retry shortly''
           (set_header ''Retry-After'' ''2'' w1)) s1"
    and inner: "\<And>r1 w1. same_request ((entered C d r s)\<lparr>rq_Body := limited_body d (rq_Body r)\<rparr>) r1 \<Longrightarrow> unwritten w1 \<Longrightarrow>
      (0 < rd_QueueMaxDepth d \<longrightarrow> load < rd_QueueMaxDepth d) \<Longrightarrow>
      outcome Q (accept (rd_JSON d) (rd_Gateway d) t v r1 w1 (snd (after_client C d r s)))"
  shows "outcome Q (NewRouter C d r new_response s)"
proof -
  have p: "p = ''/'' @ tl p" using row by (auto simp: gateway_table_def)
  have path: "route_path r = ''/api/v1'' @ fst (''/gateway'', gateway_routes C d) @ ''/'' @ tl p" using r(2) p by simp
  note ent = enteredD [OF chi, of d r s]
  define s1 where "s1 = snd (after_global d r s)"
  define s2 where "s2 = snd (after_client C d r s)"
  have u: "untouched s s1" "untouched s s2" 
    unfolding s1_def s2_def by (rule untouched_after(1) [OF d(2)], rule untouched_after(2) [OF d(2,3)])
  show ?thesis
  proof (rule through_api [OF chi _ r(3) path _ Q])
    show "rq_Method r \<in> set chi_methods" using r(1) by (simp add: chi_methods_def)
    show "Q (WriteError r1 429 ''rate_limited'' ''too many requests, slow down'' (set_header ''Retry-After'' ''1'' w1)) x"
      if "unwritten w1" "\<not> fst (after_global d r s)" "untouched (snd (after_global d r s)) x" for r1 w1 x
      using limited [OF that(1) untouched_trans [OF u(1)]] that(2,3) by (simp add: s1_def)
    fix r1 w1
    assume l: "same_request (entered C d r s) r1" "rq_RoutePath r1 = ''/'' @ tl p" "unwritten w1" "fst (after_global d r s)"
    note sr = same_requestD [OF l(1)]
    have cl: "rd_ClientLimiter d (ClientIPKey r1) s1 = after_client C d r s"
    proof -
      have "ClientIPKey r1 = ClientIPKey (entered C d r s)" by (simp only: ClientIPKey_def sr(8))
      with ent(9) show ?thesis by (simp add: after_client_def s1_def)
    qed
    have "outcome Q (gateway_routes C d r1 w1 s1)"
    proof (rule gateway_run [OF chi row, of r1 s2])
      show "rq_Method r1 = ''POST''" "rq_RoutePath r1 = p" "s2 = snd (rd_ClientLimiter d (ClientIPKey r1) s1)"
        using l(2) p r(1) sr(1) ent(1) cl by (simp_all add: s2_def)
      have "server_ok J lst ents up (redis (sv_world s2))" using s u(2) by (simp add: untouched_def)
      then show "qTotalDepth (rd_Queue d) (rc_err (rq_ctx r1)) (redis (sv_world s2)) = (Inr load, redis (sv_world s2))"
        using redis_env.total_port [OF redis_envI [OF redis]] u(2) sr(7) ent(5) r(4)
        by (simp add: d(1) load queue_load_def untouched_def)
      show "Q (WriteError r1 413 ''payload_too_large'' ''request body exceeds limit'' w1) s1"
        if "0 < rd_MaxBodyBytes d" "rd_MaxBodyBytes d < rq_ContentLength r1"
        using big [OF l(3) u(1) that(1)] that(2) sr(5) ent(3) by simp
      show "Q (WriteError r2 429 ''rate_limited'' ''too many requests, slow down'' (set_header ''Retry-After'' ''1'' w1)) x"
        if "\<not> fst (rd_ClientLimiter d (ClientIPKey r1) s1)" "untouched s2 x" for r2 x
        using limited [OF l(3) untouched_trans [OF u(2) that(2)]] that(1) by (simp add: cl)
      show "Q (WriteError r2 503 ''service_unavailable'' ''queue saturated, please retry shortly'' (set_header ''Retry-After'' ''2'' w1)) x"
        if "untouched s2 x" "Inr load = Inr n" "0 < rd_QueueMaxDepth d" "rd_QueueMaxDepth d \<le> n" for r2 n x
        using shed [OF l(3) untouched_trans [OF u(2) that(1)] that(3)] that(2,4) by simp
      show "outcome Q (accept (rd_JSON d) (rd_Gateway d) t v r2 w1 s2)"
        if a: "same_request (r1\<lparr>rq_Body := limited_body d (rq_Body r1)\<rparr>) r2"
          "\<And>n. Inr load = Inr n \<Longrightarrow> 0 < rd_QueueMaxDepth d \<Longrightarrow> n < rd_QueueMaxDepth d" for r2
      proof -
        have "rq_Body r1 = rq_Body r" using sr(6) ent(4) by simp
        from inner [OF same_request_trans [OF same_request_body [OF l(1)] a(1) [unfolded this]] l(3)] a(2)
        show ?thesis unfolding s2_def by simp
      qed
    qed
    then show "outcome Q (snd (''/gateway'', gateway_routes C d) r1 w1 (snd (after_global d r s)))" by (simp add: s1_def)
  qed simp
qed


section \<open>A concrete deployment\<close>

definition ref_deps :: "int \<Rightarrow> int \<Rightarrow> (ref_redis, InMemoryStore) RouterDeps" where
  "ref_deps maxBytes maxDepth =
     \<lparr> rd_JSON = ref_json, rd_JWTLib = ref_jwt, rd_rt = ref_runtime,
       rd_MetricsHandler = text_response 200 '''', rd_ServeFile = (\<lambda>_. text_response 200 ''''),
       rd_JWT = NewJWTManager ''s'' ''gateway'', rd_Gateway = NewGatewayHandler (Enqueue ref_gateway) ''whsec'',
       rd_Admin = NewAdminService (RedisQueue_port ref_client ref_json 0) MemStore_port ref_runtime,
       rd_Health = fst (NewHealthHandler ref_runtime (\<lambda>c w. (None, w)) (\<lambda>c w. (None, w)) ''1''
         \<lparr> sv_world = ref_world, sv_global = NewGlobalLimiter 100 200 0, sv_client = NewKeyedLimiter 10 20 0, sv_log = [] \<rparr>),
       rd_GlobalLimiter = global_limiter ref_runtime, rd_ClientLimiter = client_limiter ref_runtime,
       rd_Queue = RedisQueue_port ref_client ref_json 0, rd_MaxBodyBytes = maxBytes, rd_QueueMaxDepth = maxDepth,
       rd_OpenAPIPath = '''' \<rparr>"

definition ref_server :: "(ref_redis, InMemoryStore) world \<Rightarrow> (ref_redis, InMemoryStore) server" where
  "ref_server w = \<lparr> sv_world = w, sv_global = NewGlobalLimiter 100 200 0, sv_client = NewKeyedLimiter 10 20 0, sv_log = [] \<rparr>"

definition ref_http :: "string \<Rightarrow> string \<Rightarrow> Request" where
  "ref_http path b =
     \<lparr> rq_Method = ''POST'', rq_Path = path, rq_RawPath = '''', rq_RawQuery = '''', rq_Header = [], rq_RemoteAddr = ''10.0.0.7:5000'',
       rq_ContentLength = -1, rq_Body = \<lparr> bd_bytes = b, bd_err = None, bd_limit = None \<rparr>,
       rq_ctx = \<lparr> rc_err = None, rc_requestID = None, rc_traceID = None, rc_claims = None \<rparr>,
       rq_RoutePath = '''', rq_id = '''' \<rparr>"

lemma ref_deps_simps [simp]:
  "rd_JSON (ref_deps mb md) = ref_json" "rd_rt (ref_deps mb md) = ref_runtime" "rd_JWTLib (ref_deps mb md) = ref_jwt"
  "rd_JWT (ref_deps mb md) = NewJWTManager ''s'' ''gateway''" "rd_GlobalLimiter (ref_deps mb md) = global_limiter ref_runtime"
  "rd_ClientLimiter (ref_deps mb md) = client_limiter ref_runtime" "rd_Queue (ref_deps mb md) = RedisQueue_port ref_client ref_json 0"
  "rd_MaxBodyBytes (ref_deps mb md) = mb" "rd_QueueMaxDepth (ref_deps mb md) = md"
  "rd_Gateway (ref_deps mb md) = NewGatewayHandler (Enqueue ref_gateway) ''whsec''"
  "rd_MetricsHandler (ref_deps mb md) = text_response 200 ''''" "rd_ServeFile (ref_deps mb md) x = text_response 200 ''''"
  by (simp_all add: ref_deps_def)

lemma ref_server_simps [simp]: "sv_world (ref_server w) = w" by (simp add: ref_server_def)

lemma ref_http_simps [simp]:
  "rq_Method (ref_http p b) = ''POST''" "p \<noteq> '''' \<Longrightarrow> route_path (ref_http p b) = p" "rq_RoutePath (ref_http p b) = ''''"
  "rc_err (rq_ctx (ref_http p b)) = None" "rq_Header (ref_http p b) = []" "rq_ContentLength (ref_http p b) = -1"
  "rq_Body (ref_http p b) = \<lparr> bd_bytes = b, bd_err = None, bd_limit = None \<rparr>"
  by (simp_all add: ref_http_def route_path_def)

text \<open>The same deployment with the JSON codec, and a scan with a key of its own.\<close>

abbreviation json_gateway :: "(ref_redis, InMemoryStore) GatewayService" where
  "json_gateway \<equiv> gateway ref_client (go_json id) 0 MemStore_port ref_config ref_runtime"

definition json_deps :: "(ref_redis, InMemoryStore) RouterDeps" where
  "json_deps = (ref_deps 1024 10)\<lparr>rd_JSON := go_json id, rd_Gateway := NewGatewayHandler (Enqueue json_gateway) ''whsec'',
     rd_Queue := RedisQueue_port ref_client (go_json id) 0\<rparr>"

definition json_http :: Request where
  "json_http = (ref_http (''/api/v1/gateway'' @ ''/qr-scans'') json_payload)\<lparr>rq_Header := [(''Idempotency-Key'', [''k9''])]\<rparr>"

lemma json_http_simps [simp]:
  "rq_Method json_http = ''POST''" "route_path json_http = ''/api/v1/gateway/qr-scans''" "rq_RoutePath json_http = ''''"
  "rc_err (rq_ctx json_http) = None" "rq_Header json_http = [(''Idempotency-Key'', [''k9''])]" "rq_ContentLength json_http = -1"
  "rq_Body json_http = \<lparr> bd_bytes = json_payload, bd_err = None, bd_limit = None \<rparr>"
  by (simp_all add: json_http_def ref_http_def route_path_def)

lemma json_deps_simps [simp]:
  "rd_JSON json_deps = go_json id" "rd_rt json_deps = ref_runtime" "rd_GlobalLimiter json_deps = global_limiter ref_runtime"
  "rd_ClientLimiter json_deps = client_limiter ref_runtime" "rd_Queue json_deps = RedisQueue_port ref_client (go_json id) 0"
  "rd_MaxBodyBytes json_deps = 1024" "rd_QueueMaxDepth json_deps = 10"
  "rd_Gateway json_deps = NewGatewayHandler (Enqueue json_gateway) ''whsec''"
  by (simp_all add: json_deps_def)

lemma json_gateway_cfg: "gs_cfg json_gateway = \<lparr> gc_MaxRetries = 5, gc_IdempotencyTTL = 24 * hour \<rparr>"
  by (simp add: gateway_def NewGatewayService_def ref_config_def)

lemma json_valid_field: "json_Valid (go_json id) = json_valid" by (simp add: go_json_def)

lemma json_http_ids:
  "Header_Get [(''Idempotency-Key'', v)] HeaderRequestID = ''''" "Header_Get [(''Idempotency-Key'', v)] HeaderTraceID = ''''"
  by (simp_all add: Header_Get_def header_names)

lemma json_key_name: "CanonicalMIMEHeaderKey ''Idempotency-Key'' = ''Idempotency-Key''" by code_simp

lemma json_enq_clean:
  assumes "er_Payload req = json_payload" "er_JobType req = JobTypeQRScan" "er_IdempotencyKey req \<noteq> ''''"
    and "utf8_Valid (er_IdempotencyKey req)" "er_TraceID req \<noteq> ''''" "utf8_Valid (er_TraceID req)"
  shows "clean_job (enq_job json_gateway req x)"
proof -
  have p: "inner_value json_payload" "Go_Json.compact False json_payload = json_payload" "utf8_Valid JobTypeQRScan"
      "utf8_Valid JobStatusQueued" "utf8_Valid PriorityHigh"
    using json_job_clean by (simp_all add: clean_job_def json_job_def PriorityForType_def)
  have "utf8_Valid (uuid_at ref_runtime n)" for n
    by (rule ascii_utf8) (simp add: ref_runtime_def list_all_iff byte_of_def)
  moreover have "utf8_Valid ''''" by (simp add: utf8_Valid.simps)
  ultimately show ?thesis
    using assms p ref_clock_years
    by (simp add: clean_job_def enq_job_def NewJob_def enq_id_def enq_key_def enq_trace_def PriorityForType_def fits64_def
        gateway_def NewGatewayService_def ref_config_def)
qed

lemma no_header [simp]: "Header_Get [] k = ''''" by (simp add: Header_Get_def)

lemma keeps_ids_text: "st \<noteq> 0 \<Longrightarrow> keeps_ids (text_response st t)"
  by (rule keeps_idsI) (simp add: text_response_def answer_def Write_def set_header_def ids_kept_def ids_other Let_def)

lemma ref_foreign_ok: "foreign_ok ref_chi (ref_deps mb md)"
  by (simp add: foreign_ok_def ref_chi_def keeps_ids_text)

section \<open>Requests that the gateway turns away\<close>

lemma gateway_turned_away:
  assumes chi: "chi_laws C" and redis: "redis_laws R lst ents up elapse"
    and d: "rd_Queue d = RedisQueue_port R J pt" "quiet (rd_GlobalLimiter d)" "quiet (rd_ClientLimiter d)"
    and s: "server_ok J lst ents up (redis (sv_world s))"
    and r: "rq_Method r = ''POST''" "route_path r = ''/api/v1/gateway'' @ p" "rq_RoutePath r = ''''" "rc_err (rq_ctx r) = None"
    and row: "(p, t, v) \<in> set gateway_table" and codes: "{413, 429, 503} \<subseteq> A"
    and inner: "\<And>r1 w1 s1. same_request ((entered C d r s)\<lparr>rq_Body := limited_body d (rq_Body r)\<rparr>) r1 \<Longrightarrow> unwritten w1 \<Longrightarrow>
      untouched s s1 \<Longrightarrow> turned_away A s1 (accept (rd_JSON d) (rd_Gateway d) t v r1 w1 s1)"
  shows "turned_away A s (NewRouter C d r new_response s)"
  unfolding turned_away_outcome
proof (rule gateway_way [OF chi redis d s r row stable_turned_away refl])
  fix r1 w1
  assume l: "same_request ((entered C d r s)\<lparr>rq_Body := limited_body d (rq_Body r)\<rparr>) r1" "unwritten w1"
  have u: "untouched s (snd (after_client C d r s))" by (rule untouched_after(2) [OF d(2,3)])
  from turned_away_trans [OF u inner [OF l u]]
  show "outcome (\<lambda>w s'. rw_status w \<in> A \<and> untouched s s')
      (accept (rd_JSON d) (rd_Gateway d) t v r1 w1 (snd (after_client C d r s)))" by (simp add: turned_away_outcome)
qed (use codes in \<open>auto simp: set_header_def unwritten_status\<close>)

lemma at_handler:
  assumes "chi_laws C" "same_request ((entered C d r s)\<lparr>rq_Body := b\<rparr>) r1"
  shows "rq_Header r1 = rq_Header r" "rq_Body r1 = b" "rc_err (rq_ctx r1) = rc_err (rq_ctx r)"
    "ctx_TraceID (rq_ctx r1) = trace_of d r s" "signature_header r1 = signature_header r"
  using same_requestD [OF assms(2)] enteredD [OF assms(1), of d r s] by (simp_all add: signature_header_def Let_def)

lemma wrap64_load: "queue_load J lst r < 2 ^ 63 \<Longrightarrow> wrap64 (queue_load J lst r) = queue_load J lst r"
  by (rule wrap64_id) (simp_all add: queue_load_def)

lemma turned_awayE:
  "turned_away A s x \<Longrightarrow> \<exists>w' s'. x = (False, w', s') \<and> rw_status w' \<in> A \<and> untouched s s'"
  by (cases x) (auto simp: turned_away_def)

text \<open>
  C29: no forged webhook gets past the door. A payment webhook whose signature is not the HMAC of
  its body is answered with an error, and the tables, the queue, the keys and the scheduled retries
  stay as they were, whatever the limiters, the size limit and the load say.
\<close>

theorem unsigned_webhook_refused:
  assumes chi: "chi_laws C" and redis: "redis_laws R lst ents up elapse"
    and d: "rd_Queue d = RedisQueue_port R J pt" "quiet (rd_GlobalLimiter d)" "quiet (rd_ClientLimiter d)"
    and s: "server_ok J lst ents up (redis (sv_world s))"
    and r: "rq_Method r = ''POST''" "route_path r = ''/api/v1/gateway/payment-webhooks''" "rq_RoutePath r = ''''"
      "rc_err (rq_ctx r) = None"
    and unsigned: "\<not> VerifyHMACSHA256 (gh_hmacSecret (rd_Gateway d)) (bd_bytes (rq_Body r)) (signature_header r)"
  shows "\<exists>w' s'. NewRouter C d r new_response s = (False, w', s') \<and>
    rw_status w' \<in> {400, 401, 413, 429, 503} \<and> untouched s s'"
proof (rule turned_awayE, rule gateway_turned_away [OF chi redis d s r(1) _ r(3,4)])
  fix r1 s1 and w1 :: ResponseWriter
  assume l: "same_request ((entered C d r s)\<lparr>rq_Body := limited_body d (rq_Body r)\<rparr>) r1" "unwritten w1"
  note at = at_handler [OF chi l(1)]
  have "signature_header r1 = signature_header r" by (rule at(5))
  moreover have "io_ReadAll (rq_Body r1) = Inr b \<Longrightarrow> b = bd_bytes (rq_Body r)" for b
    using at(2) by (auto simp: limited_body_def MaxBytesReader_def io_ReadAll_def split: if_splits option.splits)
  ultimately show "turned_away {400, 401, 413, 429, 503} s1 (accept (rd_JSON d) (rd_Gateway d) JobTypePaymentWebhook True r1 w1 s1)"
    using unsigned unwritten_status [OF l(2)]
    by (auto simp: accept_def readBody_def intro!: turned_away_error split: sum.split read_error.split)
qed (use r(2) in \<open>simp_all add: gateway_table_def\<close>)

theorem unsigned_webhook_refused_witness:
  "\<exists>w' s'. NewRouter ref_chi (ref_deps 1024 10) (ref_http ''/api/v1/gateway/payment-webhooks'' ''{}'') new_response
     (ref_server ref_world) = (False, w', s') \<and> rw_status w' \<in> {400, 401, 413, 429, 503} \<and> untouched (ref_server ref_world) s'"
  using unsigned_webhook_refused [OF rchi.chi_laws_axioms ref.redis_laws_axioms, of "ref_deps 1024 10" ref_json 0
      "ref_server ref_world" "ref_http ''/api/v1/gateway/payment-webhooks'' ''{}''"]
  by (simp add: signature_header_def VerifyHMACSHA256_def)

text \<open>
  C33: the size limit holds. A body longer than the configured maximum never reaches the services,
  whether its length was declared or not.
\<close>

theorem oversized_body_refused:
  assumes chi: "chi_laws C" and redis: "redis_laws R lst ents up elapse"
    and d: "rd_Queue d = RedisQueue_port R J pt" "quiet (rd_GlobalLimiter d)" "quiet (rd_ClientLimiter d)"
    and s: "server_ok J lst ents up (redis (sv_world s))"
    and r: "rq_Method r = ''POST''" "route_path r = ''/api/v1/gateway'' @ p" "rq_RoutePath r = ''''"
      "rc_err (rq_ctx r) = None" "p \<in> fst ` set gateway_table"
    and big: "0 < rd_MaxBodyBytes d" "rd_MaxBodyBytes d < int (length (bd_bytes (rq_Body r)))"
  shows "\<exists>w' s'. NewRouter C d r new_response s = (False, w', s') \<and> rw_status w' \<in> {413, 429, 503} \<and> untouched s s'"
proof -
  obtain t v where row: "(p, t, v) \<in> set gateway_table" using r(5) by auto
  show ?thesis
  proof (rule turned_awayE, rule gateway_turned_away [OF chi redis d s r(1-4) row])
    fix r1 s1 and w1 :: ResponseWriter
    assume l: "same_request ((entered C d r s)\<lparr>rq_Body := limited_body d (rq_Body r)\<rparr>) r1" "unwritten w1"
    then have "rq_Body r1 = MaxBytesReader (rq_Body r) (rd_MaxBodyBytes d)"
      using big(1) at_handler(2) [OF chi l(1)] by (simp add: limited_body_def)
    then have "\<exists>n. io_ReadAll (rq_Body r1) = Inl (MaxBytesError n)"
      using big by (auto simp: MaxBytesReader_def io_ReadAll_def split: option.split)
    then show "turned_away {413, 429, 503} s1 (accept (rd_JSON d) (rd_Gateway d) t v r1 w1 s1)"
      using unwritten_status [OF l(2)] by (auto simp: accept_def readBody_def intro!: turned_away_error)
  qed simp
qed


theorem oversized_body_refused_witness:
  "\<exists>w' s'. NewRouter ref_chi (ref_deps 3 10) (ref_http (''/api/v1/gateway'' @ ''/qr-scans'') ''{  }'') new_response
     (ref_server ref_world) = (False, w', s') \<and> rw_status w' \<in> {413, 429, 503} \<and> untouched (ref_server ref_world) s'"
  by (rule oversized_body_refused [OF rchi.chi_laws_axioms ref.redis_laws_axioms, where d = "ref_deps 3 10" and J = ref_json
      and pt = 0 and p = "''/qr-scans''"])
    (simp_all add: gateway_table_def)

section \<open>Load\<close>

text \<open>
  What a request needs to get to the depth check: the global limiter admits it in the state in which
  it is asked, the limiter of the client does in the state that follows, and the declared length is
  within the limit.
\<close>

definition admitted :: "('r, 'd) chi_lib \<Rightarrow> ('r, 'd) RouterDeps \<Rightarrow> Request \<Rightarrow> ('r, 'd) server \<Rightarrow> bool" where
  "admitted C d r s \<longleftrightarrow> fst (after_global d r s) \<and> fst (after_client C d r s) \<and>
     (0 < rd_MaxBodyBytes d \<longrightarrow> rq_ContentLength r \<le> rd_MaxBodyBytes d)"

text \<open>A new bucket admits its first request, so that the reference deployment admits one.\<close>

lemma new_bucket_admits:
  assumes "0 \<le> rps" "0 < burst" "burst \<le> 2 ^ 53" "u \<le> t"
  shows "fst (Bucket_Allow t (NewBucket rps burst u))"
proof -
  let ?b = "NewBucket rps burst u"
  have c: "bk_capacity ?b = of_int burst" "bk_tokens ?b = of_int burst" "0 \<le> bk_refillPerSec ?b" "bk_last ?b = u"
    using assms(1-3) by (simp_all add: NewBucket_def fl64_int)
  have one: "1 \<le> rat_of_int burst" using assms(2) by simp
  have "0 \<le> fl64 (Seconds (time_Sub t u) * bk_refillPerSec ?b)"
    using Seconds_nonneg [OF time_Sub_bounds(1) [OF assms(4)]] c(3) by simp
  then have "fl64 1 \<le> fl64 (of_int burst + fl64 (Seconds (time_Sub t u) * bk_refillPerSec ?b))"
    using one by (intro fl64_mono add_increasing2) simp_all
  moreover have "fl64 1 = 1" using fl64_int [of 1] by simp
  ultimately show ?thesis using assms(2) c by (simp add: Bucket_Allow_def refill_def Let_def)
qed

lemma limiters_admit_first:
  assumes clock: "\<And>m n. m \<le> n \<Longrightarrow> time_at E m \<le> time_at E n"
  shows "sv_global s = NewGlobalLimiter rps burst u \<Longrightarrow> 0 \<le> rps \<Longrightarrow> 0 < burst \<Longrightarrow> burst \<le> 2 ^ 53 \<Longrightarrow>
      u \<le> time_at E (ticks (sv_world s)) \<Longrightarrow> fst (global_limiter E key s)"
    and "map_of (kl_buckets (sv_client s)) key = None \<Longrightarrow> 0 \<le> kl_rps (sv_client s) \<Longrightarrow> 0 < kl_burst (sv_client s) \<Longrightarrow>
      kl_burst (sv_client s) \<le> 2 ^ 53 \<Longrightarrow> fst (client_limiter E key s)"
  using new_bucket_admits [of rps burst u "time_at E (ticks (sv_world s))"]
    new_bucket_admits [of "kl_rps (sv_client s)" "kl_burst (sv_client s)" "time_at E (ticks (sv_world s))"
      "time_at E (Suc (Suc (ticks (sv_world s))))"] clock [of "ticks (sv_world s)" "Suc (Suc (ticks (sv_world s)))"]
  by (simp_all add: global_limiter_def client_limiter_def GlobalLimiter_Allow_def KeyedLimiter_Allow_def NewGlobalLimiter_def
      world_simps case_prod_beta Let_def)

lemma arrived_limiters [simp]:
  "sv_global (arrived d r s) = sv_global s" "sv_client (arrived d r s) = sv_client s"
  "sv_client (snd (global_limiter E key s)) = sv_client s"
  by (simp_all add: arrived_def request_ids_def id_or_new_def global_limiter_def world_simps case_prod_beta Let_def)

lemma ref_server_admits:
  assumes "rd_GlobalLimiter d = global_limiter ref_runtime" "rd_ClientLimiter d = client_limiter ref_runtime"
    and "rq_ContentLength r = -1"
  shows "admitted C d r (ref_server w)"
proof -
  have c: "time_at ref_runtime m \<le> time_at ref_runtime n" if "m \<le> n" for m n
    using that by (simp add: ref_runtime_def min_def)
  have "fst (after_global d r (ref_server w))"
    unfolding after_global_def assms(1)
    by (rule limiters_admit_first(1) [where rps = 100 and burst = 200 and u = 0, OF c])
      (simp_all add: ref_server_def ref_runtime_def)
  moreover have "fst (after_client C d r (ref_server w))"
    unfolding after_client_def assms(2)
    by (rule limiters_admit_first(2) [OF c]) (simp_all add: after_global_def assms(1) ref_server_def NewKeyedLimiter_def)
  ultimately show ?thesis using assms(3) by (simp add: admitted_def)
qed

text \<open>
  C32: load is shed at the threshold. While the queue holds at least the configured number of jobs,
  every request for one of the gateway's routes that passes the limiters is answered with 503 and
  \<open>Retry-After: 2\<close>, and nothing is stored or queued.
\<close>

theorem saturated_queue_sheds:
  assumes chi: "chi_laws C" and redis: "redis_laws R lst ents up elapse"
    and d: "rd_Queue d = RedisQueue_port R J pt" "quiet (rd_GlobalLimiter d)" "quiet (rd_ClientLimiter d)"
    and s: "server_ok J lst ents up (redis (sv_world s))"
    and r: "rq_Method r = ''POST''" "route_path r = ''/api/v1/gateway'' @ p" "rq_RoutePath r = ''''"
      "rc_err (rq_ctx r) = None" "p \<in> fst ` set gateway_table" "admitted C d r s"
    and full: "0 < rd_QueueMaxDepth d" "rd_QueueMaxDepth d \<le> queue_load J lst (redis (sv_world s))"
      "queue_load J lst (redis (sv_world s)) < 2 ^ 63"
  shows "\<exists>w' s'. NewRouter C d r new_response s = (False, w', s') \<and> rw_status w' = 503 \<and>
    Header_Get (rw_sent w') ''Retry-After'' = ''2'' \<and> untouched s s'"
proof -
  obtain t v where row: "(p, t, v) \<in> set gateway_table" using r(5) by auto
  let ?Q = "\<lambda>w s'. rw_status w = 503 \<and> Header_Get (rw_sent w) ''Retry-After'' = ''2'' \<and> untouched s s'"
  have "stable ?Q" by (auto simp: stable_def intro: untouched_trans)
  then have "outcome ?Q (NewRouter C d r new_response s)"
    by (rule gateway_way [OF chi redis d s r(1-4) row _ refl])
      (use full r(6) wrap64_load [OF full(3)] in
        \<open>auto simp: set_header_def Header_Get_Set header_names unwritten_status admitted_def\<close>)
  then show ?thesis by (cases "NewRouter C d r new_response s") (auto simp: outcome_def)
qed

theorem saturated_queue_sheds_witness:
  "\<exists>w' s'. NewRouter ref_chi (ref_deps 1024 1) (ref_http (''/api/v1/gateway'' @ ''/qr-scans'') ''{}'') new_response
     (ref_server ref_loaded) = (False, w', s') \<and> rw_status w' = 503 \<and>
   Header_Get (rw_sent w') ''Retry-After'' = ''2'' \<and> untouched (ref_server ref_loaded) s'"
  by (rule saturated_queue_sheds [OF rchi.chi_laws_axioms ref.redis_laws_axioms, where d = "ref_deps 1024 1" and J = ref_json
      and pt = 0 and p = "''/qr-scans''"])
    (simp_all add: gateway_table_def ref_server_admits ref_loaded_ok queue_load_def)

section \<open>Accepted requests\<close>

definition http_request :: "JobType \<Rightarrow> Request \<Rightarrow> string \<Rightarrow> EnqueueRequest" where
  "http_request t r trace = \<lparr> er_JobType = t, er_Payload = bd_bytes (rq_Body r),
     er_IdempotencyKey = Header_Get (rq_Header r) ''Idempotency-Key'', er_TraceID = trace \<rparr>"

lemma accept_new:
  assumes "readBody r w = Inr b" "v \<longrightarrow> VerifyHMACSHA256 (gh_hmacSecret h) b (signature_header r)"
    and "validatePayload J t b = None"
    and "gh_enqueuer h (rc_err (rq_ctx r)) (enqueue_request t b r) (sv_world s) =
      (Inr \<lparr> res_Job = j, res_Duplicate = False \<rparr>, x)"
  shows "accept J h t v r w s = (False, WriteJSON 202 (AcceptResponse (job_ID j) (job_Status j) t False
    (ctx_TraceID (rq_ctx r))) w, s\<lparr>sv_world := x\<rparr>)"
  using assms by (auto simp: accept_def on_world_def answer_def)

lemma WriteJSON_body: "unwritten w \<Longrightarrow> json_encode (\<lambda>_. '''') v = Inr b \<Longrightarrow> st \<noteq> 0 \<Longrightarrow> rw_body (WriteJSON st v w) = b @ [CHR 0x0A]"
  by (simp add: WriteJSON_def Encode_def Write_def set_header_def unwritten_def Let_def)

text \<open>An accepted response is always encodable.\<close>

lemma accept_response_encodes:
  obtains b where "json_encode msg (AcceptResponse i st ty dup tr) = Inr b"
  unfolding AcceptResponse_def omitempty_def by (cases "tr = ''''") auto

text \<open>
  C28: from HTTP to the queue. A request on one of the four routes that the limiters admit and that
  passes size limit, signature and validation, under a key nobody holds, is answered with 202 and the
  identifier, status, type and trace of a new job; that job is stored as QUEUED and queued last at
  the level of its type. The job is the one \<open>Enqueue\<close> makes in the state in which the request reaches
  its handler, and it has to survive serialisation.
\<close>

theorem gateway_accepts_request:
  assumes chi: "chi_laws C" and redis: "redis_laws R lst ents up elapse"
    and store: "store_contract S tab dok oktext okjson np na"
    and svc: "svc = gateway R J pt S cfg E" "whole_ms (gc_IdempotencyTTL (gs_cfg svc))"
    and d: "rd_Queue d = RedisQueue_port R J pt" "quiet (rd_GlobalLimiter d)" "quiet (rd_ClientLimiter d)"
      "rd_Gateway d = NewGatewayHandler (Enqueue svc) secret" "rd_JSON d = J"
    and s: "server_ok J lst ents up (redis (sv_world s))" "dok (db (sv_world s))"
    and r: "rq_Method r = ''POST''" "route_path r = ''/api/v1/gateway'' @ p" "rq_RoutePath r = ''''"
      "rc_err (rq_ctx r) = None" "admitted C d r s" "(p, t, v) \<in> set gateway_table"
    and body: "rq_Body r = \<lparr> bd_bytes = b, bd_err = None, bd_limit = None \<rparr>" "b \<noteq> ''''"
      "0 < rd_MaxBodyBytes d \<longrightarrow> int (length b) \<le> rd_MaxBodyBytes d"
    and signed: "v \<longrightarrow> VerifyHMACSHA256 secret b (signature_header r)"
    and valid: "validatePayload J t b = None" "json_Valid J b"
    and room: "0 < rd_QueueMaxDepth d \<longrightarrow> queue_load J lst (redis (sv_world s)) < rd_QueueMaxDepth d"
      "queue_load J lst (redis (sv_world s)) < 2 ^ 63"
    and job: "req = http_request t r (trace_of d r s)" "x = sv_world (snd (after_client C d r s))" "j = enq_job svc req x"
      "wire J j" "okjob oktext okjson j" "t_jobs (tab (db (sv_world s))) (job_ID j) = None"
    and key: "ents (redis (sv_world s)) (enq_redisKey svc req) = None"
  shows "\<exists>w' s' a. NewRouter C d r new_response s = (False, w', s') \<and> rw_status w' = 202 \<and>
    json_encode (\<lambda>_. '''') (AcceptResponse (job_ID j) JobStatusQueued t False (trace_of d r s)) = Inr a \<and>
    rw_body w' = a @ [CHR 0x0A] \<and> job_JobType j = t \<and> job_Payload j = b \<and>
    t_jobs (tab (db (sv_world s'))) = (t_jobs (tab (db (sv_world s))))(job_ID j \<mapsto> stored_job np na j) \<and>
    queue_view J lst (redis (sv_world s')) = (queue_view J lst (redis (sv_world s)))(level (PriorityForType t) :=
      queue_view J lst (redis (sv_world s)) (level (PriorityForType t)) @ [j])"
proof -
  define tr where "tr = trace_of d r s"
  obtain a where a: "json_encode (\<lambda>_. '''') (AcceptResponse (job_ID j) JobStatusQueued t False tr) = Inr a"
    by (rule accept_response_encodes)
  define Q :: "ResponseWriter \<Rightarrow> ('a, 'b) server \<Rightarrow> bool" where "Q = (\<lambda>w s'. rw_status w = 202 \<and> rw_body w = a @ [CHR 0x0A] \<and>
    t_jobs (tab (db (sv_world s'))) = (t_jobs (tab (db (sv_world s))))(job_ID j \<mapsto> stored_job np na j) \<and>
    queue_view J lst (redis (sv_world s')) = (queue_view J lst (redis (sv_world s)))(level (PriorityForType t) :=
      queue_view J lst (redis (sv_world s)) (level (PriorityForType t)) @ [j]))"
  have st: "stable Q" unfolding stable_def Q_def by (auto simp: untouched_def)
  have env: "gateway_env R lst ents up elapse J pt S tab dok oktext okjson np na cfg E"
    using gateway_envI [OF redis store] svc by simp
  define s1 where "s1 = snd (after_client C d r s)"
  have x: "redis x = redis (sv_world s)" "db x = db (sv_world s)" "sv_world s1 = x"
    using untouched_after(2) [OF d(2,3), of s C r] by (simp_all add: untouched_def job(2) s1_def)
  have j: "job_ID j = enq_id svc req x" "job_Priority j = PriorityForType t" "job_JobType j = t"
    "job_Payload j = b" "job_Status j = JobStatusQueued"
    using body(1) by (simp_all add: job(1,3) http_request_def)
  have "JobType_Valid t" using r(6) by (auto simp: gateway_table_def JobType_Valid_def)
  then have adm: "admissible svc req" using body valid(2) by (simp add: admissible_def http_request_def svc(1) job(1))
  obtain x' where x': "Enqueue svc None req x = (Inr \<lparr> res_Job = j, res_Duplicate = False \<rparr>, x')"
    "queue_view J lst (redis x') = (queue_view J lst (redis x))(level (job_Priority j) :=
      queue_view J lst (redis x) (level (job_Priority j)) @ [j])"
    "tab (db x') = (tab (db x))\<lparr>t_jobs := (t_jobs (tab (db x)))(enq_id svc req x \<mapsto> stored_job np na j)\<rparr>"
    using gateway_env.redis_fresh [OF env, folded svc(1), OF adm, of x] s x(1,2) key job(4-6) j(1) unfolding job(3) by auto
  have "outcome Q (NewRouter C d r new_response s)"
  proof (rule gateway_way [OF chi redis d(1-3) s(1) r(1-4) r(6) st refl])
    fix r1 w1
    assume l: "same_request ((entered C d r s)\<lparr>rq_Body := limited_body d (rq_Body r)\<rparr>) r1" "unwritten w1"
    note at = at_handler [OF chi l(1)]
    have read: "readBody r1 w1 = Inr b"
      using at(2) body by (auto simp: readBody_def limited_body_def MaxBytesReader_def io_ReadAll_def)
    have "enqueue_request t b r1 = req" "rc_err (rq_ctx r1) = None"
      using at r(4) body(1) by (simp_all add: enqueue_request_def http_request_def job(1))
    then have "accept J (rd_Gateway d) t v r1 w1 s1 =
        (False, WriteJSON 202 (AcceptResponse (job_ID j) JobStatusQueued t False tr) w1, s1\<lparr>sv_world := x'\<rparr>)"
      using accept_new [OF read _ valid(1), of v _ s1 j x'] signed x'(1) x(3) at(4,5) j(5)
      by (simp add: d(4) NewGatewayHandler_def tr_def)
    moreover have "Q (WriteJSON 202 (AcceptResponse (job_ID j) JobStatusQueued t False tr) w1) (s1\<lparr>sv_world := x'\<rparr>)"
      using WriteJSON_body [OF l(2) a, of 202] unwritten_status [OF l(2)] x(1,2) x'(2,3) j(1,2) unfolding Q_def by simp
    ultimately show "outcome Q (accept (rd_JSON d) (rd_Gateway d) t v r1 w1 (snd (after_client C d r s)))"
      unfolding d(5) s1_def [symmetric] by (simp add: outcome_def)
  qed (use room r(5) wrap64_load [OF room(2)] in \<open>auto simp: admitted_def\<close>)
  then show ?thesis using a j(3,4) unfolding outcome_def Q_def tr_def by (cases "NewRouter C d r new_response s") auto
qed

theorem gateway_accepts_request_witness:
  "\<exists>w' s' j. NewRouter ref_chi json_deps json_http new_response (ref_server ref_world) = (False, w', s') \<and> rw_status w' = 202 \<and>
     queue_view (go_json id) rf_lists (redis (sv_world s')) 0 = [j] \<and> job_JobType j = JobTypeQRScan \<and>
     job_Payload j = json_payload"
proof -
  let ?x = "sv_world (snd (after_client ref_chi json_deps json_http (ref_server ref_world)))"
  let ?req = "http_request JobTypeQRScan json_http (trace_of json_deps json_http (ref_server ref_world))"
  have tr: "trace_of json_deps json_http (ref_server ref_world) = ''uu''"
    by (simp add: trace_of_def request_ids_def id_or_new_def Let_def case_prod_beta world_simps json_http_ids ref_runtime_def)
  have clean: "clean_job (enq_job json_gateway ?req ?x)"
    by (rule json_enq_clean) (simp_all add: http_request_def tr Header_Get_def json_key_name ascii_utf8 byte_of_def)
  have ok: "validatePayload (go_json id) JobTypeQRScan json_payload = None \<and> json_valid json_payload \<and> json_payload \<noteq> [] \<and>
      length json_payload \<le> 1024"
    unfolding json_payload_def by code_simp
  from gateway_accepts_request [OF rchi.chi_laws_axioms ref.redis_laws_axioms mem.store_contract_axioms refl, where
      J = "go_json id" and pt = 0 and cfg = ref_config and E = ref_runtime and d = json_deps and secret = "''whsec''"
      and s = "ref_server ref_world" and r = json_http and p = "''/qr-scans''" and t = JobTypeQRScan and v = False
      and b = json_payload and req = ?req and x = ?x and j = "enq_job json_gateway ?req ?x"]
    ok wire_clean_job [OF clean, of id]
  show ?thesis
    by (simp add: gateway_table_def ref_server_admits whole_ms_def queue_load_def json_gateway_cfg json_valid_field)
      (auto simp: PriorityForType_def level_def)
qed

section \<open>Administration behind a token\<close>

text \<open>
  C30: the admin API needs an admin token. A request below \<open>/api/v1/admin\<close> whose authorization
  header carries no token that is genuine under the secret, from the issuer, of the role admin and in
  its period at the time it is checked, is answered with 401, 403 or 429, or with 405 where chi does
  not know its method, and changes no table, list or key.
\<close>

theorem admin_needs_token:
  assumes chi: "chi_laws C" and jwt: "jwt_laws (rd_JWTLib d) genuine okclaims"
    and d: "quiet (rd_GlobalLimiter d)" "m = rd_JWT d"
    and r: "rq_RoutePath r = ''''" "route_path r = ''/api/v1/admin/'' @ rest"
    and tok: "tok = bearer_token (Header_Get (rq_Header r) ''Authorization'')"
    and now: "now = time_at (rd_rt d) (ticks (sv_world (snd (after_global d r s))))"
    and no: "\<And>cl. genuine ''HS256'' (jm_secret m) tok cl \<Longrightarrow> in_period cl now \<Longrightarrow>
      (jm_issuer m \<noteq> '''' \<longrightarrow> cl_Issuer cl = jm_issuer m) \<Longrightarrow> cl_Role cl \<noteq> ''admin''"
  shows "\<exists>w' s'. NewRouter C d r new_response s = (False, w', s') \<and>
    rw_status w' \<in> (if rq_Method r \<in> set chi_methods then {401, 403, 429} else {405}) \<and> untouched s s'"
proof (rule turned_awayE, cases "rq_Method r \<in> set chi_methods")
  case False
  with unknown_method_refused [OF chi False]
  show "turned_away (if rq_Method r \<in> set chi_methods then {401, 403, 429} else {405}) s (NewRouter C d r new_response s)"
    by simp
next
  case True
  let ?Q = "\<lambda>w s'. rw_status w \<in> {401, 403, 429} \<and> untouched s s'"
  define s1 where "s1 = snd (after_global d r s)"
  have us: "untouched s s1" unfolding s1_def by (rule untouched_after(1) [OF d(1)])
  have path: "route_path r = ''/api/v1'' @ fst (''/admin'', admin_routes C d) @ ''/'' @ rest" using r(2) by simp
  have "outcome ?Q (admin_routes C d r1 w1 s1)" if l: "same_request (entered C d r s) r1" "unwritten w1" for r1 w1
  proof -
    define f where "f = (Verify (rd_JWTLib d) (rd_rt d) m (bearer_token (Header_Get (rq_Header r) ''Authorization'')) :: ('a, 'b) world \<Rightarrow> (goerr + Claims) \<times> ('a, 'b) world)"
    have h: "rq_Header r1 = rq_Header r" using same_requestD(4) [OF l(1)] enteredD(2) [OF chi] by simp
    have u: "untouched s (snd (on_world f s1))"
      unfolding f_def using untouched_verify us untouched_trans by blast
    have "cl_Role cl \<noteq> ''admin''" if "fst (on_world f s1) = Inr cl" for cl
      using no that unfolding tok now s1_def [symmetric] f_def on_world_simps(1) jwt_laws.verify_iff [OF jwt] by blast
    then show ?thesis
      unfolding admin_routes_def JWTAuth_def h d(2) [symmetric]
      using us u unwritten_status [OF l(2)]
      by (auto simp: Let_def case_prod_beta outcome_def f_def [symmetric] split: sum.split)
  qed
  then have "outcome ?Q (NewRouter C d r new_response s)"
    using us untouched_trans
    by (intro through_api [OF chi True r(1) path _ stable_turned_away])
      (auto simp: set_header_def unwritten_status s1_def)
  with True show "turned_away (if rq_Method r \<in> set chi_methods then {401, 403, 429} else {405}) s (NewRouter C d r new_response s)"
    by (simp add: turned_away_outcome)
qed

theorem admin_needs_token_witness:
  "\<exists>w' s'. NewRouter ref_chi (ref_deps 1024 10) (ref_http (''/api/v1/admin/'' @ ''jobs/j1/retry'') '''') new_response
     (ref_server ref_dead_world) = (False, w', s') \<and>
   rw_status w' \<in> (if rq_Method (ref_http (''/api/v1/admin/'' @ ''jobs/j1/retry'') '''') \<in> set chi_methods
     then {401, 403, 429} else {405}) \<and> untouched (ref_server ref_dead_world) s'"
proof (rule admin_needs_token [OF rchi.chi_laws_axioms _ _ refl _ _ refl refl, of "ref_deps 1024 10" ref_genuine "\<lambda>_. True"])
  show "jwt_laws (rd_JWTLib (ref_deps 1024 10)) ref_genuine (\<lambda>_. True)" using rjwt.jwt_laws_axioms by simp
  have "bearer_token '''' = ''''" by (simp add: bearer_token_def TrimSpace_def TrimLeft.simps TrimRight.simps strings_TrimPrefix_def)
  moreover have "ref_claims '''' = None" by (simp add: ref_claims_def)
  ultimately show "cl_Role cl \<noteq> ''admin''"
    if "ref_genuine ''HS256'' (jm_secret (rd_JWT (ref_deps 1024 10)))
      (bearer_token (Header_Get (rq_Header (ref_http (''/api/v1/admin/'' @ ''jobs/j1/retry'') '''')) ''Authorization'')) cl" for cl
    using that by (simp add: ref_genuine_def)
qed simp_all

section \<open>Correlation\<close>

text \<open>The header a client receives: the one at the first write, or the map if nothing was written.\<close>

definition sent_header :: "ResponseWriter \<Rightarrow> header" where
  "sent_header w = (if rw_status w = 0 then rw_Header w else rw_sent w)"

definition given_or :: "string \<Rightarrow> string \<Rightarrow> string" where
  "given_or i new = (if i = '''' then new else i)"

text \<open>
  C31: every response can be correlated and no panic escapes. Whatever the route, the handler and
  the outcome, a handler that panics included, the router returns normally and the response
  carries the request id and the trace id of the request, or fresh ones where it had none.
\<close>

theorem responses_correlated:
  assumes chi: "chi_laws C" and f: "foreign_ok C d"
  shows "\<exists>w' s'. NewRouter C d r new_response s = (False, w', s') \<and>
    Header_Get (sent_header w') ''X-Request-ID'' =
      given_or (Header_Get (rq_Header r) ''X-Request-ID'') (uuid_at (rd_rt d) (uuids (sv_world s))) \<and>
    Header_Get (sent_header w') ''X-Trace-ID'' =
      given_or (Header_Get (rq_Header r) ''X-Trace-ID'')
        (uuid_at (rd_rt d) (uuids (sv_world s) + (if Header_Get (rq_Header r) ''X-Request-ID'' = '''' then 1 else 0)))"
proof -
  obtain a where ip: "chi_RealIP C r = r\<lparr>rq_RemoteAddr := a\<rparr>" using chi_laws.real_ip [OF chi] by blast
  define h where "h = Recovery (Logging (rd_rt d) (Metrics_mw (chi_RoutePattern C)
      (mux C (top_routes d) [(''/api/v1'', api_routes C d)])))"
  have keep: "keeps_ids h" unfolding h_def by (intro keeps_ids_middleware keeps_ids_top f)
  have calm: "\<not> fst (h r1 w1 s1)" for r1 w1 s1 by (simp add: h_def Recovery_def Let_def case_prod_beta)
  define i where "i = given_or (Header_Get (rq_Header r) ''X-Request-ID'') (uuid_at (rd_rt d) (uuids (sv_world s)))"
  define t where "t = given_or (Header_Get (rq_Header r) ''X-Trace-ID'')
        (uuid_at (rd_rt d) (uuids (sv_world s) + (if Header_Get (rq_Header r) ''X-Request-ID'' = '''' then 1 else 0)))"
  define w1 where "w1 = set_header HeaderTraceID t (set_header HeaderRequestID i new_response)"
  have "\<exists>r1 s1. NewRouter C d r new_response s = h r1 w1 s1"
    unfolding NewRouter_def ip h_def [symmetric] RequestID_def
    by (auto simp: Let_def case_prod_beta id_or_new_def world_simps w1_def i_def t_def given_or_def
        HeaderRequestID_def HeaderTraceID_def)
  then obtain r1 s1 where run: "NewRouter C d r new_response s = h r1 w1 s1" by blast
  have w1: "rw_status w1 = 0" "Header_Get (rw_Header w1) HeaderRequestID = i" "Header_Get (rw_Header w1) HeaderTraceID = t"
    by (simp_all add: w1_def set_header_def new_response_def Header_Get_Set header_names)
  have "ids_kept w1 (fst (snd (h r1 w1 s1)))" by (rule keeps_idsD [OF keep w1(1)])
  then have "Header_Get (sent_header (fst (snd (h r1 w1 s1)))) ''X-Request-ID'' = i"
    "Header_Get (sent_header (fst (snd (h r1 w1 s1)))) ''X-Trace-ID'' = t"
    using w1(2,3) by (auto simp: ids_kept_def sent_header_def HeaderRequestID_def HeaderTraceID_def)
  with run calm [of r1 w1 s1] show ?thesis unfolding i_def t_def by (cases "h r1 w1 s1") auto
qed

theorem responses_correlated_witness:
  "\<exists>w' s'. NewRouter ref_chi (ref_deps 1024 10) (ref_http ''/nowhere'' '''') new_response (ref_server ref_world) = (False, w', s') \<and>
     Header_Get (sent_header w') ''X-Request-ID'' = ''u'' \<and> Header_Get (sent_header w') ''X-Trace-ID'' = ''uu''"
  using responses_correlated [OF rchi.chi_laws_axioms ref_foreign_ok, of 1024 10 "ref_http ''/nowhere'' ''''" "ref_server ref_world"]
  by (simp add: given_or_def ref_runtime_def)

section \<open>Validation at the door\<close>

text \<open>
  An error after which a job is not tried again, and ports that never report one: the sentinel
  \<open>ErrNonRetryable\<close> belongs to the workers, no store, cache or provider returns it.
\<close>

definition final_error :: "goerr option \<Rightarrow> bool" where
  "final_error x \<longleftrightarrow> (\<exists>e. x = Some e \<and> errors_Is e ErrNonRetryable)"

definition plain_store :: "'d Store_port \<Rightarrow> bool" where
  "plain_store S \<longleftrightarrow> (\<forall>c x d. \<not> final_error (fst (sCreateRegistration S c x d))) \<and>
     (\<forall>c x d. \<not> final_error (fst (sUpsertPaymentEvent S c x d))) \<and>
     (\<forall>c x d. \<not> final_error (fst (sCreateQRScanEvent S c x d))) \<and>
     (\<forall>c x d. \<not> final_error (fst (sCreateNotificationEvent S c x d)))"

definition plain_cache :: "'r Cache_port \<Rightarrow> bool" where
  "plain_cache ch \<longleftrightarrow> (\<forall>c k v t r. \<not> final_error (err_of (fst (cSetNX ch c k v t r))))"

definition plain_sender :: "('r, 'd) Sender \<Rightarrow> bool" where
  "plain_sender snd' \<longleftrightarrow> (\<forall>c ch to sb bd w. \<not> final_error (fst (snd' c ch to sb bd w)))"

lemma final_error_simps [simp]:
  "final_error (Some (nonRetryable m))" "\<not> final_error None" "final_error (Some (Wrap a e b)) \<longleftrightarrow> final_error (Some e)"
  by (simp_all add: final_error_def)

lemma plain_storeD:
  assumes "plain_store S"
  shows "fst (sCreateRegistration S c x1 d) = Some e \<Longrightarrow> \<not> final_error (Some e)"
    "fst (sUpsertPaymentEvent S c x2 d) = Some e \<Longrightarrow> \<not> final_error (Some e)"
    "fst (sCreateQRScanEvent S c x3 d) = Some e \<Longrightarrow> \<not> final_error (Some e)"
    "fst (sCreateNotificationEvent S c x4 d) = Some e \<Longrightarrow> \<not> final_error (Some e)"
  using assms unfolding plain_store_def by metis+

lemma plain_portD:
  "plain_cache ch \<Longrightarrow> fst (cSetNX ch c k v t r) = Inl e \<Longrightarrow> \<not> final_error (Some e)"
  "plain_sender f \<Longrightarrow> fst (f c cn to sb bd w) = Some e \<Longrightarrow> \<not> final_error (Some e)"
  unfolding plain_cache_def plain_sender_def by (metis err_of.simps(1), metis)

lemma empty_status: "'''' \<notin> set validPaymentStatuses"
  by (simp add: validPaymentStatuses_def)

lemma registration_final:
  assumes "plain_store S"
  shows "final_error (fst (RegistrationProcessor_Process J E (NewRegistrationProcessor S A enq) c job w)) \<longleftrightarrow>
    validatePayload J JobTypeRegistration (job_Payload job) \<noteq> None"
proof (cases "json_Unmarshal_Registration J (job_Payload job)")
  case (Inr inp)
  with assms show ?thesis
    by (auto simp: RegistrationProcessor_Process_def validatePayload_def NewRegistrationProcessor_def required_def
        world_simps Let_def case_prod_beta dest: plain_storeD split: option.split)
qed (simp add: RegistrationProcessor_Process_def validatePayload_def)

lemma payment_final:
  assumes "plain_store S"
  shows "final_error (fst (PaymentProcessor_Process J E (NewPaymentProcessor S A) c job w)) \<longleftrightarrow>
    validatePayload J JobTypePaymentWebhook (job_Payload job) \<noteq> None \<or>
    (\<exists>inp. json_Unmarshal_Payment J (job_Payload job) = Inr inp \<and> pw_PaymentStatus inp \<notin> set validPaymentStatuses)"
proof (cases "json_Unmarshal_Payment J (job_Payload job)")
  case (Inr inp)
  with assms show ?thesis
    by (auto simp: PaymentProcessor_Process_def validatePayload_def NewPaymentProcessor_def required_def jobtype_defs
        empty_status world_simps Let_def case_prod_beta dest: plain_storeD split: option.split)
qed (simp add: PaymentProcessor_Process_def validatePayload_def jobtype_defs)

lemma scan_final:
  assumes "plain_store S" "plain_cache ch"
  shows "final_error (fst (QRScanProcessor_Process J E (NewQRScanProcessor S A ch ttl) c job w)) \<longleftrightarrow>
    validatePayload J JobTypeQRScan (job_Payload job) \<noteq> None"
proof (cases "json_Unmarshal_QRScan J (job_Payload job)")
  case (Inr inp)
  with assms show ?thesis
    by (auto simp: QRScanProcessor_Process_def validatePayload_def NewQRScanProcessor_def required_def jobtype_defs
        world_simps Let_def case_prod_beta dest: plain_storeD plain_portD split: option.split sum.split)
qed (simp add: QRScanProcessor_Process_def validatePayload_def jobtype_defs)

lemma notification_final:
  assumes "plain_store S" "\<And>x. sender = Some x \<Longrightarrow> plain_sender x"
  shows "final_error (fst (NotificationProcessor_Process J E (NewNotificationProcessor S A sender) c job w)) \<longleftrightarrow>
    validatePayload J JobTypeNotification (job_Payload job) \<noteq> None"
proof (cases "json_Unmarshal_Notification J (job_Payload job)")
  case (Inr inp)
  with assms show ?thesis
    by (auto simp: NotificationProcessor_Process_def validatePayload_def NewNotificationProcessor_def required_def jobtype_defs
        SimulatedSender_Send_def world_simps Let_def case_prod_beta dest: plain_storeD plain_portD split: option.split)
qed (simp add: NotificationProcessor_Process_def validatePayload_def jobtype_defs)

text \<open>
  C34: what the gateway lets in, the workers do not throw away. Whatever the job, the state and the
  context, the processor of a registration, a scan or a notification gives the job up as not
  retryable exactly when the gateway's synchronous validation refuses its payload; the one of a
  payment does so as well for a status it does not know, which the gateway lets in. Ports are any
  whose errors do not carry the workers' own sentinel.
\<close>

theorem validation_matches_processors:
  assumes "plain_store S" "plain_cache ch" "\<And>x. sender = Some x \<Longrightarrow> plain_sender x"
  shows "(final_error (fst (RegistrationProcessor_Process J E (NewRegistrationProcessor S A enq) c job w)) \<longleftrightarrow>
      validatePayload J JobTypeRegistration (job_Payload job) \<noteq> None) \<and>
    (final_error (fst (QRScanProcessor_Process J E (NewQRScanProcessor S A ch ttl) c job w)) \<longleftrightarrow>
      validatePayload J JobTypeQRScan (job_Payload job) \<noteq> None) \<and>
    (final_error (fst (NotificationProcessor_Process J E (NewNotificationProcessor S A sender) c job w)) \<longleftrightarrow>
      validatePayload J JobTypeNotification (job_Payload job) \<noteq> None) \<and>
    (final_error (fst (PaymentProcessor_Process J E (NewPaymentProcessor S A) c job w)) \<longleftrightarrow>
      validatePayload J JobTypePaymentWebhook (job_Payload job) \<noteq> None \<or>
      (\<exists>inp. json_Unmarshal_Payment J (job_Payload job) = Inr inp \<and> pw_PaymentStatus inp \<notin> set validPaymentStatuses))"
  by (intro conjI registration_final payment_final scan_final notification_final assms(1,2)) (rule assms(3))

lemma ref_ports_plain: "plain_store MemStore_port" "plain_cache (RedisCache_port ref_client)"
proof -
  have "\<not> errors_Is (ctx_error e) ErrNonRetryable" for e by (cases e) simp_all
  then show "plain_cache (RedisCache_port ref_client)"
    by (auto simp: plain_cache_def final_error_def RedisCache_port_def RedisCache_SetNX_def ref_client_def ref_run_def
        ref_refused_def split: option.split if_splits)
qed (simp add: plain_store_def MemStore_port_def MemStore_CreateRegistration_def MemStore_UpsertPaymentEvent_def
    MemStore_CreateQRScanEvent_def MemStore_CreateNotificationEvent_def Let_def split: option.split)

theorem validation_matches_processors_witness:
  "(final_error (fst (QRScanProcessor_Process (go_json id) ref_runtime ref_qr None json_job json_loaded)) \<longleftrightarrow>
      validatePayload (go_json id) JobTypeQRScan json_payload \<noteq> None) \<and>
   (final_error (fst (PaymentProcessor_Process ref_json ref_runtime (NewPaymentProcessor MemStore_port MemStore_port) None
      (ref_webhook ''LOST'') ref_world)) \<longleftrightarrow> validatePayload ref_json JobTypePaymentWebhook (job_Payload (ref_webhook ''LOST'')) \<noteq> None \<or>
      (\<exists>inp. json_Unmarshal_Payment ref_json (job_Payload (ref_webhook ''LOST'')) = Inr inp \<and>
        pw_PaymentStatus inp \<notin> set validPaymentStatuses))"
  using validation_matches_processors [OF ref_ports_plain, of None "go_json id" ref_runtime MemStore_port _ None json_job json_loaded 0]
    validation_matches_processors [OF ref_ports_plain, of None ref_json ref_runtime MemStore_port _ None "ref_webhook ''LOST''" ref_world 0]
  by (simp add: json_job_def)

end
