(* ===== verification/Pool_Machine.thy ===== *)
theory Pool_Machine
  imports Reference_Instance
begin

text \<open>
  The goroutines of \<open>internal/worker/pool.go\<close> as a state machine: the dispatcher, the buffered
  channel, the workers, the delayed retries and the shutdown. A worker moves in phases, between
  which the other goroutines run; the calls of one phase (the processor's own, and those that
  record an outcome) are one step. What other components do to the shared services is a parameter.
\<close>

section \<open>State\<close>

datatype ('r, 'd) phase =
    WIdle
  | WGot Job
  | WChecked Job time "('r, 'd) processor"
  | WLocked Job time "('r, 'd) processor"
  | WMarked Job time "('r, 'd) processor"
  | WRan Job time "goerr option"
  | WUnlocking Job
  | WLeaving
  | WExited

datatype dispatcher = DCheck | DPop | DSleep | DSend Job | DDone

record ('r, 'd) machine =
  mc_world :: "('r, 'd) world"
  mc_ctx :: ctx
  mc_disp :: dispatcher
  mc_chan :: "Job list"
  mc_closed :: bool
  mc_workers :: "('r, 'd) phase list"

definition Start :: "('r, 'd) Pool \<Rightarrow> ('r, 'd) world \<Rightarrow> ('r, 'd) machine" where
  "Start p w = \<lparr> mc_world = w, mc_ctx = None, mc_disp = DCheck, mc_chan = [], mc_closed = False,
     mc_workers = replicate (nat (p_workerCount p)) WIdle \<rparr>"

section \<open>Steps\<close>

text \<open>The phases of \<open>process\<close>, one after the other.\<close>

fun worker_step ::
  "('r, 'd) Pool \<Rightarrow> ctx \<Rightarrow> ('r, 'd) phase \<Rightarrow> ('r, 'd) world \<Rightarrow> ('r, 'd) phase \<times> ('r, 'd) world" where
  "worker_step p c (WGot job) w =
     (let w1 = bump (\<lambda>m. m\<lparr>m_WorkersActive := m_WorkersActive m + 1\<rparr>) w;
          (start, w2) = time_Now (p_rt p) w1
      in case p_registry p (job_JobType job) of
           None \<Rightarrow> (WLeaving, toDeadLetter p c job ''no processor registered'' w2)
         | Some proc \<Rightarrow>
             (let (g, w3) = on_redis (cGet (p_cache p) c (done_key job)) w2;
                  finished = (case g of Inr (Some v) \<Rightarrow> v | _ \<Rightarrow> '''')
              in if finished \<noteq> '''' then (WLeaving, w3) else (WChecked job start proc, w3)))"
| "worker_step p c (WChecked job start proc) w =
     (let (a, w1) = on_redis (cSetNX (p_cache p) c (lock_key job) ''1'' lockTTL) w
      in if a = Inr True then (WLocked job start proc, w1) else (WLeaving, w1))"
| "worker_step p c (WLocked job start proc) w =
     (let (job', w1) = process_mark p c job w in (WMarked job' start proc, w1))"
| "worker_step p c (WMarked job start proc) w =
     (let (err, w1) = proc c job w in (WRan job start err, w1))"
| "worker_step p c (WRan job start err) w = (WUnlocking job, process_finish p c job start err w)"
| "worker_step p c (WUnlocking job) w = (WLeaving, process_unlock p c job w)"
| "worker_step p c WLeaving w = (WIdle, process_exit w)"
| "worker_step p c WIdle w = (WIdle, w)"
| "worker_step p c WExited w = (WExited, w)"

fun worker_run ::
  "nat \<Rightarrow> ('r, 'd) Pool \<Rightarrow> ctx \<Rightarrow> ('r, 'd) phase \<times> ('r, 'd) world \<Rightarrow> ('r, 'd) phase \<times> ('r, 'd) world" where
  "worker_run 0 p c x = x"
| "worker_run (Suc n) p c x = worker_run n p c (worker_step p c (fst x) (snd x))"

definition busy :: "('r, 'd) phase \<Rightarrow> bool" where
  "busy ph \<longleftrightarrow> ph \<noteq> WIdle \<and> ph \<noteq> WExited"

text \<open>Where the dispatcher goes from a pop.\<close>

definition after_pop :: "goerr + Job option \<Rightarrow> dispatcher" where
  "after_pop x = (case x of Inl _ \<Rightarrow> DSleep | Inr None \<Rightarrow> DCheck | Inr (Some job) \<Rightarrow> DSend job)"

definition remove_nth :: "nat \<Rightarrow> 'a list \<Rightarrow> 'a list" where
  "remove_nth k xs = take k xs @ drop (Suc k) xs"

inductive pool_action :: "('r, 'd) Pool \<Rightarrow> ('r, 'd) machine \<Rightarrow> ('r, 'd) machine \<Rightarrow> bool" for p where
  dispatch_live: "mc_disp s = DCheck \<Longrightarrow> mc_ctx s = None \<Longrightarrow> pool_action p s (s\<lparr>mc_disp := DPop\<rparr>)"
| dispatch_stop: "mc_disp s = DCheck \<Longrightarrow> mc_ctx s \<noteq> None \<Longrightarrow>
    pool_action p s (s\<lparr>mc_disp := DDone, mc_closed := True\<rparr>)"
| dispatch_pop: "mc_disp s = DPop \<Longrightarrow> on_redis (qPop (p_queue p) (mc_ctx s)) (mc_world s) = (x, w) \<Longrightarrow>
    pool_action p s (s\<lparr>mc_disp := after_pop x, mc_world := w\<rparr>)"
| dispatch_wake: "mc_disp s = DSleep \<Longrightarrow> pool_action p s (s\<lparr>mc_disp := DCheck\<rparr>)"
| dispatch_quit: "mc_disp s = DSleep \<Longrightarrow> mc_ctx s \<noteq> None \<Longrightarrow>
    pool_action p s (s\<lparr>mc_disp := DDone, mc_closed := True\<rparr>)"
| dispatch_send: "mc_disp s = DSend job \<Longrightarrow> int (length (mc_chan s)) < jobs_capacity p \<Longrightarrow>
    pool_action p s (s\<lparr>mc_disp := DCheck, mc_chan := mc_chan s @ [job]\<rparr>)"
| dispatch_requeue: "mc_disp s = DSend job \<Longrightarrow> mc_ctx s \<noteq> None \<Longrightarrow>
    on_redis (qPush (p_queue p) context_Background job) (mc_world s) = (e, w) \<Longrightarrow>
    pool_action p s (s\<lparr>mc_disp := DDone, mc_closed := True, mc_world := w\<rparr>)"
| worker_take: "i < length (mc_workers s) \<Longrightarrow> mc_workers s ! i = WIdle \<Longrightarrow> mc_chan s = job # rest \<Longrightarrow>
    pool_action p s (s\<lparr>mc_chan := rest, mc_workers := (mc_workers s)[i := WGot job]\<rparr>)"
| worker_exit: "i < length (mc_workers s) \<Longrightarrow> mc_workers s ! i = WIdle \<Longrightarrow> mc_chan s = [] \<Longrightarrow> mc_closed s \<Longrightarrow>
    pool_action p s (s\<lparr>mc_workers := (mc_workers s)[i := WExited]\<rparr>)"
| worker_works: "i < length (mc_workers s) \<Longrightarrow> busy (mc_workers s ! i) \<Longrightarrow>
    worker_step p (mc_ctx s) (mc_workers s ! i) (mc_world s) = (ph, w) \<Longrightarrow>
    pool_action p s (s\<lparr>mc_workers := (mc_workers s)[i := ph], mc_world := w\<rparr>)"
| retry_fires: "k < length (pending (mc_world s)) \<Longrightarrow> pending (mc_world s) ! k = (job, dl) \<Longrightarrow>
    fired \<or> mc_ctx s \<noteq> None \<Longrightarrow>
    pool_action p s (s\<lparr>mc_world := requeueAfter p (mc_ctx s) job fired
      ((mc_world s)\<lparr>pending := remove_nth k (pending (mc_world s))\<rparr>)\<rparr>)"

inductive_cases pool_actionE: "pool_action p s s'"

text \<open>A panic that nothing recovers ends the process.\<close>

definition pool_step :: "('r, 'd) Pool \<Rightarrow> ('r, 'd) machine \<Rightarrow> ('r, 'd) machine \<Rightarrow> bool" where
  "pool_step p s s' \<longleftrightarrow> \<not> crashed (mc_world s) \<and> pool_action p s s'"

text \<open>
  The states of a run from \<open>Start\<close>. \<open>env\<close> is what the rest of the system may do between two steps:
  cancel the context, use Redis and the database, let time pass.
\<close>

inductive pool_reach ::
  "('r, 'd) Pool \<Rightarrow> (('r, 'd) machine \<Rightarrow> ('r, 'd) machine \<Rightarrow> bool) \<Rightarrow> ('r, 'd) world \<Rightarrow> ('r, 'd) machine \<Rightarrow> bool"
  for p env w where
  reach_start: "pool_reach p env w (Start p w)"
| reach_step: "pool_reach p env w s \<Longrightarrow> pool_step p s s' \<Longrightarrow> pool_reach p env w s'"
| reach_env: "pool_reach p env w s \<Longrightarrow> env s s' \<Longrightarrow> pool_reach p env w s'"

text \<open>The environment does not reach into the pool: its channel, goroutines and scheduled retries.\<close>

definition outside :: "('r, 'd) machine \<Rightarrow> ('r, 'd) machine \<Rightarrow> bool" where
  "outside s s' \<longleftrightarrow> mc_disp s' = mc_disp s \<and> mc_chan s' = mc_chan s \<and> mc_closed s' = mc_closed s \<and>
     mc_workers s' = mc_workers s \<and> pending (mc_world s') = pending (mc_world s) \<and>
     crashed (mc_world s') = crashed (mc_world s) \<and> (mc_ctx s \<noteq> None \<longrightarrow> mc_ctx s' = mc_ctx s)"

text \<open>\<open>Shutdown\<close> waits for dispatcher, workers and retries, or for its own context.\<close>

definition drained :: "('r, 'd) machine \<Rightarrow> bool" where
  "drained s \<longleftrightarrow> mc_disp s = DDone \<and> (\<forall>ph \<in> set (mc_workers s). ph = WExited) \<and> pending (mc_world s) = []"

definition Shutdown :: "ctx \<Rightarrow> ('r, 'd) machine \<Rightarrow> goerr option \<Rightarrow> bool" where
  "Shutdown c s r \<longleftrightarrow> (drained s \<and> r = None) \<or> (\<exists>e. c = Some e \<and> r = Some (ctx_error e))"

section \<open>A worker that is not interrupted does what process does\<close>

lemma worker_run_process: "worker_run 7 p c (WGot job, w) = (WIdle, process p c job w)"
proof -
  have seven: "(7 :: nat) = Suc (Suc (Suc (Suc (Suc (Suc (Suc 0))))))" by simp
  show ?thesis
    unfolding seven process_def process_guard_def
    by (auto simp: Let_def case_prod_beta split: option.split sum.split)
qed

section \<open>The shape of the pool\<close>

definition pool_inv :: "('r, 'd) Pool \<Rightarrow> ('r, 'd) machine \<Rightarrow> bool" where
  "pool_inv p s \<longleftrightarrow> int (length (mc_chan s)) \<le> max 0 (jobs_capacity p) \<and>
     length (mc_workers s) = nat (p_workerCount p) \<and> (mc_closed s \<longleftrightarrow> mc_disp s = DDone) \<and>
     (WExited \<in> set (mc_workers s) \<longrightarrow> mc_closed s \<and> mc_chan s = [])"

lemma worker_step_exited: "busy ph \<Longrightarrow> fst (worker_step p c ph w) \<noteq> WExited"
  by (cases ph) (auto simp: busy_def Let_def case_prod_beta split: option.split)

lemma in_update: "x \<in> set (xs[i := y]) \<Longrightarrow> x \<noteq> y \<Longrightarrow> x \<in> set xs"
  using set_update_subset_insert [of xs i y] by auto

lemma after_pop_done: "after_pop x \<noteq> DDone"
  by (simp add: after_pop_def split: sum.split option.split)

lemma pool_inv_step:
  assumes "pool_inv p s" "pool_action p s s'"
  shows "pool_inv p s'"
  using assms(2,1)
proof cases
  case (worker_works i ph w)
  have "ph \<noteq> WExited" using worker_step_exited [OF worker_works(3), of p "mc_ctx s" "mc_world s"] worker_works(4) by auto
  then show ?thesis using assms(1) worker_works(1) in_update [of WExited "mc_workers s" i ph] by (auto simp: pool_inv_def)
next
  case (worker_take i job rest)
  then have "WExited \<notin> set (mc_workers s)" using assms(1) by (auto simp: pool_inv_def)
  then show ?thesis
    using assms(1) worker_take(1,4) in_update [of WExited "mc_workers s" i "WGot job"] by (auto simp: pool_inv_def)
qed (auto simp: pool_inv_def after_pop_done)

lemma pool_inv_reach:
  assumes "pool_reach p env w s" "\<And>s s'. env s s' \<Longrightarrow> outside s s'"
  shows "pool_inv p s"
  using assms(1)
proof induction
  case reach_start
  show ?case by (simp add: pool_inv_def Start_def)
next
  case (reach_step s s')
  then show ?case using pool_inv_step by (auto simp: pool_step_def)
next
  case (reach_env s s')
  then show ?case using assms(2) [of s s'] by (auto simp: pool_inv_def outside_def)
qed


section \<open>Shutdown terminates\<close>

text \<open>
  The work that is left once the context has ended: how many steps each goroutine and each job in
  the channel can still take.
\<close>

fun phase_work :: "('r, 'd) phase \<Rightarrow> nat" where
  "phase_work (WGot _) = 9"
| "phase_work (WChecked _ _ _) = 8"
| "phase_work (WLocked _ _ _) = 7"
| "phase_work (WMarked _ _ _) = 6"
| "phase_work (WRan _ _ _) = 5"
| "phase_work (WUnlocking _) = 3"
| "phase_work WLeaving = 2"
| "phase_work WIdle = 1"
| "phase_work WExited = 0"

fun disp_work :: "dispatcher \<Rightarrow> nat" where
  "disp_work DPop = 12"
| "disp_work (DSend _) = 11"
| "disp_work DSleep = 2"
| "disp_work DCheck = 1"
| "disp_work DDone = 0"

definition work_left :: "('r, 'd) machine \<Rightarrow> nat" where
  "work_left s = disp_work (mc_disp s) + 9 * length (mc_chan s) + sum_list (map phase_work (mc_workers s)) +
     length (pending (mc_world s))"

text \<open>Processors do not schedule retries themselves.\<close>

definition modest :: "('r, 'd) processor \<Rightarrow> bool" where
  "modest proc \<longleftrightarrow> (\<forall>c j w. pending (snd (proc c j w)) = pending w)"

definition modest_phase :: "('r, 'd) phase \<Rightarrow> bool" where
  "modest_phase ph \<longleftrightarrow> (case ph of WChecked _ _ proc \<Rightarrow> modest proc | WLocked _ _ proc \<Rightarrow> modest proc
     | WMarked _ _ proc \<Rightarrow> modest proc | _ \<Rightarrow> True)"

lemma pending_simps [simp]:
  "pending (snd (process_mark p c j w)) = pending w" "pending (process_unlock p c j w) = pending w"
  "pending (process_exit w) = pending w" "pending (toDeadLetter p c j r w) = pending w"
  "pending (requeueAfter p c j b w) = pending w" "pending (snd (on_redis f w)) = pending w"
  "pending (snd (backoff E n w)) = pending w"
  by (simp_all add: process_mark_def process_unlock_def process_exit_def toDeadLetter_def requeueAfter_def
      backoff_def world_simps)

lemma backoff_redis [simp]: "redis (snd (backoff E n w)) = redis w"
  by (simp add: backoff_def world_simps)

lemma pending_finish: "length (pending (process_finish p c j start err w)) \<le> Suc (length (pending w))"
proof -
  have "pending (snd (backoff (p_rt p) k (snd (on_db f x)))) = pending x" for k f x by (simp add: world_simps)
  then show ?thesis
    by (cases err) (simp_all add: process_finish_def world_simps split: option.split)
qed

lemma worker_step_work:
  assumes "busy ph" "modest_phase ph" "worker_step p c ph w = (ph', w')"
  shows "phase_work ph' + length (pending w') < phase_work ph + length (pending w)"
proof (cases ph)
  case (WRan j t err)
  then show ?thesis using assms(3) pending_finish [of p c j t err w] by auto
next
  case (WMarked j t proc)
  then show ?thesis using assms(2,3) by (auto simp: modest_phase_def modest_def case_prod_beta)
next
  case (WLocked j t proc)
  then have "w' = snd (process_mark p c j w)" "\<exists>j'. ph' = WMarked j' t proc"
    using assms(3) by (auto simp: case_prod_beta)
  then show ?thesis using WLocked by auto
qed (use assms in \<open>auto simp: busy_def Let_def case_prod_beta world_simps toDeadLetter_def process_unlock_def process_exit_def
      split: option.splits if_splits\<close>)

lemma worker_step_modest:
  assumes "modest_phase ph" "\<And>t proc. p_registry p t = Some proc \<Longrightarrow> modest proc"
  shows "modest_phase (fst (worker_step p c ph w))"
  using assms by (cases ph) (auto simp: modest_phase_def Let_def case_prod_beta split: option.split)

lemma sum_list_update_nat:
  fixes f :: "'a \<Rightarrow> nat"
  assumes "i < length xs"
  shows "sum_list (map f (xs[i := y])) + f (xs ! i) = sum_list (map f xs) + f y"
  using assms by (induction xs arbitrary: i) (auto split: nat.split)

definition modest_pool :: "('r, 'd) Pool \<Rightarrow> ('r, 'd) machine \<Rightarrow> bool" where
  "modest_pool p s \<longleftrightarrow> (\<forall>t proc. p_registry p t = Some proc \<longrightarrow> modest proc) \<and> (\<forall>ph \<in> set (mc_workers s). modest_phase ph)"

lemma modest_step:
  assumes "modest_pool p s" "pool_action p s s'"
  shows "modest_pool p s'"
  using assms(2)
proof cases
  case (worker_works i ph w)
  have "modest_phase (mc_workers s ! i)" using assms(1) worker_works(2) by (simp add: modest_pool_def)
  then have "modest_phase ph" using worker_step_modest [of "mc_workers s ! i" p] assms(1) worker_works(4)
    by (metis fst_conv modest_pool_def)
  then show ?thesis using assms(1) worker_works(1) set_update_subset_insert [of "mc_workers s" i ph] by (auto simp: modest_pool_def)
next
  case (worker_take i job rest)
  then show ?thesis
    using assms(1) set_update_subset_insert [of "mc_workers s" i "WGot job"] by (auto simp: modest_pool_def modest_phase_def)
next
  case (worker_exit i)
  then show ?thesis
    using assms(1) set_update_subset_insert [of "mc_workers s" i WExited] by (auto simp: modest_pool_def modest_phase_def)
qed (use assms(1) in \<open>auto simp: modest_pool_def\<close>)

lemma action_ctx: "pool_action p s s' \<Longrightarrow> mc_ctx s' = mc_ctx s"
  by (erule pool_actionE) auto

text \<open>After the context has ended every step uses up some of the work.\<close>

lemma work_decreases:
  assumes "pool_action p s s'" "mc_ctx s \<noteq> None" "modest_pool p s"
  shows "work_left s' < work_left s"
  using assms(1)
proof cases
  case (dispatch_pop x w)
  then have "w = snd (on_redis (qPop (p_queue p) (mc_ctx s)) (mc_world s))" by simp
  then have "pending w = pending (mc_world s)" by simp
  moreover have "disp_work (after_pop x) < 12" by (simp add: after_pop_def split: sum.split option.split)
  ultimately show ?thesis using dispatch_pop by (simp add: work_left_def)
next
  case (dispatch_requeue job e w)
  then have "w = snd (on_redis (qPush (p_queue p) None job) (mc_world s))" by simp
  then have "pending w = pending (mc_world s)" by simp
  then show ?thesis using dispatch_requeue by (simp add: work_left_def)
next
  case (worker_take i job rest)
  then show ?thesis using sum_list_update_nat [OF worker_take(2), of phase_work "WGot job"] by (simp add: work_left_def)
next
  case (worker_exit i)
  then show ?thesis using sum_list_update_nat [OF worker_exit(2), of phase_work WExited] by (simp add: work_left_def)
next
  case (worker_works i ph w)
  have "modest_phase (mc_workers s ! i)" using assms(3) worker_works(2) by (simp add: modest_pool_def)
  from worker_step_work [OF worker_works(3) this worker_works(4)] sum_list_update_nat [OF worker_works(2), of phase_work ph]
  show ?thesis using worker_works(1) by (simp add: work_left_def)
next
  case (retry_fires k job dl fired)
  then show ?thesis by (simp add: work_left_def remove_nth_def)
qed (use assms(2) in \<open>auto simp: work_left_def\<close>)

text \<open>A pool that is not drained can take a step.\<close>

lemma pool_progress:
  assumes "pool_inv p s" "mc_ctx s \<noteq> None" "\<not> drained s"
  shows "\<exists>s'. pool_action p s s'"
proof (cases "mc_disp s")
  case DDone
  then have closed: "mc_closed s" using assms(1) by (simp add: pool_inv_def)
  show ?thesis
  proof (cases "pending (mc_world s)")
    case Nil
    then obtain i where i: "i < length (mc_workers s)" "mc_workers s ! i \<noteq> WExited"
      using assms(3) DDone by (auto simp: drained_def in_set_conv_nth)
    show ?thesis
    proof (cases "mc_workers s ! i = WIdle")
      case True
      then show ?thesis
        using pool_action.worker_take [OF i(1)] pool_action.worker_exit [OF i(1)] closed by (cases "mc_chan s") blast+
    next
      case False
      then have "busy (mc_workers s ! i)" using i(2) by (simp add: busy_def)
      then show ?thesis using pool_action.worker_works [OF i(1)] by (metis surj_pair)
    qed
  next
    case (Cons x xs)
    then have "0 < length (pending (mc_world s))" "pending (mc_world s) ! 0 = (fst x, snd x)" by simp_all
    from pool_action.retry_fires [OF this, of False p] assms(2) show ?thesis by blast
  qed
next
  case DPop
  then show ?thesis using pool_action.dispatch_pop by (metis surj_pair)
next
  case (DSend job)
  then show ?thesis using pool_action.dispatch_requeue assms(2) by (metis surj_pair)
qed (use assms(2) pool_action.intros in blast)+

text \<open>A run of the pool in which the environment acts in between; the number counts the pool's steps.\<close>

inductive pool_run ::
  "('r, 'd) Pool \<Rightarrow> (('r, 'd) machine \<Rightarrow> ('r, 'd) machine \<Rightarrow> bool) \<Rightarrow> nat \<Rightarrow> ('r, 'd) machine \<Rightarrow> ('r, 'd) machine \<Rightarrow> bool"
  for p env where
  run_start: "pool_run p env 0 s s"
| run_step: "pool_run p env n s t \<Longrightarrow> pool_step p t u \<Longrightarrow> pool_run p env (Suc n) s u"
| run_env: "pool_run p env n s t \<Longrightarrow> env t u \<Longrightarrow> pool_run p env n s u"

lemma outside_keeps:
  assumes "outside s s'"
  shows "work_left s' = work_left s" "pool_inv p s \<Longrightarrow> pool_inv p s'" "modest_pool p s \<Longrightarrow> modest_pool p s'"
  using assms by (auto simp: outside_def work_left_def pool_inv_def modest_pool_def)

lemma run_bounded:
  assumes "pool_run p env n s s'" "\<And>s s'. env s s' \<Longrightarrow> outside s s'" "mc_ctx s \<noteq> None" "modest_pool p s" "pool_inv p s"
  shows "n + work_left s' \<le> work_left s \<and> mc_ctx s' = mc_ctx s \<and> modest_pool p s' \<and> pool_inv p s'"
  using assms(1,3-5)
proof induction
  case (run_step n s t u)
  then have a: "pool_action p t u" by (simp add: pool_step_def)
  from work_decreases [OF a] action_ctx [OF a] modest_step [OF _ a] pool_inv_step [OF _ a] run_step show ?case by auto
next
  case (run_env n s t u)
  then show ?case using assms(2) [of t u] outside_keeps [of t u] by (auto simp: outside_def)
qed simp

lemma run_drains:
  assumes "pool_inv p s" "mc_ctx s \<noteq> None" "modest_pool p s"
  shows "\<exists>n s'. (pool_step p ^^ n) s s' \<and> (drained s' \<or> crashed (mc_world s'))"
  using assms
proof (induction "work_left s" arbitrary: s rule: less_induct)
  case less
  show ?case
  proof (cases "drained s \<or> crashed (mc_world s)")
    case True
    then show ?thesis by (intro exI [of _ 0] exI [of _ s]) simp
  next
    case False
    then obtain t where t: "pool_action p s t" using pool_progress [OF less.prems(1,2)] by blast
    from less.hyps [OF work_decreases [OF t less.prems(2,3)] pool_inv_step [OF less.prems(1) t] _ modest_step [OF less.prems(3) t]]
    obtain n s' where "(pool_step p ^^ n) t s'" "drained s' \<or> crashed (mc_world s')"
      using action_ctx [OF t] less.prems(2) by auto
    moreover have "pool_step p s t" using t False by (simp add: pool_step_def)
    ultimately show ?thesis by (metis relpowp_Suc_I2)
  qed
qed


lemma modest_reach:
  assumes "pool_reach p env w s" "\<And>s s'. env s s' \<Longrightarrow> outside s s'"
    and "\<And>t proc. p_registry p t = Some proc \<Longrightarrow> modest proc"
  shows "modest_pool p s"
  using assms(1)
proof induction
  case reach_start
  show ?case using assms(3) by (auto simp: modest_pool_def Start_def modest_phase_def)
next
  case (reach_step s s')
  then show ?case using modest_step by (auto simp: pool_step_def)
next
  case (reach_env s s')
  then show ?case using assms(2) outside_keeps(3) by blast
qed

lemma NewPool_registry: "p_registry (NewPool q S c procs n E) t = Some proc \<Longrightarrow> (t, proc) \<in> set procs"
proof -
  have "fold (\<lambda>(t, pr) reg. reg(t \<mapsto> pr)) procs reg t = Some proc \<Longrightarrow> (t, proc) \<in> set procs \<or> reg t = Some proc" for reg
    by (induction procs arbitrary: reg) (fastforce split: if_splits)+
  then show "p_registry (NewPool q S c procs n E) t = Some proc \<Longrightarrow> (t, proc) \<in> set procs"
    by (fastforce simp: NewPool_def)
qed

lemma NewPool_workers: "0 < p_workerCount (NewPool q S c procs n E)"
  by (simp add: NewPool_def)

lemma drained_channel:
  assumes "pool_inv p s" "0 < p_workerCount p" "drained s"
  shows "mc_chan s = []"
proof -
  have "length (mc_workers s) \<noteq> 0" using assms(1,2) by (simp add: pool_inv_def)
  then have "hd (mc_workers s) \<in> set (mc_workers s)" by simp
  then have "WExited \<in> set (mc_workers s)" using assms(3) by (metis drained_def)
  then show ?thesis using assms(1) by (simp add: pool_inv_def)
qed

text \<open>
  C37: a shutdown ends. Once the pool's context has ended, in any state the pool can be in and
  whatever the rest of the system does in between, the goroutines take at most \<open>work_left\<close> more
  steps; when they can take no more, dispatcher and workers have returned, no retry is waiting,
  the channel is empty and \<open>Shutdown\<close> returns without an error (unless the process had panicked).
\<close>

theorem shutdown_drains:
  assumes p: "p = NewPool q S ch procs workers E" "\<And>t proc. (t, proc) \<in> set procs \<Longrightarrow> modest proc"
    and env: "\<And>s s'. env s s' \<Longrightarrow> outside s s'"
    and s: "pool_reach p env w s" "mc_ctx s \<noteq> None" and run: "pool_run p env n s s'"
  shows "n \<le> work_left s \<and>
    ((\<nexists>t. pool_step p s' t) \<longrightarrow> crashed (mc_world s') \<or> drained s' \<and> mc_chan s' = [] \<and> Shutdown c s' None) \<and>
    (\<exists>k t. (pool_step p ^^ k) s' t \<and> (crashed (mc_world t) \<or> drained t))"
proof -
  have reg: "\<And>t proc. p_registry p t = Some proc \<Longrightarrow> modest proc" using p NewPool_registry by blast
  from run_bounded [OF run env s(2) modest_reach [OF s(1) env reg] pool_inv_reach [OF s(1) env]]
  have b: "n + work_left s' \<le> work_left s" "mc_ctx s' \<noteq> None" "modest_pool p s'" "pool_inv p s'" using s(2) by auto
  have "crashed (mc_world s') \<or> drained s'" if "\<nexists>t. pool_step p s' t"
    using pool_progress [OF b(4,2)] that by (auto simp: pool_step_def)
  moreover have "drained s' \<Longrightarrow> mc_chan s' = [] \<and> Shutdown c s' None"
    using drained_channel [OF b(4)] NewPool_workers [of q S ch procs workers E] p(1) by (simp add: Shutdown_def)
  ultimately show ?thesis using b(1) run_drains [OF b(4,2,3)] by auto
qed


theorem shutdown_drains_witness:
  "\<exists>k t. (pool_step (ref_pool ref_works) ^^ k) ((Start (ref_pool ref_works) ref_loaded)\<lparr>mc_ctx := Some Canceled\<rparr>) t \<and>
     (crashed (mc_world t) \<or> drained t)"
proof -
  define env where "env = (\<lambda>s s' :: (ref_redis, InMemoryStore) machine. mc_ctx s = None \<and> s' = s\<lparr>mc_ctx := Some Canceled\<rparr>)"
  have out: "outside s s'" if "env s s'" for s s' using that by (simp add: env_def outside_def)
  have m: "modest proc" if "(t, proc) \<in> set [(JobTypeQRScan, ref_works)]" for t proc
    using that by (simp add: modest_def ref_works_def)
  have "pool_reach (ref_pool ref_works) env ref_loaded ((Start (ref_pool ref_works) ref_loaded)\<lparr>mc_ctx := Some Canceled\<rparr>)"
    by (rule reach_env [OF reach_start]) (simp add: env_def Start_def)
  from shutdown_drains [OF refl m out this _ run_start] show ?thesis by simp
qed

section \<open>No job is processed twice at a time\<close>

text \<open>The job whose lock a worker holds.\<close>

definition holds :: "('r, 'd) phase \<Rightarrow> string option" where
  "holds ph = (case ph of WLocked j _ _ \<Rightarrow> Some (job_ID j) | WMarked j _ _ \<Rightarrow> Some (job_ID j)
     | WRan j _ _ \<Rightarrow> Some (job_ID j) | WUnlocking j \<Rightarrow> Some (job_ID j) | _ \<Rightarrow> None)"

text \<open>A processor that leaves the locks alone.\<close>

definition spares :: "('r \<Rightarrow> bool) \<Rightarrow> ('r \<Rightarrow> string \<Rightarrow> bool) \<Rightarrow> ('r, 'd) processor \<Rightarrow> bool" where
  "spares ready locked proc \<longleftrightarrow> (\<forall>c j w. ready (redis w) \<longrightarrow> ready (redis (snd (proc c j w))) \<and>
     locked (redis (snd (proc c j w))) = locked (redis w))"

definition spares_phase :: "('r \<Rightarrow> bool) \<Rightarrow> ('r \<Rightarrow> string \<Rightarrow> bool) \<Rightarrow> ('r, 'd) phase \<Rightarrow> bool" where
  "spares_phase ready locked ph \<longleftrightarrow> (case ph of WChecked _ _ proc \<Rightarrow> spares ready locked proc
     | WLocked _ _ proc \<Rightarrow> spares ready locked proc | WMarked _ _ proc \<Rightarrow> spares ready locked proc | _ \<Rightarrow> True)"

text \<open>
  What the pool relies on. \<open>locked r i\<close>: the lock of the job \<open>i\<close> is set. A \<open>SETNX\<close> that answers true
  found the lock free and sets it; a deletion touches one lock; nothing else touches any.
\<close>

locale lock_service =
  fixes Q :: "'r Queue_port" and C :: "'r Cache_port" and locked :: "'r \<Rightarrow> string \<Rightarrow> bool" and ready :: "'r \<Rightarrow> bool"
  assumes acquire: "ready r \<Longrightarrow> cSetNX C c (''job:lock:'' @ i) ''1'' lockTTL r = (x, r') \<Longrightarrow> ready r' \<and>
      (x = Inr True \<longrightarrow> \<not> locked r i \<and> locked r' i) \<and> (\<forall>j. locked r j \<longrightarrow> locked r' j)"
    and release: "ready r \<Longrightarrow> ready (snd (cDel C c (''job:lock:'' @ i) r)) \<and>
      (\<forall>j. j \<noteq> i \<longrightarrow> locked r j \<longrightarrow> locked (snd (cDel C c (''job:lock:'' @ i) r)) j)"
    and marker: "ready r \<Longrightarrow> ready (snd (cGet C c (''job:done:'' @ i) r)) \<and>
      locked (snd (cGet C c (''job:done:'' @ i) r)) = locked r"
    and mark_done: "ready r \<Longrightarrow> ready (snd (cSet C c (''job:done:'' @ i) ''1'' processedTTL r)) \<and>
      locked (snd (cSet C c (''job:done:'' @ i) ''1'' processedTTL r)) = locked r"
    and queue_ops: "ready r \<Longrightarrow> ready (snd (qPush Q c j r)) \<and> locked (snd (qPush Q c j r)) = locked r"
      "ready r \<Longrightarrow> ready (snd (qPop Q c r)) \<and> locked (snd (qPop Q c r)) = locked r"
      "ready r \<Longrightarrow> ready (snd (qPushDeadLetter Q c j r)) \<and> locked (snd (qPushDeadLetter Q c j r)) = locked r"
begin

text \<open>Every holder's lock is set, and no two workers hold the same one.\<close>

definition exclusive :: "('r, 'd) machine \<Rightarrow> bool" where
  "exclusive s \<longleftrightarrow> ready (redis (mc_world s)) \<and>
     (\<forall>i < length (mc_workers s). spares_phase ready locked (mc_workers s ! i) \<and>
       (\<forall>x. holds (mc_workers s ! i) = Some x \<longrightarrow> locked (redis (mc_world s)) x \<and>
         (\<forall>k < length (mc_workers s). k \<noteq> i \<longrightarrow> holds (mc_workers s ! k) \<noteq> Some x)))"

lemma finish_keeps:
  assumes "p_queue p = Q" "p_cache p = C" "ready (redis w)"
  shows "ready (redis (process_finish p c j start err w)) \<and>
    locked (redis (process_finish p c j start err w)) = locked (redis w)"
proof -
  have dead: "ready (redis (toDeadLetter p c k r x)) \<and> locked (redis (toDeadLetter p c k r x)) = locked (redis x)"
    if "ready (redis x)" for k r x
    using that mark_done queue_ops(3) assms(1,2) by (simp add: toDeadLetter_def world_simps done_key_def)
  show ?thesis
  proof (cases err)
    case None
    then show ?thesis using assms mark_done by (simp add: process_finish_def world_simps done_key_def)
  next
    case (Some e)
    then show ?thesis
      using assms(3) dead by (simp add: process_finish_def world_simps split: option.split)
  qed
qed

lemma worker_step_locks:
  assumes p: "p_queue p = Q" "p_cache p = C" and w: "ready (redis w)"
    and ph: "spares_phase ready locked ph" "\<And>t proc. p_registry p t = Some proc \<Longrightarrow> spares ready locked proc"
    and step: "worker_step p c ph w = (ph', w')"
  shows "ready (redis w') \<and> spares_phase ready locked ph' \<and>
    (\<forall>x. locked (redis w) x \<longrightarrow> locked (redis w') x \<or> holds ph = Some x \<and> holds ph' = None) \<and>
    (\<forall>x. holds ph' = Some x \<longrightarrow> holds ph = Some x \<and> locked (redis w') = locked (redis w) \<or> 
       \<not> locked (redis w) x \<and> locked (redis w') x)"
proof (cases ph)
  case (WGot j)
  have "ready (redis (toDeadLetter p c k e x)) \<and> locked (redis (toDeadLetter p c k e x)) = locked (redis x)"
    if "ready (redis x)" for k e x
    using that mark_done queue_ops(3) p by (simp add: toDeadLetter_def world_simps done_key_def)
  then show ?thesis
    using WGot step w ph marker [of "redis w" c "job_ID j"] p
    by (auto simp: Let_def case_prod_beta world_simps holds_def spares_phase_def done_key_def split: option.splits if_splits)
next
  case (WChecked j t proc)
  obtain x r where r: "cSetNX C c (''job:lock:'' @ job_ID j) ''1'' lockTTL (redis w) = (x, r)" by fastforce
  from acquire [OF w r] show ?thesis
    using WChecked step ph(1) p r by (auto simp: on_redis_def lock_key_def holds_def spares_phase_def split: if_splits)
next
  case (WLocked j t proc)
  then show ?thesis
    using step w ph(1) by (auto simp: process_mark_def world_simps holds_def spares_phase_def)
next
  case (WMarked j t proc)
  then have "ready (redis w')" "locked (redis w') = locked (redis w)" "\<exists>e. ph' = WRan j t e"
    using step w ph(1) by (auto simp: spares_phase_def spares_def case_prod_beta)
  then show ?thesis using WMarked by (auto simp: holds_def spares_phase_def)
next
  case (WRan j t err)
  then show ?thesis using step finish_keeps [OF p w, of c j t err] by (auto simp: holds_def spares_phase_def)
next
  case (WUnlocking j)
  then show ?thesis
    using step release [OF w, of c "job_ID j"] p
    by (auto simp: process_unlock_def world_simps lock_key_def holds_def spares_phase_def)
qed (use step w in \<open>auto simp: process_exit_def world_simps holds_def spares_phase_def\<close>)

lemma exclusive_update:
  assumes "exclusive s" "i < length (mc_workers s)" "ready (redis w)" "spares_phase ready locked ph"
    and "\<And>x. locked (redis (mc_world s)) x \<Longrightarrow> locked (redis w) x \<or> holds (mc_workers s ! i) = Some x \<and> holds ph = None"
    and "\<And>x. holds ph = Some x \<Longrightarrow> holds (mc_workers s ! i) = Some x \<and> locked (redis w) = locked (redis (mc_world s)) \<or>
      \<not> locked (redis (mc_world s)) x \<and> locked (redis w) x"
    and "mc_workers s' = (mc_workers s)[i := ph]" "mc_world s' = w"
  shows "exclusive s'"
  unfolding exclusive_def
proof (intro conjI allI impI)
  show "ready (redis (mc_world s'))" using assms(3,8) by simp
  fix k
  assume k: "k < length (mc_workers s')"
  have old: "spares_phase ready locked (mc_workers s ! j)"
    "holds (mc_workers s ! j) = Some x \<Longrightarrow> locked (redis (mc_world s)) x"
    "holds (mc_workers s ! j) = Some x \<Longrightarrow> m < length (mc_workers s) \<Longrightarrow> m \<noteq> j \<Longrightarrow> holds (mc_workers s ! m) \<noteq> Some x"
    if "j < length (mc_workers s)" for j m x using assms(1) that unfolding exclusive_def by blast+
  show "spares_phase ready locked (mc_workers s' ! k)" using old(1) k assms(4,7) by (cases "k = i") auto
  fix x
  assume h: "holds (mc_workers s' ! k) = Some x"
  show "locked (redis (mc_world s')) x"
  proof (cases "k = i")
    case True
    then show ?thesis using h assms(2,6-8) old(2) [OF assms(2)] by auto
  next
    case False
    then have hk: "holds (mc_workers s ! k) = Some x" using h assms(7) by simp
    with old(3) [of k x i] k False assms(2,7) have "holds (mc_workers s ! i) \<noteq> Some x" by simp
    with assms(5) [OF old(2) [OF _ hk]] k assms(7,8) show ?thesis by simp
  qed
  fix m
  assume m: "m < length (mc_workers s')" "m \<noteq> k"
  show "holds (mc_workers s' ! m) \<noteq> Some x"
  proof
    assume hm: "holds (mc_workers s' ! m) = Some x"
    have free: "holds ph \<noteq> Some x" if "j < length (mc_workers s)" "j \<noteq> i" "holds (mc_workers s ! j) = Some x" for j
      using assms(6) [of x] old(2) [OF that(1,3)] old(3) [OF that(1,3) assms(2)] that(2) by auto
    show False using h hm m k free [of k] free [of m] old(3) [of k x m] assms(7) by (cases "k = i"; cases "m = i") auto
  qed
qed

lemma exclusive_step:
  assumes p: "p_queue p = Q" "p_cache p = C" "\<And>t proc. p_registry p t = Some proc \<Longrightarrow> spares ready locked proc"
    and s: "exclusive s" and step: "pool_action p s s'"
  shows "exclusive s'"
proof -
  have r: "ready (redis (mc_world s))" using s by (simp add: exclusive_def)
  have same: "exclusive s'" if "mc_workers s' = mc_workers s" "ready (redis (mc_world s'))"
    "locked (redis (mc_world s')) = locked (redis (mc_world s))" using s that by (simp add: exclusive_def)
  from step show ?thesis
  proof cases
    case (dispatch_pop x w)
    then show ?thesis using queue_ops(2) [OF r, of "mc_ctx s"] p(1) by (intro same) (auto simp: on_redis_def)
  next
    case (dispatch_requeue job e w)
    then show ?thesis using queue_ops(1) [OF r, of None job] p(1) by (intro same) (auto simp: on_redis_def)
  next
    case (worker_take i job rest)
    then show ?thesis
      by (intro exclusive_update [OF s worker_take(2) r]) (simp_all add: spares_phase_def holds_def)
  next
    case (worker_exit i)
    then show ?thesis
      by (intro exclusive_update [OF s worker_exit(2) r]) (simp_all add: spares_phase_def holds_def)
  next
    case (worker_works i ph w)
    have "spares_phase ready locked (mc_workers s ! i)" using s worker_works(2) by (simp add: exclusive_def)
    from worker_step_locks [OF p(1,2) r this p(3) worker_works(4)] worker_works(1)
    show ?thesis by (intro exclusive_update [OF s worker_works(2), of w ph]) auto
  next
    case (retry_fires k job dl fired)
    have "ready (redis (requeueAfter p c job fired w)) \<and> locked (redis (requeueAfter p c job fired w)) = locked (redis w)"
      if "ready (redis w)" for c w
      using that queue_ops(1) [of "redis w" c job] queue_ops(1) [of "redis w" None job]
        queue_ops(1) [of "snd (qPush Q c job (redis w))" None job] p(1)
      by (simp add: requeueAfter_def world_simps)
    with retry_fires(1) r show ?thesis by (intro same) auto
  qed (use s in \<open>auto simp: exclusive_def\<close>)
qed

lemma exclusive_reach:
  assumes p: "p_queue p = Q" "p_cache p = C" "\<And>t proc. p_registry p t = Some proc \<Longrightarrow> spares ready locked proc"
    and env: "\<And>s s'. env s s' \<Longrightarrow> outside s s'"
      "\<And>s s' x ph. env s s' \<Longrightarrow> ready (redis (mc_world s)) \<Longrightarrow> ready (redis (mc_world s')) \<and>
        (ph \<in> set (mc_workers s) \<longrightarrow> holds ph = Some x \<longrightarrow> locked (redis (mc_world s)) x \<longrightarrow> locked (redis (mc_world s')) x)"
    and s: "pool_reach p env w s" "ready (redis w)"
  shows "exclusive s"
  using s(1)
proof induction
  case reach_start
  show ?case using s(2) by (simp add: exclusive_def Start_def spares_phase_def holds_def)
next
  case (reach_step s s')
  then show ?case using exclusive_step [OF p] by (auto simp: pool_step_def)
next
  case (reach_env s s')
  then show ?case using env(1) [OF reach_env.hyps(2)] env(2) [OF reach_env.hyps(2)]
    unfolding exclusive_def outside_def by (metis nth_mem)
qed

end


section \<open>Locks in Redis\<close>

definition lock_set :: "('r \<Rightarrow> string \<Rightarrow> entry option) \<Rightarrow> 'r \<Rightarrow> string \<Rightarrow> bool" where
  "lock_set ents r i \<longleftrightarrow> ents r (''job:lock:'' @ i) \<noteq> None"

text \<open>The server is up, the queue's lists and the other keys are apart.\<close>

definition tidy ::
  "('r \<Rightarrow> string \<Rightarrow> string list) \<Rightarrow> ('r \<Rightarrow> string \<Rightarrow> entry option) \<Rightarrow> ('r \<Rightarrow> bool) \<Rightarrow> 'r \<Rightarrow> bool" where
  "tidy lst ents up r \<longleftrightarrow> up r \<and> (\<forall>k \<in> set list_keys. ents r k = None) \<and> (\<forall>k. cache_key k \<longrightarrow> lst r k = [])"

lemma job_keys:
  "cache_key (''job:lock:'' @ i)" "cache_key (''job:done:'' @ i)" "''job:lock:'' @ i \<notin> set list_keys"
  "''job:done:'' @ i \<notin> set list_keys" "set orderedKeys \<subseteq> set list_keys"
  by (auto simp: cache_key_def list_keys_def listkey_defs orderedKeys_def)

lemmas job_keys_expanded = job_keys(3,4) [simplified]

context redis_laws
begin

abbreviation "td \<equiv> tidy lst ents up"

lemma tidyD: "td r \<Longrightarrow> up r" "td r \<Longrightarrow> k \<in> set list_keys \<Longrightarrow> ents r k = None" "td r \<Longrightarrow> cache_key k \<Longrightarrow> lst r k = []"
  by (simp_all add: tidy_def)

lemma tidy_lpush:
  assumes "td r" "k \<in> set list_keys"
  shows "td (snd (rLPush R c k v r)) \<and> ents (snd (rLPush R c k v r)) = ents r"
proof (cases c)
  case None
  then show ?thesis using lpush [OF tidyD(1,2) [OF assms(1)], of k v] assms
    by (auto simp: tidy_def cache_key_def)
qed (use assms(1) in \<open>simp add: ended_lpush\<close>)

lemma tidy_brpop:
  assumes "td r"
  shows "td (snd (rBRPop R c t orderedKeys r)) \<and> ents (snd (rBRPop R c t orderedKeys r)) = ents r"
proof (cases c)
  case None
  have e: "k \<in> set orderedKeys \<Longrightarrow> ents r k = None" for k using tidyD(2) [OF assms] job_keys(5) by blast
  show ?thesis
  proof (cases "find (\<lambda>k. lst r k \<noteq> []) orderedKeys")
    case (Some k)
    then have "k \<in> set orderedKeys" unfolding find_Some_iff by auto
    then have "k \<in> set list_keys" using job_keys(5) by blast
    then show ?thesis using brpop [OF tidyD(1) [OF assms] e, of orderedKeys t] assms Some None by (auto simp: tidy_def cache_key_def)
  qed (use brpop [OF tidyD(1) [OF assms] e, of orderedKeys t] assms None in auto)
qed (use assms in \<open>simp add: ended_brpop\<close>)

lemma redis_locks: "lock_service (RedisQueue_port R J pt) (RedisCache_port R) (lock_set ents) td"
proof
  fix r c i x r'
  assume r: "td r" and x: "cSetNX (RedisCache_port R) c (''job:lock:'' @ i) ''1'' lockTTL r = (x, r')"
  show "td r' \<and> (x = Inr True \<longrightarrow> \<not> lock_set ents r i \<and> lock_set ents r' i) \<and> (\<forall>j. lock_set ents r j \<longrightarrow> lock_set ents r' j)"
  proof (cases c)
    case None
    from setnx [OF tidyD(1) [OF r] tidyD(3) [OF r job_keys(1)] whole_ms_ttls(2), of i "''1''"] r x None
    show ?thesis by (auto simp: RedisCache_port_def RedisCache_SetNX_def lock_set_def tidy_def job_keys_expanded split: if_splits)
  next
    case (Some e)
    then show ?thesis using r x by (auto simp: RedisCache_port_def RedisCache_SetNX_def ended_setnx)
  qed
next
  fix r c i
  assume r: "td r"
  show "td (snd (cDel (RedisCache_port R) c (''job:lock:'' @ i) r)) \<and>
      (\<forall>j. j \<noteq> i \<longrightarrow> lock_set ents r j \<longrightarrow> lock_set ents (snd (cDel (RedisCache_port R) c (''job:lock:'' @ i) r)) j)"
  proof (cases c)
    case None
    from del [OF tidyD(1) [OF r] tidyD(3) [OF r job_keys(1)], of i] r None show ?thesis
      by (auto simp: RedisCache_port_def RedisCache_Del_def lock_set_def tidy_def)
  next
    case (Some e)
    then show ?thesis using r by (auto simp: RedisCache_port_def RedisCache_Del_def ended_del)
  qed
  have "rGet R c (''job:done:'' @ i) r = (fst (rGet R c (''job:done:'' @ i) r), r)"
    using get [OF tidyD(1) [OF r] tidyD(3) [OF r job_keys(2)], of i] ended_get [of _ "''job:done:'' @ i" r]
    by (cases c) (auto split: option.split)
  then have "snd (cGet (RedisCache_port R) c (''job:done:'' @ i) r) = r"
    by (auto simp: RedisCache_port_def RedisCache_Get_def Let_def case_prod_beta split: sum.split)
  then show "td (snd (cGet (RedisCache_port R) c (''job:done:'' @ i) r)) \<and>
      lock_set ents (snd (cGet (RedisCache_port R) c (''job:done:'' @ i) r)) = lock_set ents r"
    using r by simp
  show "td (snd (cSet (RedisCache_port R) c (''job:done:'' @ i) ''1'' processedTTL r)) \<and>
      lock_set ents (snd (cSet (RedisCache_port R) c (''job:done:'' @ i) ''1'' processedTTL r)) = lock_set ents r"
  proof (cases c)
    case None
    from set [OF tidyD(1) [OF r] tidyD(3) [OF r job_keys(2)] whole_ms_ttls(1), of i "''1''"] r None show ?thesis
      by (auto simp: RedisCache_port_def RedisCache_Set_def lock_set_def tidy_def fun_eq_iff job_keys_expanded)
  next
    case (Some e)
    then show ?thesis using r by (auto simp: RedisCache_port_def RedisCache_Set_def ended_set)
  qed
next
  fix r c and j :: Job
  assume r: "td r"
  have k: "keyForPriority (job_Priority j) \<in> set list_keys" "KeyDeadLetter \<in> set list_keys"
    by (simp_all add: keyForPriority_level)
  show "td (snd (qPush (RedisQueue_port R J pt) c j r)) \<and> lock_set ents (snd (qPush (RedisQueue_port R J pt) c j r)) = lock_set ents r"
    using tidy_lpush [OF r k(1), of c] r
    by (auto simp: RedisQueue_port_def RedisQueue_Push_def lock_set_def case_prod_beta Let_def fun_eq_iff split: sum.split)
  show "td (snd (qPop (RedisQueue_port R J pt) c r)) \<and> lock_set ents (snd (qPop (RedisQueue_port R J pt) c r)) = lock_set ents r"
    using tidy_brpop [OF r, of c "NewRedisQueue pt"]
    by (auto simp: RedisQueue_port_def RedisQueue_Pop_def lock_set_def case_prod_beta Let_def fun_eq_iff split: sum.split)
  show "td (snd (qPushDeadLetter (RedisQueue_port R J pt) c j r)) \<and>
      lock_set ents (snd (qPushDeadLetter (RedisQueue_port R J pt) c j r)) = lock_set ents r"
    using tidy_lpush [OF r k(2), of c] r
    by (auto simp: RedisQueue_port_def RedisQueue_PushDeadLetter_def lock_set_def case_prod_beta Let_def fun_eq_iff split: sum.split)
qed

end


interpretation reflock: lock_service "RedisQueue_port ref_client ref_json 0" "RedisCache_port ref_client"
  "lock_set rf_ents" "tidy rf_lists rf_ents rf_up"
  by (rule ref.redis_locks)

text \<open>
  C38: the pool over Redis processes no job twice at a time. Whatever the interleaving of dispatcher,
  workers and retries, no two workers are between taking and giving back the lock of the same job
  identifier, and the channel never holds more than twice as many jobs as there are workers. The
  rest of the system may do anything but take away a lock that is held: the lock's time to live
  must cover the processing, and the processors must not touch the lock keys.
\<close>

theorem jobs_processed_exclusively:
  assumes redis: "redis_laws R lst ents up elapse"
    and p: "p = NewPool (RedisQueue_port R J pt) S (RedisCache_port R) procs workers E"
      "\<And>t proc. (t, proc) \<in> set procs \<Longrightarrow> spares (tidy lst ents up) (lock_set ents) proc"
    and env: "\<And>s s'. env s s' \<Longrightarrow> outside s s'"
      "\<And>s s' x ph. env s s' \<Longrightarrow> tidy lst ents up (redis (mc_world s)) \<Longrightarrow> tidy lst ents up (redis (mc_world s')) \<and>
        (ph \<in> set (mc_workers s) \<longrightarrow> holds ph = Some x \<longrightarrow> lock_set ents (redis (mc_world s)) x \<longrightarrow>
          lock_set ents (redis (mc_world s')) x)"
    and s: "pool_reach p env w s" "tidy lst ents up (redis w)"
  shows "int (length (mc_chan s)) \<le> jobs_capacity p \<and>
    (\<forall>i < length (mc_workers s). \<forall>x. holds (mc_workers s ! i) = Some x \<longrightarrow> lock_set ents (redis (mc_world s)) x \<and>
      (\<forall>k < length (mc_workers s). k \<noteq> i \<longrightarrow> holds (mc_workers s ! k) \<noteq> Some x))"
proof -
  have reg: "\<And>t proc. p_registry p t = Some proc \<Longrightarrow> spares (tidy lst ents up) (lock_set ents) proc"
    using p NewPool_registry by blast
  note locks = redis_laws.redis_locks [OF redis, of J pt]
  have q: "p_queue p = RedisQueue_port R J pt" "p_cache p = RedisCache_port R" by (simp_all add: p(1) NewPool_def)
  have "lock_service.exclusive (lock_set ents) (tidy lst ents up) s"
    by (rule lock_service.exclusive_reach [OF locks q reg env s]) assumption+
  then have "\<forall>i < length (mc_workers s). \<forall>x. holds (mc_workers s ! i) = Some x \<longrightarrow> lock_set ents (redis (mc_world s)) x \<and>
      (\<forall>k < length (mc_workers s). k \<noteq> i \<longrightarrow> holds (mc_workers s ! k) \<noteq> Some x)"
    by (simp add: lock_service.exclusive_def [OF locks])
  moreover have "int (length (mc_chan s)) \<le> jobs_capacity p"
    using pool_inv_reach [OF s(1) env(1)] NewPool_workers [of "RedisQueue_port R J pt" S "RedisCache_port R" procs workers E]
    by (auto simp: pool_inv_def jobs_capacity_def max_def p(1) [symmetric] split: if_splits)
  ultimately show ?thesis by blast
qed


text \<open>The calls of the first steps of a run on the loaded server: pop, guard and lock.\<close>

lemma ref_first_calls:
  obtains P w t w4 w5 where "P = ref_pool ref_works"
    "p_queue P = RedisQueue_port ref_client ref_json 0" "jobs_capacity P = 4" "p_workerCount P = 2"
    "on_redis (qPop (RedisQueue_port ref_client ref_json 0) None) ref_loaded = (Inr (Some ref_job), w)"
    "worker_step P None (WGot ref_job) w = (WChecked ref_job t ref_works, w4)"
    "worker_step P None (WChecked ref_job t ref_works) w4 = (WLocked ref_job t ref_works, w5)"
    "\<not> crashed w" "\<not> crashed w4"
proof -
  let ?p = "ref_pool ref_works" and ?ok = "server_ok ref_json rf_lists rf_ents rf_up"
  have q: "p_queue ?p = RedisQueue_port ref_client ref_json 0" "p_cache ?p = RedisCache_port ref_client"
    "jobs_capacity ?p = 4" "p_workerCount ?p = 2" by (simp_all add: NewPool_def jobs_capacity_def)
  define w where "w = snd (on_redis (qPop (RedisQueue_port ref_client ref_json 0) None) ref_loaded)"
  have w: "on_redis (qPop (RedisQueue_port ref_client ref_json 0) None) ref_loaded = (Inr (Some ref_job), w)"
    "?ok (redis w)" "rf_ents (redis w) = (\<lambda>_. None)"
    using refenv.pop_port [OF ref_loaded_ok, of 0] by (auto simp: w_def on_redis_def case_prod_beta next_level_def)
  have free: "rf_lists (redis w) (''job:lock:'' @ i) = []" "rf_lists (redis w) (''job:done:'' @ i) = []" "rf_up (redis w)" for i
    using server_okD(1,4) [OF w(2)] job_keys(1,2) by blast+
  have get: "cGet (RedisCache_port ref_client) None (done_key ref_job) (redis w) = (Inr None, redis w)"
    using ref.get [OF free(3,2), of "''j1''"] w(3) by (simp add: RedisCache_port_def RedisCache_Get_def done_key_def)
  obtain r where nx: "cSetNX (RedisCache_port ref_client) None (lock_key ref_job) ''1'' lockTTL (redis w) = (Inr True, r)"
    using ref.setnx [OF free(3,1) whole_ms_ttls(2), of "''j1''" "''1''"] w(3)
    by (auto simp: RedisCache_port_def RedisCache_SetNX_def lock_key_def)
  obtain P where P: "P = ?p" by blast
  note q = q [folded P] and reg = ref_pool_registry(1) [of ref_works, folded P]
  obtain t w4 where t: "worker_step P None (WGot ref_job) w = (WChecked ref_job t ref_works, w4)" "redis w4 = redis w"
    "crashed w4 = crashed w"
    using get by (simp add: q reg Let_def case_prod_beta world_simps)
  obtain w5 where w5: "worker_step P None (WChecked ref_job t ref_works) w4 = (WLocked ref_job t ref_works, w5)"
    using nx t(2) by (simp add: q on_redis_def)
  have "\<not> crashed w" "\<not> crashed w4" using t(3) by (simp_all add: w_def world_simps)
  with that [OF P q(1,3,4) w(1) t(1) w5] show thesis by blast
qed

text \<open>A run in which the first of two workers holds the lock of the job it was handed.\<close>

lemma ref_locked_run:
  "\<exists>s. pool_reach (ref_pool ref_works) (\<lambda>_ _. False) ref_loaded s \<and>
     holds (mc_workers s ! 0) = Some ''j1'' \<and> length (mc_workers s) = 2"
proof -
  from ref_first_calls obtain P w t w4 w5 where P: "P = ref_pool ref_works"
    and q: "p_queue P = RedisQueue_port ref_client ref_json 0" "jobs_capacity P = 4" "p_workerCount P = 2"
    and w: "on_redis (qPop (RedisQueue_port ref_client ref_json 0) None) ref_loaded = (Inr (Some ref_job), w)"
      "worker_step P None (WGot ref_job) w = (WChecked ref_job t ref_works, w4)"
      "worker_step P None (WChecked ref_job t ref_works) w4 = (WLocked ref_job t ref_works, w5)"
    and simps: "\<not> crashed w" "\<not> crashed w4" by metis
  define st where "st d ch ws v = \<lparr> mc_world = v, mc_ctx = None, mc_disp = d, mc_chan = ch, mc_closed = False,
    mc_workers = ws \<rparr>" for d ch and ws :: "(ref_redis, InMemoryStore) phase list" and v
  have go: "pool_reach P (\<lambda>_ _. False) ref_loaded s'"
    if "pool_reach P (\<lambda>_ _. False) ref_loaded s" "pool_action P s s'" "\<not> crashed (mc_world s)" for s s'
    using that by (auto intro: reach_step simp: pool_step_def)
  have "pool_reach P (\<lambda>_ _. False) ref_loaded (st DCheck [] [WIdle, WIdle] ref_loaded)"
    using reach_start [of P "\<lambda>_ _. False" ref_loaded] by (simp add: Start_def q st_def numeral_2_eq_2)
  from go [OF this, of "st DPop [] [WIdle, WIdle] ref_loaded"]
  have "pool_reach P (\<lambda>_ _. False) ref_loaded (st DPop [] [WIdle, WIdle] ref_loaded)"
    using dispatch_live [of "st DCheck [] [WIdle, WIdle] ref_loaded" P] by (simp add: st_def)
  from go [OF this, of "st (DSend ref_job) [] [WIdle, WIdle] w"]
  have "pool_reach P (\<lambda>_ _. False) ref_loaded (st (DSend ref_job) [] [WIdle, WIdle] w)"
    using dispatch_pop [of "st DPop [] [WIdle, WIdle] ref_loaded" P] w(1) by (simp add: st_def q after_pop_def)
  from go [OF this, of "st DCheck [ref_job] [WIdle, WIdle] w"]
  have "pool_reach P (\<lambda>_ _. False) ref_loaded (st DCheck [ref_job] [WIdle, WIdle] w)"
    using dispatch_send [of "st (DSend ref_job) [] [WIdle, WIdle] w" ref_job P] simps by (simp add: st_def q)
  from go [OF this, of "st DCheck [] [WGot ref_job, WIdle] w"]
  have "pool_reach P (\<lambda>_ _. False) ref_loaded (st DCheck [] [WGot ref_job, WIdle] w)"
    using worker_take [of 0 "st DCheck [ref_job] [WIdle, WIdle] w" ref_job "[]" P] simps by (simp add: st_def)
  from go [OF this, of "st DCheck [] [WChecked ref_job t ref_works, WIdle] w4"]
  have "pool_reach P (\<lambda>_ _. False) ref_loaded (st DCheck [] [WChecked ref_job t ref_works, WIdle] w4)"
    using worker_works [of 0 "st DCheck [] [WGot ref_job, WIdle] w" P] simps w(2)
    by (simp add: st_def busy_def del: worker_step.simps)
  from go [OF this, of "st DCheck [] [WLocked ref_job t ref_works, WIdle] w5"]
  have "pool_reach P (\<lambda>_ _. False) ref_loaded (st DCheck [] [WLocked ref_job t ref_works, WIdle] w5)"
    using worker_works [of 0 "st DCheck [] [WChecked ref_job t ref_works, WIdle] w4" P] simps w(3)
    by (simp add: st_def busy_def del: worker_step.simps)
  then show ?thesis unfolding P by (intro exI conjI) (auto simp: holds_def st_def)
qed

theorem jobs_processed_exclusively_witness:
  "\<exists>s. pool_reach (ref_pool ref_works) (\<lambda>_ _. False) ref_loaded s \<and>
     holds (mc_workers s ! 0) = Some ''j1'' \<and> holds (mc_workers s ! 1) \<noteq> Some ''j1'' \<and>
     lock_set rf_ents (redis (mc_world s)) ''j1''"
proof -
  from ref_locked_run obtain s where s: "pool_reach (ref_pool ref_works) (\<lambda>_ _. False) ref_loaded s"
    "holds (mc_workers s ! 0) = Some ''j1''" "length (mc_workers s) = 2" by blast
  have "tidy rf_lists rf_ents rf_up (redis ref_loaded)" using ref_loaded_ok by (auto simp: server_ok_def tidy_def)
  from jobs_processed_exclusively [OF ref.redis_laws_axioms refl _ _ _ s(1) this]
  have "\<forall>i < 2. \<forall>x. holds (mc_workers s ! i) = Some x \<longrightarrow> lock_set rf_ents (redis (mc_world s)) x \<and>
      (\<forall>k < 2. k \<noteq> i \<longrightarrow> holds (mc_workers s ! k) \<noteq> Some x)" by (simp add: spares_def ref_works_def s(3))
  from this [rule_format, of 0, OF _ s(2)]
  have "lock_set rf_ents (redis (mc_world s)) ''j1''" "holds (mc_workers s ! 1) \<noteq> Some ''j1''" by auto
  with s show ?thesis by blast
qed

end
