(* ===== verification/Setup.thy ===== *)
theory Setup
  imports Config Http
begin

text \<open>
  What a deployment builds from its configuration: the connection pool of \<open>repository/postgres.go\<close>,
  the Redis client of \<open>cache/redis_cache.go\<close> and the logger of \<open>logger/logger.go\<close>. pgxpool, go-redis
  and zap are parameters.
\<close>

section \<open>The connection pool (postgres.go)\<close>

text \<open>A parsed configuration: the three settings the gateway overrides and the rest.\<close>

record 'x pool_config =
  pc_MaxConns :: int
  pc_MinConns :: int
  pc_MaxConnLifetime :: duration
  pc_others :: 'x

record ('x, 'p, 's) pgxpool_lib =
  pgxpool_ParseConfig :: "string \<Rightarrow> goerr + 'x pool_config"
  pgxpool_NewWithConfig :: "ctx \<Rightarrow> 'x pool_config \<Rightarrow> 's \<Rightarrow> (goerr + 'p) \<times> 's"
  pgxpool_Ping :: "ctx \<Rightarrow> 'p \<Rightarrow> 's \<Rightarrow> goerr option \<times> 's"
  pgxpool_Close :: "'p \<Rightarrow> 's \<Rightarrow> 's"

definition pool_settings :: "DBConfig \<Rightarrow> 'x pool_config \<Rightarrow> 'x pool_config" where
  "pool_settings cfg pc =
     (let pc1 = (if dbc_MaxConns cfg > 0 then pc\<lparr>pc_MaxConns := dbc_MaxConns cfg\<rparr> else pc);
          pc2 = (if dbc_MinConns cfg > 0 then pc1\<lparr>pc_MinConns := dbc_MinConns cfg\<rparr> else pc1)
      in if dbc_MaxConnLife cfg > 0 then pc2\<lparr>pc_MaxConnLifetime := dbc_MaxConnLife cfg\<rparr> else pc2)"

definition Pg_NewPool :: "('x, 'p, 's) pgxpool_lib \<Rightarrow> ctx \<Rightarrow> DBConfig \<Rightarrow> 's \<Rightarrow> (goerr + 'p) \<times> 's" where
  "Pg_NewPool L c cfg s =
     (case pgxpool_ParseConfig L (dbc_URL cfg) of
        Inl e \<Rightarrow> (Inl (Wrap ''parse database url: '' e ''''), s)
      | Inr pc \<Rightarrow>
          (case pgxpool_NewWithConfig L c (pool_settings cfg pc) s of
             (Inl e, s1) \<Rightarrow> (Inl (Wrap ''create pool: '' e ''''), s1)
           | (Inr p, s1) \<Rightarrow>
               (case pgxpool_Ping L c p s1 of
                  (Some e, s2) \<Rightarrow> (Inl (Wrap ''ping database: '' e ''''), pgxpool_Close L p s2)
                | (None, s2) \<Rightarrow> (Inr p, s2))))"

text \<open>A pool is only handed out after a successful ping; one that does not answer is closed.\<close>

lemma pool_is_verified:
  "Pg_NewPool L c cfg s = (Inr p, s2) \<longleftrightarrow> (\<exists>pc s1. pgxpool_ParseConfig L (dbc_URL cfg) = Inr pc \<and>
     pgxpool_NewWithConfig L c (pool_settings cfg pc) s = (Inr p, s1) \<and> pgxpool_Ping L c p s1 = (None, s2))"
  by (auto simp: Pg_NewPool_def split: sum.splits prod.splits option.splits)

lemma silent_pool_closed:
  assumes "pgxpool_ParseConfig L (dbc_URL cfg) = Inr pc" "pgxpool_NewWithConfig L c (pool_settings cfg pc) s = (Inr p, s1)"
    and "pgxpool_Ping L c p s1 = (Some e, s2)"
  shows "\<exists>e'. Pg_NewPool L c cfg s = (Inl e', pgxpool_Close L p s2) \<and> (\<forall>t. errors_Is e' t \<longleftrightarrow> errors_Is e t)"
  using assms by (simp add: Pg_NewPool_def)

text \<open>A setting of the configuration counts if it is positive; otherwise the one of the address does.\<close>

lemma pool_settings_simps:
  "pc_MaxConns (pool_settings cfg pc) = (if dbc_MaxConns cfg > 0 then dbc_MaxConns cfg else pc_MaxConns pc)"
  "pc_MinConns (pool_settings cfg pc) = (if dbc_MinConns cfg > 0 then dbc_MinConns cfg else pc_MinConns pc)"
  "pc_MaxConnLifetime (pool_settings cfg pc) = (if dbc_MaxConnLife cfg > 0 then dbc_MaxConnLife cfg else pc_MaxConnLifetime pc)"
  "pc_others (pool_settings cfg pc) = pc_others pc"
  by (simp_all add: pool_settings_def Let_def)

lemma loaded_pool_defaults:
  assumes "LookupEnv ''DB_MAX_CONNS'' env = None" "LookupEnv ''DB_MIN_CONNS'' env = None"
  shows "pc_MaxConns (pool_settings (cf_DB (Load env)) pc) = 20" "pc_MinConns (pool_settings (cf_DB (Load env)) pc) = 2"
  using assms by (simp_all add: pool_settings_simps Load_def getEnvInt_def to_int32_def)

section \<open>The Redis client (redis_cache.go)\<close>

record redis_options =
  ro_Addr :: string
  ro_Password :: string
  ro_DB :: int
  ro_PoolSize :: int
  ro_MinIdleConns :: int
  ro_DialTimeout :: duration
  ro_ReadTimeout :: duration
  ro_WriteTimeout :: duration

definition NewRedisClient :: "(redis_options \<Rightarrow> 'c) \<Rightarrow> RedisConfig \<Rightarrow> 'c" where
  "NewRedisClient redis_NewClient cfg = redis_NewClient
     \<lparr> ro_Addr = rd_Addr cfg, ro_Password = rd_Password cfg, ro_DB = rd_DB cfg, ro_PoolSize = 20, ro_MinIdleConns = 4,
       ro_DialTimeout = 3 * second, ro_ReadTimeout = 3 * second, ro_WriteTimeout = 3 * second \<rparr>"

section \<open>The logger (logger.go)\<close>

record ('t, 'd, 'x) encoder_config =
  ec_TimeKey :: string
  ec_EncodeTime :: 't
  ec_EncodeDuration :: 'd
  ec_others :: 'x

record ('al, 't, 'd, 'x) zap_config =
  zc_Level :: 'al
  zc_Development :: bool
  zc_Encoding :: string
  zc_EncoderConfig :: "('t, 'd, 'x) encoder_config"
  zc_OutputPaths :: "string list"
  zc_ErrorOutputPaths :: "string list"

record ('lv, 'al, 't, 'd, 'x, 'lg) zap_lib =
  zap_UnmarshalText :: "string \<Rightarrow> goerr + 'lv"
  zap_InfoLevel :: 'lv
  zap_NewAtomicLevelAt :: "'lv \<Rightarrow> 'al"
  zap_NewProductionEncoderConfig :: "('t, 'd, 'x) encoder_config"
  zap_ISO8601TimeEncoder :: 't
  zap_MillisDurationEncoder :: 'd
  zap_Build :: "('al, 't, 'd, 'x) zap_config \<Rightarrow> goerr + 'lg"

definition parseLevel :: "('lv, 'al, 't, 'd, 'x, 'lg) zap_lib \<Rightarrow> string \<Rightarrow> 'lv" where
  "parseLevel Z s = (case zap_UnmarshalText Z s of Inl _ \<Rightarrow> zap_InfoLevel Z | Inr l \<Rightarrow> l)"

definition logger_New :: "('lv, 'al, 't, 'd, 'x, 'lg) zap_lib \<Rightarrow> LogConfig \<Rightarrow> goerr + 'lg" where
  "logger_New Z cfg =
     (let level = zap_NewAtomicLevelAt Z (parseLevel Z (lg_Level cfg));
          encCfg = (zap_NewProductionEncoderConfig Z)\<lparr>ec_TimeKey := ''ts'', ec_EncodeTime := zap_ISO8601TimeEncoder Z,
            ec_EncodeDuration := zap_MillisDurationEncoder Z\<rparr>
      in zap_Build Z \<lparr> zc_Level = level, zc_Development = (lg_Format cfg \<noteq> ''json''), zc_Encoding = log_encoding (lg_Format cfg),
           zc_EncoderConfig = encCfg, zc_OutputPaths = [''stdout''], zc_ErrorOutputPaths = [''stderr''] \<rparr>)"

text \<open>An unknown level or format never keeps the gateway from logging.\<close>

lemma logger_always_known:
  assumes "\<And>zc. zc_Encoding zc \<in> {''json'', ''console''} \<Longrightarrow> \<exists>lg. zap_Build Z zc = Inr lg"
  shows "\<exists>lg. logger_New Z cfg = Inr lg"
  unfolding logger_New_def Let_def by (rule assms) (simp add: log_encoding_def)

end
