(* ===== verification/Sql.thy ===== *)
theory Sql
  imports Reports Go_Json "HOL-Library.Multiset"
begin

text \<open>
  As much of SQL as the repository writes: a reader for the text of its statements, the schema of
  \<open>migrations/0001_init.up.sql\<close>, and what a statement asks for on tables of rows. The database and
  its driver pgx are a parameter; a locale states that they carry out what a statement says.
\<close>

section \<open>Statements\<close>

datatype sqlval = SText string | SInt int | STime time | SNull

text \<open>
  A column is paired with the number of the parameter that gives its value. An insert may name a
  column whose conflict turns it into an update of the listed columns; a selection may ask for an
  order (descending), a limit and an offset.
\<close>

datatype sql =
    Insert string "(string \<times> nat) list" "(string \<times> string list) option"
  | Update string "(string \<times> nat) list" "string \<times> nat"
  | Select "string list" string "(string \<times> nat) list" "(string \<times> nat \<times> nat) option"
  | CountBy string string

subsection \<open>Reading the text\<close>

definition sql_word_char :: "char \<Rightarrow> bool" where
  "sql_word_char c \<longleftrightarrow> is_digit c \<or> 97 \<le> byte_of c \<and> byte_of c \<le> 122 \<or> 65 \<le> byte_of c \<and> byte_of c \<le> 90 \<or>
     c \<in> {CHR ''_'', CHR ''$'', CHR ''.'', CHR ''*''}"

definition sql_space :: "char \<Rightarrow> bool" where
  "sql_space c \<longleftrightarrow> c \<in> {CHR '' '', CHR 0x09, CHR 0x0A, CHR 0x0D}"

fun sql_tokens :: "string \<Rightarrow> string \<Rightarrow> string list" where
  "sql_tokens w [] = (if w = [] then [] else [w])"
| "sql_tokens w (c # s) =
     (if sql_word_char c then sql_tokens (w @ [c]) s
      else (if w = [] then [] else [w]) @ (if sql_space c then [] else [[c]]) @ sql_tokens [] s)"

definition sql_param :: "string \<Rightarrow> nat option" where
  "sql_param t = (case t of c # ds \<Rightarrow> if c = CHR ''$'' \<and> ds \<noteq> [] \<and> list_all is_digit ds
     then Some (nat (digits_val ds)) else None | [] \<Rightarrow> None)"

text \<open>A list separated by a token, here \<open>,\<close> or \<open>AND\<close>: its items and what follows.\<close>

fun sep_list :: "string \<Rightarrow> string list \<Rightarrow> string list \<times> string list" where
  "sep_list d [] = ([], [])"
| "sep_list d [x] = ([x], [])"
| "sep_list d (x # c # ts) = (if c = d then (let (xs, r) = sep_list d ts in (x # xs, r)) else ([x], c # ts))"

fun sep_equations :: "string \<Rightarrow> string list \<Rightarrow> (string \<times> string) list \<times> string list" where
  "sep_equations d (x # e # y # c # ts) =
     (if e \<noteq> ''='' then ([], x # e # y # c # ts)
      else if c = d then (let (xs, r) = sep_equations d ts in ((x, y) # xs, r)) else ([(x, y)], c # ts))"
| "sep_equations d (x # e # y # []) = (if e = ''='' then ([(x, y)], []) else ([], [x, e, y]))"
| "sep_equations d ts = ([], ts)"

definition all_some :: "'a option list \<Rightarrow> 'a list option" where
  "all_some xs = (if None \<in> set xs then None else Some (map the xs))"

definition with_params :: "string list \<Rightarrow> string list \<Rightarrow> (string \<times> nat) list option" where
  "with_params cs ps = (if length cs \<noteq> length ps then None else map_option (zip cs) (all_some (map sql_param ps)))"

definition parse_conflict :: "string list \<Rightarrow> (string \<times> string list) option option" where
  "parse_conflict ts =
     (if ts = [] then Some None
      else if take 3 ts = [''ON'', ''CONFLICT'', ''(''] \<and> take 4 (drop 4 ts) = ['')'', ''DO'', ''UPDATE'', ''SET''] then
        (let (es, r) = sep_equations '','' (drop 8 ts)
         in if r = [] \<and> es \<noteq> [] \<and> list_all (\<lambda>(c, x). x = ''EXCLUDED.'' @ c) es
            then Some (Some (ts ! 3, map fst es)) else None)
      else None)"

definition parse_insert :: "string list \<Rightarrow> sql option" where
  "parse_insert ts =
     (if take 2 ts \<noteq> [''INSERT'', ''INTO''] \<or> take 1 (drop 3 ts) \<noteq> [''(''] then None
      else (let (cs, r) = sep_list '','' (drop 4 ts)
            in if take 3 r \<noteq> ['')'', ''VALUES'', ''(''] then None
               else (let (ps, r') = sep_list '','' (drop 3 r)
                     in if take 1 r' \<noteq> ['')''] then None
                        else case (with_params cs ps, parse_conflict (drop 1 r')) of
                               (Some as, Some k) \<Rightarrow> Some (Insert (ts ! 2) as k) | _ \<Rightarrow> None)))"

definition parse_update :: "string list \<Rightarrow> sql option" where
  "parse_update ts =
     (if take 1 ts \<noteq> [''UPDATE''] \<or> take 1 (drop 2 ts) \<noteq> [''SET''] then None
      else (let (es, r) = sep_equations '','' (drop 3 ts)
            in case with_params (map fst es) (map snd es) of
                 None \<Rightarrow> None
               | Some as \<Rightarrow> (case r of [wh, c, e, p] \<Rightarrow>
                     if wh = ''WHERE'' \<and> e = ''='' then map_option (\<lambda>n. Update (ts ! 1) as (c, n)) (sql_param p) else None
                   | _ \<Rightarrow> None)))"

definition parse_order :: "string list \<Rightarrow> (string \<times> nat \<times> nat) option option" where
  "parse_order ts =
     (if ts = [] then Some None
      else case ts of [o1, b, c, ds, l, lp, off, op] \<Rightarrow>
             if [o1, b, ds, l, off] = [''ORDER'', ''BY'', ''DESC'', ''LIMIT'', ''OFFSET'']
             then (case (sql_param lp, sql_param op) of (Some x, Some y) \<Rightarrow> Some (Some (c, x, y)) | _ \<Rightarrow> None)
             else None
           | _ \<Rightarrow> None)"

definition parse_select :: "string list \<Rightarrow> sql option" where
  "parse_select ts =
     (if take 1 ts \<noteq> [''SELECT''] then None
      else (let (cs, r) = sep_list '','' (drop 1 ts)
            in if take 1 r \<noteq> [''FROM''] \<or> length r < 2 then
                 (case (cs, r) of
                    ([c, n], [p, a, q, f, t, g, b, c']) \<Rightarrow>
                      if [n, p, a, q, f, g, b] = [''COUNT'', ''('', ''*'', '')'', ''FROM'', ''GROUP'', ''BY''] \<and> c' = c
                      then Some (CountBy c t) else None
                  | _ \<Rightarrow> None)
               else (let (es, r') = (if take 1 (drop 2 r) = [''WHERE''] then sep_equations ''AND'' (drop 3 r) else ([], drop 2 r))
                     in case (with_params (map fst es) (map snd es), parse_order r') of
                          (Some as, Some k) \<Rightarrow> Some (Select cs (r ! 1) as k) | _ \<Rightarrow> None)))"

definition parse_sql :: "string \<Rightarrow> sql option" where
  "parse_sql q =
     (let ts = sql_tokens [] q
      in case parse_insert ts of Some x \<Rightarrow> Some x
         | None \<Rightarrow> (case parse_update ts of Some x \<Rightarrow> Some x | None \<Rightarrow> parse_select ts))"


section \<open>The schema (migrations/0001_init.up.sql)\<close>

datatype coltype = CText | CJsonb | CInt | CBigint | CStamp

text \<open>
  Per table its columns, with type and whether \<open>NULL\<close> is refused; the columns that are unique; and
  the columns that refer to another table. The generated keys of \<open>job_attempts\<close> and \<open>audit_logs\<close>
  are not among the columns: no statement reads or writes them.
\<close>

definition schema :: "string \<Rightarrow> (string \<times> coltype \<times> bool) list" where
  "schema t =
     (if t = ''jobs'' then
        [(''id'', CText, True), (''job_type'', CText, True), (''payload'', CJsonb, True), (''status'', CText, True),
         (''retry_count'', CInt, True), (''max_retries'', CInt, True), (''priority'', CText, True),
         (''idempotency_key'', CText, True), (''trace_id'', CText, True), (''error_message'', CText, True),
         (''created_at'', CStamp, True), (''updated_at'', CStamp, True), (''processed_at'', CStamp, False)]
      else if t = ''job_attempts'' then
        [(''job_id'', CText, True), (''attempt'', CInt, True), (''status'', CText, True), (''error'', CText, True),
         (''duration_ms'', CBigint, True), (''created_at'', CStamp, True)]
      else if t = ''registrations'' then
        [(''id'', CText, True), (''job_id'', CText, True), (''event_id'', CText, True), (''attendee_name'', CText, True),
         (''email'', CText, True), (''phone'', CText, True), (''ticket_type'', CText, True), (''status'', CText, True),
         (''created_at'', CStamp, True)]
      else if t = ''payment_events'' then
        [(''id'', CText, True), (''job_id'', CText, True), (''gateway_order_id'', CText, True), (''payment_id'', CText, True),
         (''status'', CText, True), (''amount_cents'', CBigint, True), (''currency'', CText, True),
         (''processed_at'', CStamp, False), (''created_at'', CStamp, True)]
      else if t = ''qr_scan_events'' then
        [(''id'', CText, True), (''job_id'', CText, True), (''qr_code'', CText, True), (''event_id'', CText, True),
         (''gate_id'', CText, True), (''scanned_by'', CText, True), (''created_at'', CStamp, True)]
      else if t = ''notification_events'' then
        [(''id'', CText, True), (''job_id'', CText, True), (''channel'', CText, True), (''recipient'', CText, True),
         (''template'', CText, True), (''status'', CText, True), (''attempts'', CInt, True), (''sent_at'', CStamp, False),
         (''created_at'', CStamp, True)]
      else if t = ''audit_logs'' then
        [(''entity_type'', CText, True), (''entity_id'', CText, True), (''action'', CText, True), (''detail'', CJsonb, True),
         (''trace_id'', CText, True), (''created_at'', CStamp, True)]
      else [])"

definition unique_columns :: "string \<Rightarrow> string list" where
  "unique_columns t =
     (if t = ''payment_events'' then [''id'', ''gateway_order_id'']
      else if t \<in> {''jobs'', ''registrations'', ''qr_scan_events'', ''notification_events''} then [''id''] else [])"

definition references :: "string \<Rightarrow> (string \<times> string \<times> string) list" where
  "references t = (if t = ''job_attempts'' then [(''job_id'', ''jobs'', ''id'')] else [])"

section \<open>Rows\<close>

type_synonym row = "string \<rightharpoonup> sqlval"

text \<open>Whether a column takes a value, what it keeps of it, and the values it can hold.\<close>

fun accepts :: "(string \<Rightarrow> bool) \<Rightarrow> (string \<Rightarrow> bool) \<Rightarrow> coltype \<Rightarrow> bool \<Rightarrow> sqlval \<Rightarrow> bool" where
  "accepts oktext okjson CText nn (SText s) = oktext s"
| "accepts oktext okjson CJsonb nn (SText s) = okjson s"
| "accepts oktext okjson CInt nn (SInt n) = int32 n"
| "accepts oktext okjson CBigint nn (SInt n) = int64 n"
| "accepts oktext okjson CStamp nn (STime t) = stamp_ok t"
| "accepts oktext okjson ty nn SNull = (\<not> nn)"
| "accepts oktext okjson ty nn v = False"

fun keeps :: "(string \<Rightarrow> string) \<Rightarrow> (time \<Rightarrow> time) \<Rightarrow> coltype \<Rightarrow> sqlval \<Rightarrow> sqlval" where
  "keeps np na CJsonb (SText s) = SText (np s)"
| "keeps np na CStamp (STime t) = STime (na t)"
| "keeps np na ty v = v"

fun has_type :: "coltype \<Rightarrow> bool \<Rightarrow> sqlval \<Rightarrow> bool" where
  "has_type CText nn (SText s) = True"
| "has_type CJsonb nn (SText s) = True"
| "has_type CInt nn (SInt n) = True"
| "has_type CBigint nn (SInt n) = True"
| "has_type CStamp nn (STime t) = True"
| "has_type ty nn SNull = (\<not> nn)"
| "has_type ty nn v = False"

lemma accepts_has_type: "accepts oktext okjson ty nn v \<Longrightarrow> has_type ty nn (keeps np na ty v)"
  by (cases "(oktext, okjson, ty, nn, v)" rule: accepts.cases) auto

definition typed_row :: "string \<Rightarrow> row \<Rightarrow> bool" where
  "typed_row t r \<longleftrightarrow> (\<forall>(c, ty, nn) \<in> set (schema t). \<exists>v. r c = Some v \<and> has_type ty nn v)"

text \<open>The columns an assignment gives, from the parameters of a statement.\<close>

definition arg :: "sqlval list \<Rightarrow> nat \<Rightarrow> sqlval" where
  "arg args n = (if 1 \<le> n \<and> n \<le> length args then args ! (n - 1) else SNull)"

definition fits ::
  "(string \<Rightarrow> bool) \<Rightarrow> (string \<Rightarrow> bool) \<Rightarrow> string \<Rightarrow> (string \<times> nat) list \<Rightarrow> sqlval list \<Rightarrow> bool" where
  "fits oktext okjson t as args \<longleftrightarrow> list_all (\<lambda>(c, n). 1 \<le> n \<and> n \<le> length args \<and>
     (case map_of (schema t) c of None \<Rightarrow> False | Some (ty, nn) \<Rightarrow> accepts oktext okjson ty nn (arg args n))) as"

definition new_row ::
  "(string \<Rightarrow> string) \<Rightarrow> (time \<Rightarrow> time) \<Rightarrow> string \<Rightarrow> (string \<times> nat) list \<Rightarrow> sqlval list \<Rightarrow> row" where
  "new_row np na t as args = map_of (map (\<lambda>(c, n). (c, case map_of (schema t) c of None \<Rightarrow> arg args n
     | Some (ty, nn) \<Rightarrow> keeps np na ty (arg args n))) as)"

text \<open>All columns of a table, given by the parameters in order.\<close>

definition numbered :: "string \<Rightarrow> (string \<times> nat) list" where
  "numbered t = zip (map fst (schema t)) [1..<Suc (length (schema t))]"

lemma schema_distinct: "distinct (map fst (schema t))"
  by (simp add: schema_def)

lemma schema_nth: "i < length (schema t) \<Longrightarrow> map_of (schema t) (fst (schema t ! i)) = Some (snd (schema t ! i))"
  using schema_distinct by (simp add: map_of_eq_Some_iff)

lemma numbered_simps [simp]:
  "map fst (numbered t) = map fst (schema t)" "length (numbered t) = length (schema t)"
  "i < length (schema t) \<Longrightarrow> numbered t ! i = (fst (schema t ! i), Suc i)"
  by (simp_all add: numbered_def del: upt_Suc)

lemma fits_numbered:
  assumes "length args = length (schema t)"
  shows "fits oktext okjson t (numbered t) args \<longleftrightarrow>
    list_all2 (\<lambda>(c, ty, nn) v. accepts oktext okjson ty nn v) (schema t) args"
  using assms
  by (simp add: fits_def list_all_length list_all2_conv_all_nth schema_nth arg_def case_prod_beta)

definition stored_row :: "(string \<Rightarrow> string) \<Rightarrow> (time \<Rightarrow> time) \<Rightarrow> string \<Rightarrow> sqlval list \<Rightarrow> row" where
  "stored_row np na t args =
     map_of (zip (map fst (schema t)) (map2 (\<lambda>(c, ty, nn) v. keeps np na ty v) (schema t) args))"

lemma new_row_numbered:
  assumes "length args = length (schema t)"
  shows "new_row np na t (numbered t) args = stored_row np na t args"
proof -
  have "map (\<lambda>(c, n). (c, case map_of (schema t) c of None \<Rightarrow> arg args n | Some (ty, nn) \<Rightarrow> keeps np na ty (arg args n))) (numbered t) =
      zip (map fst (schema t)) (map2 (\<lambda>(c, ty, nn) v. keeps np na ty v) (schema t) args)"
    using assms by (intro nth_equalityI) (simp_all add: schema_nth arg_def case_prod_beta)
  then show ?thesis by (simp add: new_row_def stored_row_def)
qed

definition no_clash :: "string list \<Rightarrow> row \<Rightarrow> row list \<Rightarrow> bool" where
  "no_clash us x rs \<longleftrightarrow> list_all (\<lambda>c. list_all (\<lambda>r. r c \<noteq> x c) rs) us"

definition refers :: "(string \<Rightarrow> row list) \<Rightarrow> string \<Rightarrow> row \<Rightarrow> bool" where
  "refers ts t x \<longleftrightarrow> list_all (\<lambda>(c, t', c'). list_ex (\<lambda>r. r c' = x c) (ts t')) (references t)"

definition matches :: "(string \<times> nat) list \<Rightarrow> sqlval list \<Rightarrow> row \<Rightarrow> bool" where
  "matches as args r \<longleftrightarrow> list_all (\<lambda>(c, n). r c = Some (arg args n)) as"

definition column :: "string \<Rightarrow> row \<Rightarrow> sqlval" where
  "column c r = (case r c of None \<Rightarrow> SNull | Some v \<Rightarrow> v)"

text \<open>A selection in descending order of a time column; what comes first among equals is open.\<close>

definition stamp_of :: "string \<Rightarrow> row \<Rightarrow> time" where
  "stamp_of c r = (case r c of Some (STime t) \<Rightarrow> t | _ \<Rightarrow> 0)"

definition ordered_by :: "string \<Rightarrow> row list \<Rightarrow> bool" where
  "ordered_by c rs \<longleftrightarrow> sorted_wrt (\<lambda>a b. stamp_of c b \<le> stamp_of c a) rs"

section \<open>The driver\<close>

text \<open>
  pgx as the store uses it. \<open>Exec\<close> gives the number of rows affected, \<open>Query\<close> the rows \<open>Next\<close> steps
  through and the error \<open>Err\<close> reports after them, \<open>QueryRow\<close> the row or the error its \<open>Scan\<close> returns;
  \<open>Scan\<close> copies a row into variables of the given kinds.
\<close>

datatype dest = DString | DBytes | DInt | DTime | DTimePtr

record 'p pgx =
  pg_Exec :: "ctx \<Rightarrow> string \<Rightarrow> sqlval list \<Rightarrow> 'p \<Rightarrow> (goerr + int) \<times> 'p"
  pg_Query :: "ctx \<Rightarrow> string \<Rightarrow> sqlval list \<Rightarrow> 'p \<Rightarrow> (goerr + sqlval list list \<times> goerr option) \<times> 'p"
  pg_QueryRow :: "ctx \<Rightarrow> string \<Rightarrow> sqlval list \<Rightarrow> 'p \<Rightarrow> (goerr + sqlval list) \<times> 'p"
  pg_Scan :: "dest list \<Rightarrow> sqlval list \<Rightarrow> goerr + sqlval list"
  pg_Ping :: "ctx \<Rightarrow> 'p \<Rightarrow> goerr option \<times> 'p"

fun scans :: "dest \<Rightarrow> sqlval \<Rightarrow> bool" where
  "scans DString (SText s) = True"
| "scans DBytes (SText s) = True"
| "scans DInt (SInt n) = True"
| "scans DTime (STime t) = True"
| "scans DTimePtr (STime t) = True"
| "scans DTimePtr SNull = True"
| "scans k v = False"

text \<open>
  What the store relies on, for a database that is reachable (\<open>up\<close>) and whose rows are \<open>ts\<close>: its
  constraints hold, a statement whose values the columns accept does what it says, a read leaves
  the database as it is, and a row scans into variables of matching kinds.
\<close>

locale pg_laws =
  fixes P :: "'p pgx" and ts :: "'p \<Rightarrow> string \<Rightarrow> row list" and up :: "'p \<Rightarrow> bool"
    and oktext okjson :: "string \<Rightarrow> bool" and np :: "string \<Rightarrow> string" and na :: "time \<Rightarrow> time"
  assumes typed: "up d \<Longrightarrow> r \<in> set (ts d t) \<Longrightarrow> typed_row t r"
    and unique: "up d \<Longrightarrow> c \<in> set (unique_columns t) \<Longrightarrow> distinct (map (\<lambda>r. r c) (ts d t))"
    and insert: "up d \<Longrightarrow> parse_sql q = Some (Insert t as None) \<Longrightarrow> fits oktext okjson t as args \<Longrightarrow>
        map fst as = map fst (schema t) \<Longrightarrow> x = new_row np na t as args \<Longrightarrow>
        no_clash (unique_columns t) x (ts d t) \<Longrightarrow> refers (ts d) t x \<Longrightarrow>
        \<exists>d'. pg_Exec P None q args d = (Inr 1, d') \<and> up d' \<and> ts d' = (ts d)(t := ts d t @ [x])"
    and upsert: "up d \<Longrightarrow> parse_sql q = Some (Insert t as (Some (k, cs))) \<Longrightarrow> fits oktext okjson t as args \<Longrightarrow>
        map fst as = map fst (schema t) \<Longrightarrow> x = new_row np na t as args \<Longrightarrow> k \<in> set (unique_columns t) \<Longrightarrow>
        no_clash (unique_columns t) x (filter (\<lambda>r. r k \<noteq> x k) (ts d t)) \<Longrightarrow> references t = [] \<Longrightarrow>
        set cs \<subseteq> set (map fst (schema t)) - set (unique_columns t) \<Longrightarrow>
        \<exists>d'. pg_Exec P None q args d = (Inr 1, d') \<and> up d' \<and> ts d' = (ts d)(t :=
          (if list_all (\<lambda>r. r k \<noteq> x k) (ts d t) then ts d t @ [x]
           else map (\<lambda>r. if r k = x k then r ++ x |` set cs else r) (ts d t)))"
    and update: "up d \<Longrightarrow> parse_sql q = Some (Update t as (k, n)) \<Longrightarrow> fits oktext okjson t ((k, n) # as) args \<Longrightarrow>
        distinct (map fst as) \<Longrightarrow> set (map fst as) \<inter> (set (unique_columns t) \<union> fst ` set (references t)) = {} \<Longrightarrow>
        \<exists>d'. pg_Exec P None q args d = (Inr (int (length (filter (matches [(k, n)] args) (ts d t)))), d') \<and> up d' \<and>
          ts d' = (ts d)(t := map (\<lambda>r. if matches [(k, n)] args r then r ++ new_row np na t as args else r) (ts d t)) \<and>
          (filter (matches [(k, n)] args) (ts d t) = [] \<longrightarrow> d' = d)"
    and select_row: "up d \<Longrightarrow> parse_sql q = Some (Select cs t as None) \<Longrightarrow> fits oktext okjson t as args \<Longrightarrow>
        set cs \<subseteq> set (map fst (schema t)) \<Longrightarrow>
        \<exists>sel. mset sel = mset (filter (matches as args) (ts d t)) \<and> pg_QueryRow P None q args d =
          (case sel of [] \<Rightarrow> Inl (Sentinel pgx_ErrNoRows) | r # _ \<Rightarrow> Inr (map (\<lambda>c. column c r) cs), d)"
    and select_page: "up d \<Longrightarrow> parse_sql q = Some (Select cs t as (Some (k, l, f))) \<Longrightarrow> fits oktext okjson t as args \<Longrightarrow>
        set cs \<subseteq> set (map fst (schema t)) \<Longrightarrow> map_of (schema t) k = Some (CStamp, True) \<Longrightarrow>
        arg args l = SInt limit \<Longrightarrow> arg args f = SInt offset \<Longrightarrow> int64 limit \<Longrightarrow> int64 offset \<Longrightarrow>
        0 \<le> limit \<Longrightarrow> 0 \<le> offset \<Longrightarrow>
        \<exists>sel. mset sel = mset (filter (matches as args) (ts d t)) \<and> ordered_by k sel \<and> pg_Query P None q args d =
          (Inr (map (\<lambda>r. map (\<lambda>c. column c r) cs) (result_page limit offset sel), None), d)"
    and negative_offset: "up d \<Longrightarrow> parse_sql q = Some (Select cs t as (Some (k, l, f))) \<Longrightarrow>
        arg args f = SInt offset \<Longrightarrow> offset < 0 \<Longrightarrow>
        \<exists>e. pg_Query P None q args d \<in> {(Inl e, d), (Inr ([], Some e), d)}"
    and count_rows: "up d \<Longrightarrow> parse_sql q = Some (CountBy c t) \<Longrightarrow> c \<in> set (map fst (schema t)) \<Longrightarrow>
        \<exists>ks. distinct ks \<and> set ks = column c ` set (ts d t) \<and> pg_Query P None q [] d =
          (Inr (map (\<lambda>k. [k, SInt (int (length (filter (\<lambda>r. column c r = k) (ts d t))))]) ks, None), d)"
    and empty_json: "\<not> okjson ''''"
    and scan: "list_all2 scans ds vs \<Longrightarrow> pg_Scan P ds vs = Inr vs"

end
