(* ===== verification/Postgres_Store.thy ===== *)
theory Postgres_Store
  imports Sql "HOL-Library.AList"
begin

text \<open>
  The store of a production deployment: \<open>internal/repository\<close>, on pgx. Every operation is its SQL
  text, the parameters it binds and what it makes of the answer. The
  theory Postgres-Contract shows that under the laws of the driver the store meets its contracts.
\<close>

section \<open>Jobs (job_repository.go)\<close>

definition sql_lines :: "string list \<Rightarrow> string" where
  "sql_lines ls = concat (map (\<lambda>l. [CHR 0x0A] @ l) ls)"

definition stamp_arg :: "time option \<Rightarrow> sqlval" where
  "stamp_arg t = (case t of None \<Rightarrow> SNull | Some x \<Rightarrow> STime x)"

definition insert_job_sql :: string where
  "insert_job_sql = sql_lines
     [''INSERT INTO jobs (id, job_type, payload, status, retry_count, max_retries,'',
      ''                  priority, idempotency_key, trace_id, error_message,'',
      ''                  created_at, updated_at, processed_at)'',
      ''VALUES ($1,$2,$3,$4,$5,$6,$7,$8,$9,$10,$11,$12,$13)'']"

definition Pg_Create :: "'p pgx \<Rightarrow> ctx \<Rightarrow> Job \<Rightarrow> 'p \<Rightarrow> goerr option \<times> 'p" where
  "Pg_Create P c j d =
     (case pg_Exec P c insert_job_sql
        [SText (job_ID j), SText (job_JobType j), SText (job_Payload j), SText (job_Status j), SInt (job_RetryCount j),
         SInt (job_MaxRetries j), SText (job_Priority j), SText (job_IdempotencyKey j), SText (job_TraceID j),
         SText (job_ErrorMessage j), STime (job_CreatedAt j), STime (job_UpdatedAt j), stamp_arg (job_ProcessedAt j)] d of
        (Inl e, d') \<Rightarrow> (Some (Wrap ''insert job: '' e ''''), d')
      | (Inr _, d') \<Rightarrow> (None, d'))"

definition update_job_sql :: string where
  "update_job_sql = sql_lines
     [''UPDATE jobs'',
      ''   SET status=$2, retry_count=$3, error_message=$4, updated_at=$5, processed_at=$6'',
      '' WHERE id=$1'']"

definition Pg_Update :: "'p pgx \<Rightarrow> ctx \<Rightarrow> Job \<Rightarrow> 'p \<Rightarrow> goerr option \<times> 'p" where
  "Pg_Update P c j d =
     (case pg_Exec P c update_job_sql
        [SText (job_ID j), SText (job_Status j), SInt (job_RetryCount j), SText (job_ErrorMessage j),
         STime (job_UpdatedAt j), stamp_arg (job_ProcessedAt j)] d of
        (Inl e, d') \<Rightarrow> (Some (Wrap ''update job: '' e ''''), d')
      | (Inr n, d') \<Rightarrow> (if n = 0 then Some (Sentinel ErrNotFound) else None, d'))"

definition jobColumns :: string where
  "jobColumns = ''id, job_type, payload, status, retry_count, max_retries,'' @ [CHR 0x0A, CHR 0x09] @
     ''priority, idempotency_key, trace_id, error_message,'' @ [CHR 0x0A, CHR 0x09] @
     ''created_at, updated_at, processed_at''"

text \<open>The variables a row is scanned into; one that was not written has its zero value.\<close>

definition as_text :: "sqlval \<Rightarrow> string" where
  "as_text v = (case v of SText s \<Rightarrow> s | _ \<Rightarrow> '''')"

definition as_int :: "sqlval \<Rightarrow> int" where
  "as_int v = (case v of SInt n \<Rightarrow> n | _ \<Rightarrow> 0)"

definition as_time :: "sqlval \<Rightarrow> time" where
  "as_time v = (case v of STime t \<Rightarrow> t | _ \<Rightarrow> zero_time)"

definition as_time_ptr :: "sqlval \<Rightarrow> time option" where
  "as_time_ptr v = (case v of STime t \<Rightarrow> Some t | _ \<Rightarrow> None)"

definition job_of :: "sqlval list \<Rightarrow> Job" where
  "job_of v = \<lparr> job_ID = as_text (v ! 0), job_JobType = as_text (v ! 1), job_Payload = as_text (v ! 2),
     job_Status = as_text (v ! 3), job_RetryCount = as_int (v ! 4), job_MaxRetries = as_int (v ! 5),
     job_Priority = as_text (v ! 6), job_IdempotencyKey = as_text (v ! 7), job_TraceID = as_text (v ! 8),
     job_ErrorMessage = as_text (v ! 9), job_CreatedAt = as_time (v ! 10), job_UpdatedAt = as_time (v ! 11),
     job_ProcessedAt = as_time_ptr (v ! 12) \<rparr>"

definition job_dests :: "dest list" where
  "job_dests = [DString, DString, DBytes, DString, DInt, DInt, DString, DString, DString, DString, DTime, DTime, DTimePtr]"

definition scanJob :: "'p pgx \<Rightarrow> goerr + sqlval list \<Rightarrow> goerr + Job" where
  "scanJob P r = (case r of Inl e \<Rightarrow> Inl e
     | Inr vs \<Rightarrow> (case pg_Scan P job_dests vs of Inl e \<Rightarrow> Inl e | Inr ws \<Rightarrow> Inr (job_of ws)))"

definition get_job_sql :: string where
  "get_job_sql = ''SELECT '' @ jobColumns @ '' FROM jobs WHERE id=$1''"

definition Pg_GetByID :: "'p pgx \<Rightarrow> ctx \<Rightarrow> string \<Rightarrow> 'p \<Rightarrow> (goerr + Job) \<times> 'p" where
  "Pg_GetByID P c i d =
     (let (r, d') = pg_QueryRow P c get_job_sql [SText i] d
      in case scanJob P r of
           Inl e \<Rightarrow> (if errors_Is e pgx_ErrNoRows then Inl (Sentinel ErrNotFound) else Inl (Wrap ''get job: '' e ''''), d')
         | Inr j \<Rightarrow> (Inr j, d'))"

fun scan_jobs :: "'p pgx \<Rightarrow> sqlval list list \<Rightarrow> goerr + Job list" where
  "scan_jobs P [] = Inr []"
| "scan_jobs P (r # rs) = (case scanJob P (Inr r) of
     Inl e \<Rightarrow> Inl (Wrap ''scan job: '' e '''')
   | Inr j \<Rightarrow> (case scan_jobs P rs of Inl e \<Rightarrow> Inl e | Inr js \<Rightarrow> Inr (j # js)))"

definition queryJobs :: "'p pgx \<Rightarrow> ctx \<Rightarrow> string \<Rightarrow> sqlval list \<Rightarrow> 'p \<Rightarrow> (goerr + Job list) \<times> 'p" where
  "queryJobs P c q args d =
     (case pg_Query P c q args d of
        (Inl e, d') \<Rightarrow> (Inl (Wrap ''query jobs: '' e ''''), d')
      | (Inr (rows, err), d') \<Rightarrow>
          (case scan_jobs P rows of
             Inl e \<Rightarrow> (Inl e, d')
           | Inr js \<Rightarrow> (case err of Some e \<Rightarrow> (Inl e, d') | None \<Rightarrow> (Inr js, d'))))"

text \<open>The conditions of a filter with their parameters, numbered from 1.\<close>

definition filter_conds :: "JobFilter \<Rightarrow> string list \<times> sqlval list \<times> int" where
  "filter_conds f =
     (let (cs, as, i) = (if jf_Status f \<noteq> '''' then ([''status=$'' @ itoa 1], [SText (jf_Status f)], 2) else ([], [], 1))
      in if jf_JobType f \<noteq> '''' then (cs @ [''job_type=$'' @ itoa i], as @ [SText (jf_JobType f)], i + 1)
         else (cs, as, i))"

fun strings_Join :: "string list \<Rightarrow> string \<Rightarrow> string" where
  "strings_Join [] sep = ''''"
| "strings_Join [x] sep = x"
| "strings_Join (x # y # xs) sep = x @ sep @ strings_Join (y # xs) sep"

definition page_limit :: "int \<Rightarrow> int" where
  "page_limit l = (if l \<le> 0 \<or> l > 500 then 50 else l)"

definition list_sql :: "JobFilter \<Rightarrow> string" where
  "list_sql f =
     (let (conds, args, i) = filter_conds f
      in ''SELECT '' @ jobColumns @ '' FROM jobs'' @
         (if length conds > 0 then '' WHERE '' @ strings_Join conds '' AND '' else '''') @
         '' ORDER BY created_at DESC LIMIT $'' @ itoa i @ '' OFFSET $'' @ itoa (i + 1))"

definition Pg_List :: "'p pgx \<Rightarrow> ctx \<Rightarrow> JobFilter \<Rightarrow> 'p \<Rightarrow> (goerr + Job list) \<times> 'p" where
  "Pg_List P c f d =
     queryJobs P c (list_sql f) (fst (snd (filter_conds f)) @ [SInt (page_limit (jf_Limit f)), SInt (jf_Offset f)]) d"

definition list_dead_sql :: string where
  "list_dead_sql = ''SELECT '' @ jobColumns @ '' FROM jobs WHERE status=$1 ORDER BY updated_at DESC LIMIT $2 OFFSET $3''"

definition Pg_ListDeadLetter :: "'p pgx \<Rightarrow> ctx \<Rightarrow> int \<Rightarrow> int \<Rightarrow> 'p \<Rightarrow> (goerr + Job list) \<times> 'p" where
  "Pg_ListDeadLetter P c limit offset d =
     queryJobs P c list_dead_sql [SText JobStatusDeadLetter, SInt (page_limit limit), SInt offset] d"

text \<open>A column of names with a column of numbers, into a map.\<close>

fun scan_counts :: "'p pgx \<Rightarrow> (string \<times> int) list \<Rightarrow> sqlval list list \<Rightarrow> goerr + (string \<times> int) list" where
  "scan_counts P out [] = Inr out"
| "scan_counts P out (r # rs) = (case pg_Scan P [DString, DInt] r of
     Inl e \<Rightarrow> Inl e | Inr vs \<Rightarrow> scan_counts P (AList.update (as_text (vs ! 0)) (as_int (vs ! 1)) out) rs)"

definition Pg_counts :: "'p pgx \<Rightarrow> ctx \<Rightarrow> string \<Rightarrow> string \<Rightarrow> 'p \<Rightarrow> (goerr + (string \<times> int) list) \<times> 'p" where
  "Pg_counts P c q what d =
     (case pg_Query P c q [] d of
        (Inl e, d') \<Rightarrow> (Inl (Wrap what e ''''), d')
      | (Inr (rows, err), d') \<Rightarrow>
          (case scan_counts P [] rows of
             Inl e \<Rightarrow> (Inl e, d')
           | Inr out \<Rightarrow> (case err of Some e \<Rightarrow> (Inl e, d') | None \<Rightarrow> (Inr out, d'))))"

definition Pg_CountByStatus :: "'p pgx \<Rightarrow> ctx \<Rightarrow> 'p \<Rightarrow> (goerr + (JobStatus \<times> int) list) \<times> 'p" where
  "Pg_CountByStatus P c d = Pg_counts P c ''SELECT status, COUNT(*) FROM jobs GROUP BY status'' ''count by status: '' d"

definition Pg_CountByType :: "'p pgx \<Rightarrow> ctx \<Rightarrow> 'p \<Rightarrow> (goerr + (JobType \<times> int) list) \<times> 'p" where
  "Pg_CountByType P c d = Pg_counts P c ''SELECT job_type, COUNT(*) FROM jobs GROUP BY job_type'' ''count by type: '' d"

definition insert_attempt_sql :: string where
  "insert_attempt_sql = sql_lines
     [''INSERT INTO job_attempts (job_id, attempt, status, error, duration_ms, created_at)'', ''VALUES ($1,$2,$3,$4,$5,$6)'']"

definition Pg_AddAttempt :: "'p pgx \<Rightarrow> ctx \<Rightarrow> JobAttempt \<Rightarrow> 'p \<Rightarrow> goerr option \<times> 'p" where
  "Pg_AddAttempt P c a d =
     (case pg_Exec P c insert_attempt_sql
        [SText (att_JobID a), SInt (att_Attempt a), SText (att_Status a), SText (att_Error a), SInt (att_DurationMS a),
         STime (att_CreatedAt a)] d of
        (Inl e, d') \<Rightarrow> (Some (Wrap ''insert job attempt: '' e ''''), d')
      | (Inr _, d') \<Rightarrow> (None, d'))"


section \<open>Events (event_repository.go)\<close>

definition insert_registration_sql :: string where
  "insert_registration_sql = sql_lines
     [''INSERT INTO registrations (id, job_id, event_id, attendee_name, email, phone, ticket_type, status, created_at)'',
      ''VALUES ($1,$2,$3,$4,$5,$6,$7,$8,$9)'']"

definition Pg_CreateRegistration :: "'p pgx \<Rightarrow> ctx \<Rightarrow> Registration \<Rightarrow> 'p \<Rightarrow> goerr option \<times> 'p" where
  "Pg_CreateRegistration P c r d =
     (case pg_Exec P c insert_registration_sql
        [SText (reg_ID r), SText (reg_JobID r), SText (reg_EventID r), SText (reg_AttendeeName r), SText (reg_Email r),
         SText (reg_Phone r), SText (reg_TicketType r), SText (reg_Status r), STime (reg_CreatedAt r)] d of
        (Inl e, d') \<Rightarrow> (Some (Wrap ''insert registration: '' e ''''), d')
      | (Inr _, d') \<Rightarrow> (None, d'))"

definition upsert_payment_sql :: string where
  "upsert_payment_sql = sql_lines
     [''INSERT INTO payment_events (id, job_id, gateway_order_id, payment_id, status, amount_cents, currency, processed_at, created_at)'',
      ''VALUES ($1,$2,$3,$4,$5,$6,$7,$8,$9)'',
      ''ON CONFLICT (gateway_order_id) DO UPDATE'',
      ''   SET payment_id   = EXCLUDED.payment_id,'',
      ''       status       = EXCLUDED.status,'',
      ''       amount_cents = EXCLUDED.amount_cents,'',
      ''       currency     = EXCLUDED.currency,'',
      ''       processed_at = EXCLUDED.processed_at'']"

definition Pg_UpsertPaymentEvent :: "'p pgx \<Rightarrow> ctx \<Rightarrow> PaymentEvent \<Rightarrow> 'p \<Rightarrow> goerr option \<times> 'p" where
  "Pg_UpsertPaymentEvent P c p d =
     (case pg_Exec P c upsert_payment_sql
        [SText (pe_ID p), SText (pe_JobID p), SText (pe_GatewayOrderID p), SText (pe_PaymentID p), SText (pe_Status p),
         SInt (pe_AmountCents p), SText (pe_Currency p), stamp_arg (pe_ProcessedAt p), STime (pe_CreatedAt p)] d of
        (Inl e, d') \<Rightarrow> (Some (Wrap ''upsert payment event: '' e ''''), d')
      | (Inr _, d') \<Rightarrow> (None, d'))"

definition insert_scan_sql :: string where
  "insert_scan_sql = sql_lines
     [''INSERT INTO qr_scan_events (id, job_id, qr_code, event_id, gate_id, scanned_by, created_at)'',
      ''VALUES ($1,$2,$3,$4,$5,$6,$7)'']"

definition Pg_CreateQRScanEvent :: "'p pgx \<Rightarrow> ctx \<Rightarrow> QRScanEvent \<Rightarrow> 'p \<Rightarrow> goerr option \<times> 'p" where
  "Pg_CreateQRScanEvent P c e d =
     (case pg_Exec P c insert_scan_sql
        [SText (qs_ID e), SText (qs_JobID e), SText (qs_QRCode e), SText (qs_EventID e), SText (qs_GateID e),
         SText (qs_ScannedBy e), STime (qs_CreatedAt e)] d of
        (Inl x, d') \<Rightarrow> (Some (Wrap ''insert qr scan event: '' x ''''), d')
      | (Inr _, d') \<Rightarrow> (None, d'))"

definition insert_notification_sql :: string where
  "insert_notification_sql = sql_lines
     [''INSERT INTO notification_events (id, job_id, channel, recipient, template, status, attempts, sent_at, created_at)'',
      ''VALUES ($1,$2,$3,$4,$5,$6,$7,$8,$9)'']"

definition Pg_CreateNotificationEvent :: "'p pgx \<Rightarrow> ctx \<Rightarrow> NotificationEvent \<Rightarrow> 'p \<Rightarrow> goerr option \<times> 'p" where
  "Pg_CreateNotificationEvent P c n d =
     (case pg_Exec P c insert_notification_sql
        [SText (ne_ID n), SText (ne_JobID n), SText (ne_Channel n), SText (ne_Recipient n), SText (ne_Template n),
         SText (ne_Status n), SInt (ne_Attempts n), stamp_arg (ne_SentAt n), STime (ne_CreatedAt n)] d of
        (Inl x, d') \<Rightarrow> (Some (Wrap ''insert notification event: '' x ''''), d')
      | (Inr _, d') \<Rightarrow> (None, d'))"

definition insert_audit_sql :: string where
  "insert_audit_sql = sql_lines
     [''INSERT INTO audit_logs (entity_type, entity_id, action, detail, trace_id, created_at)'', ''VALUES ($1,$2,$3,$4,$5,$6)'']"

definition Pg_CreateAuditLog :: "'p pgx \<Rightarrow> ctx \<Rightarrow> AuditLog \<Rightarrow> 'p \<Rightarrow> goerr option \<times> 'p" where
  "Pg_CreateAuditLog P c l d =
     (let detail = (if length (al_Detail l) = 0 then ''{}'' else al_Detail l)
      in case pg_Exec P c insert_audit_sql
           [SText (al_EntityType l), SText (al_EntityID l), SText (al_Action l), SText detail, SText (al_TraceID l),
            STime (al_CreatedAt l)] d of
           (Inl x, d') \<Rightarrow> (Some (Wrap ''insert audit log: '' x ''''), d')
         | (Inr _, d') \<Rightarrow> (None, d'))"

section \<open>The store (postgres.go)\<close>

definition Pg_Ping :: "'p pgx \<Rightarrow> ctx \<Rightarrow> 'p \<Rightarrow> goerr option \<times> 'p" where
  "Pg_Ping P c d = pg_Ping P c d"

definition PgStore_port :: "'p pgx \<Rightarrow> 'p Store_port" where
  "PgStore_port P =
     \<lparr> sCreate = Pg_Create P, sUpdate = Pg_Update P, sGetByID = Pg_GetByID P,
       sList = Pg_List P, sListDeadLetter = Pg_ListDeadLetter P,
       sCountByStatus = Pg_CountByStatus P, sCountByType = Pg_CountByType P,
       sAddAttempt = Pg_AddAttempt P, sPing = Pg_Ping P,
       sCreateRegistration = Pg_CreateRegistration P, sUpsertPaymentEvent = Pg_UpsertPaymentEvent P,
       sCreateQRScanEvent = Pg_CreateQRScanEvent P, sCreateNotificationEvent = Pg_CreateNotificationEvent P,
       sCreateAuditLog = Pg_CreateAuditLog P \<rparr>"

section \<open>The statements read as meant\<close>

lemma read_inserts:
  "parse_sql insert_job_sql = Some (Insert ''jobs'' (numbered ''jobs'') None)"
  "parse_sql insert_attempt_sql = Some (Insert ''job_attempts'' (numbered ''job_attempts'') None)"
  "parse_sql insert_registration_sql = Some (Insert ''registrations'' (numbered ''registrations'') None)"
  "parse_sql insert_scan_sql = Some (Insert ''qr_scan_events'' (numbered ''qr_scan_events'') None)"
  "parse_sql insert_notification_sql =
     Some (Insert ''notification_events'' (numbered ''notification_events'') None)"
  "parse_sql insert_audit_sql = Some (Insert ''audit_logs'' (numbered ''audit_logs'') None)"
  by code_simp+

lemma read_upsert:
  "parse_sql upsert_payment_sql = Some (Insert ''payment_events'' (numbered ''payment_events'')
     (Some (''gateway_order_id'', [''payment_id'', ''status'', ''amount_cents'', ''currency'', ''processed_at''])))"
  by code_simp

lemma read_update:
  "parse_sql update_job_sql = Some (Update ''jobs'' [(''status'', 2), (''retry_count'', 3), (''error_message'', 4),
     (''updated_at'', 5), (''processed_at'', 6)] (''id'', 1))"
  by code_simp

lemma read_get: "parse_sql get_job_sql = Some (Select (map fst (schema ''jobs'')) ''jobs'' [(''id'', 1)] None)"
  by code_simp

lemma read_list_dead:
  "parse_sql list_dead_sql = Some (Select (map fst (schema ''jobs'')) ''jobs'' [(''status'', 1)] (Some (''updated_at'', 2, 3)))"
  by code_simp

end
