(* ===== verification/Postgres_Contract.thy ===== *)
theory Postgres_Contract
  imports Postgres_Store
begin

text \<open>
  The PostgreSQL store meets the contracts the services, workers and the admin service are verified
  against: the rows of the database, read as jobs, attempts and events, change under its operations
  as the tables of the contracts do.
\<close>

section \<open>The tables of the contract\<close>

definition row_job :: "row \<Rightarrow> Job" where
  "row_job r = job_of (map (\<lambda>c. column c r) (map fst (schema ''jobs'')))"

definition row_attempt :: "row \<Rightarrow> JobAttempt" where
  "row_attempt r = \<lparr> att_JobID = as_text (column ''job_id'' r), att_Attempt = as_int (column ''attempt'' r),
     att_Status = as_text (column ''status'' r), att_Error = as_text (column ''error'' r),
     att_DurationMS = as_int (column ''duration_ms'' r), att_CreatedAt = as_time (column ''created_at'' r) \<rparr>"

definition row_registration :: "row \<Rightarrow> Registration" where
  "row_registration r = \<lparr> reg_ID = as_text (column ''id'' r), reg_JobID = as_text (column ''job_id'' r),
     reg_EventID = as_text (column ''event_id'' r), reg_AttendeeName = as_text (column ''attendee_name'' r),
     reg_Email = as_text (column ''email'' r), reg_Phone = as_text (column ''phone'' r),
     reg_TicketType = as_text (column ''ticket_type'' r), reg_Status = as_text (column ''status'' r),
     reg_CreatedAt = as_time (column ''created_at'' r) \<rparr>"

definition row_payment :: "row \<Rightarrow> PaymentEvent" where
  "row_payment r = \<lparr> pe_ID = as_text (column ''id'' r), pe_JobID = as_text (column ''job_id'' r),
     pe_GatewayOrderID = as_text (column ''gateway_order_id'' r), pe_PaymentID = as_text (column ''payment_id'' r),
     pe_Status = as_text (column ''status'' r), pe_AmountCents = as_int (column ''amount_cents'' r),
     pe_Currency = as_text (column ''currency'' r), pe_ProcessedAt = as_time_ptr (column ''processed_at'' r),
     pe_CreatedAt = as_time (column ''created_at'' r) \<rparr>"

definition row_scan :: "row \<Rightarrow> QRScanEvent" where
  "row_scan r = \<lparr> qs_ID = as_text (column ''id'' r), qs_JobID = as_text (column ''job_id'' r),
     qs_QRCode = as_text (column ''qr_code'' r), qs_EventID = as_text (column ''event_id'' r),
     qs_GateID = as_text (column ''gate_id'' r), qs_ScannedBy = as_text (column ''scanned_by'' r),
     qs_CreatedAt = as_time (column ''created_at'' r) \<rparr>"

definition row_notification :: "row \<Rightarrow> NotificationEvent" where
  "row_notification r = \<lparr> ne_ID = as_text (column ''id'' r), ne_JobID = as_text (column ''job_id'' r),
     ne_Channel = as_text (column ''channel'' r), ne_Recipient = as_text (column ''recipient'' r),
     ne_Template = as_text (column ''template'' r), ne_Status = as_text (column ''status'' r),
     ne_Attempts = as_int (column ''attempts'' r), ne_SentAt = as_time_ptr (column ''sent_at'' r),
     ne_CreatedAt = as_time (column ''created_at'' r) \<rparr>"

definition row_audit :: "row \<Rightarrow> AuditLog" where
  "row_audit r = \<lparr> al_EntityType = as_text (column ''entity_type'' r), al_EntityID = as_text (column ''entity_id'' r),
     al_Action = as_text (column ''action'' r), al_Detail = as_text (column ''detail'' r),
     al_TraceID = as_text (column ''trace_id'' r), al_CreatedAt = as_time (column ''created_at'' r) \<rparr>"

definition by_text :: "string \<Rightarrow> row list \<Rightarrow> string \<Rightarrow> row option" where
  "by_text c rs k = find (\<lambda>r. r c = Some (SText k)) rs"

definition pg_tables :: "('p \<Rightarrow> string \<Rightarrow> row list) \<Rightarrow> 'p \<Rightarrow> tables" where
  "pg_tables ts d = \<lparr> t_jobs = (\<lambda>i. map_option row_job (by_text ''id'' (ts d ''jobs'') i)),
     t_atts = map row_attempt (ts d ''job_attempts''), t_regs = map row_registration (ts d ''registrations''),
     t_pays = (\<lambda>k. map_option row_payment (by_text ''gateway_order_id'' (ts d ''payment_events'') k)),
     t_scans = map row_scan (ts d ''qr_scan_events''), t_notes = map row_notification (ts d ''notification_events''),
     t_audits = map row_audit (ts d ''audit_logs'') \<rparr>"

text \<open>Facts about rows and searches.\<close>

lemma has_type_simps [simp]:
  "has_type CText True v \<longleftrightarrow> (\<exists>s. v = SText s)" "has_type CJsonb True v \<longleftrightarrow> (\<exists>s. v = SText s)"
  "has_type CInt True v \<longleftrightarrow> (\<exists>n. v = SInt n)" "has_type CBigint True v \<longleftrightarrow> (\<exists>n. v = SInt n)"
  "has_type CStamp True v \<longleftrightarrow> (\<exists>t. v = STime t)" "has_type CStamp False v \<longleftrightarrow> (\<exists>t. v = STime t) \<or> v = SNull"
  by (cases v; simp)+

lemma as_simps [simp]:
  "as_text (SText s) = s" "as_int (SInt n) = n" "as_time (STime t) = t" "as_time_ptr (STime t) = Some t"
  "as_time_ptr SNull = None" "as_time_ptr (stamp_arg o1) = o1"
  by (simp_all add: as_text_def as_int_def as_time_def as_time_ptr_def stamp_arg_def split: option.split)

lemma stamp_arg_simps [simp]:
  "accepts oktext okjson CStamp False (stamp_arg o1) \<longleftrightarrow> pred_option stamp_ok o1"
  "keeps np na CStamp (stamp_arg o1) = stamp_arg (map_option na o1)"
  by (cases o1; simp add: stamp_arg_def)+

lemma by_text_append:
  "by_text c (rs @ [x]) k = (case by_text c rs k of Some r \<Rightarrow> Some r | None \<Rightarrow> if x c = Some (SText k) then Some x else None)"
  unfolding by_text_def by (induction rs) auto

lemma by_text_map:
  assumes "\<And>r. f r c = r c"
  shows "by_text c (map f rs) k = map_option f (by_text c rs k)"
  unfolding by_text_def by (induction rs) (auto simp: assms)

lemma by_text_None: "by_text c rs k = None \<longleftrightarrow> (\<forall>r \<in> set rs. r c \<noteq> Some (SText k))"
  unfolding by_text_def by (auto simp: find_None_iff)

lemma by_text_SomeD: "by_text c rs k = Some r \<Longrightarrow> r \<in> set rs \<and> r c = Some (SText k)"
  unfolding by_text_def by (auto simp: find_Some_iff)

lemma by_text_filter:
  assumes "distinct (map (\<lambda>r. r c) rs)" "by_text c rs k = Some r"
  shows "filter (\<lambda>r. r c = Some (SText k)) rs = [r]"
  using assms
proof (induction rs)
  case (Cons x rs)
  show ?case
  proof (cases "x c = Some (SText k)")
    case True
    then have "r = x" "\<forall>y \<in> set rs. y c \<noteq> Some (SText k)" using Cons.prems by (auto simp: by_text_def) (metis imageI)
    with True show ?thesis by (simp add: filter_False)
  qed (use Cons in \<open>auto simp: by_text_def\<close>)
qed (simp add: by_text_def)

lemma by_text_in:
  assumes "distinct (map (\<lambda>r. r c) rs)" "r \<in> set rs" "r c = Some (SText k)"
  shows "by_text c rs k = Some r"
proof -
  have "by_text c rs k \<noteq> None" using assms(2,3) by (auto simp: by_text_None)
  then obtain r' where r': "by_text c rs k = Some r'" by blast
  have "r \<in> set (filter (\<lambda>r. r c = Some (SText k)) rs)" using assms(2,3) by simp
  then show ?thesis using by_text_filter [OF assms(1) r'] r' by simp
qed


section \<open>The contract holds\<close>

lemmas row_defs = row_job_def job_of_def row_attempt_def row_registration_def row_payment_def row_scan_def
  row_notification_def row_audit_def column_def

lemmas row_simps = stored_row_def schema_def row_defs

lemmas key_simps = no_clash_def unique_columns_def refers_def references_def pg_tables_def by_text_None list_all_iff

lemma row_ids:
  "r ''id'' = Some (SText i) \<Longrightarrow> reg_ID (row_registration r) = i"
  "r ''id'' = Some (SText i) \<Longrightarrow> qs_ID (row_scan r) = i"
  "r ''id'' = Some (SText i) \<Longrightarrow> ne_ID (row_notification r) = i"
  by (simp_all add: row_defs)

lemma fresh_key:
  assumes "k \<notin> f ` set (map g rs)" "\<And>r. r ''id'' = Some (SText k) \<Longrightarrow> f (g r) = k"
  shows "\<forall>r \<in> set rs. r ''id'' \<noteq> Some (SText k)"
  using assms by force

context pg_laws
begin

abbreviation "tbl \<equiv> pg_tables ts"
abbreviation "S \<equiv> PgStore_port P"

lemma job_row_by_id:
  assumes "t_jobs (tbl d) i = Some j"
  obtains r where "by_text ''id'' (ts d ''jobs'') i = Some r" "j = row_job r" "r \<in> set (ts d ''jobs'')"
    "r ''id'' = Some (SText i)"
  using assms by (auto simp: pg_tables_def dest: by_text_SomeD)

lemma tbl_rows:
  "t_regs (tbl d) = map row_registration (ts d ''registrations'')" "t_scans (tbl d) = map row_scan (ts d ''qr_scan_events'')"
  "t_notes (tbl d) = map row_notification (ts d ''notification_events'')"
  by (simp_all add: pg_tables_def)

text \<open>An insert that gives every column of a table.\<close>

lemma insert_all:
  assumes "up d" "parse_sql q = Some (Insert t (numbered t) None)"
    and "list_all2 (\<lambda>(c, ty, nn) v. accepts oktext okjson ty nn v) (schema t) args"
    and "no_clash (unique_columns t) (stored_row np na t args) (ts d t)" "refers (ts d) t (stored_row np na t args)"
  obtains d' where "pg_Exec P None q args d = (Inr 1, d')" "up d'" "ts d' = (ts d)(t := ts d t @ [stored_row np na t args])"
proof -
  have l: "length args = length (schema t)" using assms(3) by (simp add: list_all2_lengthD)
  have f: "fits oktext okjson t (numbered t) args" using assms(3) by (simp add: fits_numbered [OF l])
  from insert [OF assms(1,2) f numbered_simps(1) new_row_numbered [OF l, symmetric] assms(4,5)] that show thesis by blast
qed

lemma create_meets:
  assumes "up d" "okjob oktext okjson j" "t_jobs (tbl d) (job_ID j) = None"
  shows "\<exists>d'. Pg_Create P None j d = (None, d') \<and> up d' \<and>
    tbl d' = (tbl d)\<lparr>t_jobs := (t_jobs (tbl d))(job_ID j \<mapsto> stored_job np na j)\<rparr>"
proof -
  let ?args = "[SText (job_ID j), SText (job_JobType j), SText (job_Payload j), SText (job_Status j),
    SInt (job_RetryCount j), SInt (job_MaxRetries j), SText (job_Priority j), SText (job_IdempotencyKey j),
    SText (job_TraceID j), SText (job_ErrorMessage j), STime (job_CreatedAt j), STime (job_UpdatedAt j),
    stamp_arg (job_ProcessedAt j)]"
  let ?x = "stored_row np na ''jobs'' ?args"
  have x: "?x ''id'' = Some (SText (job_ID j))" "row_job ?x = stored_job np na j"
    by (simp_all add: row_simps stored_job_def)
  have "no_clash (unique_columns ''jobs'') ?x (ts d ''jobs'')" "refers (ts d) ''jobs'' ?x"
    using assms(3) x(1) by (auto simp: key_simps)
  from insert_all [OF assms(1) read_inserts(1) _ this] assms(2)
  obtain d' where d': "pg_Exec P None insert_job_sql ?args d = (Inr 1, d')" "up d'"
    "ts d' = (ts d)(''jobs'' := ts d ''jobs'' @ [?x])" by (auto simp: schema_def okjob_def int32_def)
  have "tbl d' = (tbl d)\<lparr>t_jobs := (t_jobs (tbl d))(job_ID j \<mapsto> stored_job np na j)\<rparr>"
    using assms(3) x by (auto simp: pg_tables_def d'(3) by_text_append fun_eq_iff split: option.split)
  with d' show ?thesis by (simp add: Pg_Create_def)
qed

lemma attempt_meets:
  assumes "up d" "t_jobs (tbl d) (att_JobID a) \<noteq> None" "okatt oktext a"
  shows "\<exists>d'. Pg_AddAttempt P None a d = (None, d') \<and> up d' \<and>
    tbl d' = (tbl d)\<lparr>t_atts := t_atts (tbl d) @ [a\<lparr>att_CreatedAt := na (att_CreatedAt a)\<rparr>]\<rparr>"
proof -
  let ?args = "[SText (att_JobID a), SInt (att_Attempt a), SText (att_Status a), SText (att_Error a),
    SInt (att_DurationMS a), STime (att_CreatedAt a)]"
  let ?x = "stored_row np na ''job_attempts'' ?args"
  have x: "?x ''job_id'' = Some (SText (att_JobID a))" "row_attempt ?x = a\<lparr>att_CreatedAt := na (att_CreatedAt a)\<rparr>"
    by (simp_all add: row_simps)
  have "no_clash (unique_columns ''job_attempts'') ?x (ts d ''job_attempts'')" "refers (ts d) ''job_attempts'' ?x"
    using assms(2) x(1) by (auto simp: key_simps list_ex_iff dest!: by_text_SomeD)
  from insert_all [OF assms(1) read_inserts(2) _ this] assms(3)
  obtain d' where d': "pg_Exec P None insert_attempt_sql ?args d = (Inr 1, d')" "up d'"
    "ts d' = (ts d)(''job_attempts'' := ts d ''job_attempts'' @ [?x])" by (auto simp: schema_def okatt_def)
  then show ?thesis by (simp add: Pg_AddAttempt_def pg_tables_def x(2))
qed

lemma registration_meets:
  assumes "up d" "reg_ID g \<notin> reg_ID ` set (t_regs (tbl d))"
    "list_all oktext [reg_ID g, reg_JobID g, reg_EventID g, reg_AttendeeName g, reg_Email g,
       reg_Phone g, reg_TicketType g, reg_Status g]" "stamp_ok (reg_CreatedAt g)"
  shows "\<exists>d'. Pg_CreateRegistration P None g d = (None, d') \<and> up d' \<and> tbl d' = (tbl d)\<lparr>t_regs := t_regs (tbl d) @ [g\<lparr>reg_CreatedAt := na (reg_CreatedAt g)\<rparr>]\<rparr>"
proof -
  let ?args = "[SText (reg_ID g), SText (reg_JobID g), SText (reg_EventID g), SText (reg_AttendeeName g), SText (reg_Email g), SText (reg_Phone g), SText (reg_TicketType g), SText (reg_Status g), STime (reg_CreatedAt g)]"
  let ?x = "stored_row np na ''registrations'' ?args"
  have x: "?x ''id'' = Some (SText (reg_ID g))" "row_registration ?x = g\<lparr>reg_CreatedAt := na (reg_CreatedAt g)\<rparr>"
    by (simp_all add: row_simps)
  have "no_clash (unique_columns ''registrations'') ?x (ts d ''registrations'')" "refers (ts d) ''registrations'' ?x"
    using fresh_key [OF assms(2) [unfolded tbl_rows] row_ids(1)] x(1) by (auto simp: key_simps)
  from insert_all [OF assms(1) read_inserts(3) _ this] assms(3-)
  obtain d' where d': "pg_Exec P None insert_registration_sql ?args d = (Inr 1, d')" "up d'"
    "ts d' = (ts d)(''registrations'' := ts d ''registrations'' @ [?x])" by (auto simp: schema_def)
  then show ?thesis by (simp add: Pg_CreateRegistration_def pg_tables_def x(2))
qed

lemma scan_meets:
  assumes "up d" "qs_ID e \<notin> qs_ID ` set (t_scans (tbl d))"
    "list_all oktext [qs_ID e, qs_JobID e, qs_QRCode e, qs_EventID e, qs_GateID e, qs_ScannedBy e]" "stamp_ok (qs_CreatedAt e)"
  shows "\<exists>d'. Pg_CreateQRScanEvent P None e d = (None, d') \<and> up d' \<and> tbl d' = (tbl d)\<lparr>t_scans := t_scans (tbl d) @ [e\<lparr>qs_CreatedAt := na (qs_CreatedAt e)\<rparr>]\<rparr>"
proof -
  let ?args = "[SText (qs_ID e), SText (qs_JobID e), SText (qs_QRCode e), SText (qs_EventID e), SText (qs_GateID e), SText (qs_ScannedBy e), STime (qs_CreatedAt e)]"
  let ?x = "stored_row np na ''qr_scan_events'' ?args"
  have x: "?x ''id'' = Some (SText (qs_ID e))" "row_scan ?x = e\<lparr>qs_CreatedAt := na (qs_CreatedAt e)\<rparr>"
    by (simp_all add: row_simps)
  have "no_clash (unique_columns ''qr_scan_events'') ?x (ts d ''qr_scan_events'')" "refers (ts d) ''qr_scan_events'' ?x"
    using fresh_key [OF assms(2) [unfolded tbl_rows] row_ids(2)] x(1) by (auto simp: key_simps)
  from insert_all [OF assms(1) read_inserts(4) _ this] assms(3-)
  obtain d' where d': "pg_Exec P None insert_scan_sql ?args d = (Inr 1, d')" "up d'"
    "ts d' = (ts d)(''qr_scan_events'' := ts d ''qr_scan_events'' @ [?x])" by (auto simp: schema_def)
  then show ?thesis by (simp add: Pg_CreateQRScanEvent_def pg_tables_def x(2))
qed

lemma notification_meets:
  assumes "up d" "ne_ID n \<notin> ne_ID ` set (t_notes (tbl d))"
    "list_all oktext [ne_ID n, ne_JobID n, ne_Channel n, ne_Recipient n, ne_Template n, ne_Status n]"
    "int32 (ne_Attempts n)" "pred_option stamp_ok (ne_SentAt n)" "stamp_ok (ne_CreatedAt n)"
  shows "\<exists>d'. Pg_CreateNotificationEvent P None n d = (None, d') \<and> up d' \<and> tbl d' = (tbl d)\<lparr>t_notes := t_notes (tbl d) @ [n\<lparr>ne_SentAt := map_option na (ne_SentAt n), ne_CreatedAt := na (ne_CreatedAt n)\<rparr>]\<rparr>"
proof -
  let ?args = "[SText (ne_ID n), SText (ne_JobID n), SText (ne_Channel n), SText (ne_Recipient n), SText (ne_Template n), SText (ne_Status n), SInt (ne_Attempts n), stamp_arg (ne_SentAt n), STime (ne_CreatedAt n)]"
  let ?x = "stored_row np na ''notification_events'' ?args"
  have x: "?x ''id'' = Some (SText (ne_ID n))" "row_notification ?x = n\<lparr>ne_SentAt := map_option na (ne_SentAt n), ne_CreatedAt := na (ne_CreatedAt n)\<rparr>"
    by (simp_all add: row_simps)
  have "no_clash (unique_columns ''notification_events'') ?x (ts d ''notification_events'')" "refers (ts d) ''notification_events'' ?x"
    using fresh_key [OF assms(2) [unfolded tbl_rows] row_ids(3)] x(1) by (auto simp: key_simps)
  from insert_all [OF assms(1) read_inserts(5) _ this] assms(3-)
  obtain d' where d': "pg_Exec P None insert_notification_sql ?args d = (Inr 1, d')" "up d'"
    "ts d' = (ts d)(''notification_events'' := ts d ''notification_events'' @ [?x])" by (auto simp: schema_def)
  then show ?thesis by (simp add: Pg_CreateNotificationEvent_def pg_tables_def x(2))
qed

lemma audit_meets:
  assumes "up d" "okjson (al_Detail l)"
    "list_all oktext [al_EntityType l, al_EntityID l, al_Action l, al_TraceID l]" "stamp_ok (al_CreatedAt l)"
  shows "\<exists>d' l'. Pg_CreateAuditLog P None l d = (None, d') \<and> up d' \<and> same_audit l' l \<and>
    tbl d' = (tbl d)\<lparr>t_audits := t_audits (tbl d) @ [l']\<rparr>"
proof -
  let ?args = "[SText (al_EntityType l), SText (al_EntityID l), SText (al_Action l), SText (al_Detail l),
    SText (al_TraceID l), STime (al_CreatedAt l)]"
  let ?x = "stored_row np na ''audit_logs'' ?args"
  have x: "same_audit (row_audit ?x) l" by (simp add: row_simps same_audit_def)
  have "no_clash (unique_columns ''audit_logs'') ?x (ts d ''audit_logs'')" "refers (ts d) ''audit_logs'' ?x"
    by (auto simp: key_simps)
  from insert_all [OF assms(1) read_inserts(6) _ this] assms(2-4)
  obtain d' where d': "pg_Exec P None insert_audit_sql ?args d = (Inr 1, d')" "up d'"
    "ts d' = (ts d)(''audit_logs'' := ts d ''audit_logs'' @ [?x])" by (auto simp: schema_def)
  moreover have "al_Detail l \<noteq> []" using assms(2) empty_json by auto
  ultimately show ?thesis using x by (simp add: Pg_CreateAuditLog_def pg_tables_def)
qed

text \<open>An update replaces the columns a worker changes and leaves the rest of the row.\<close>

lemma update_step:
  assumes "up d" "okjob oktext okjson j"
  obtains d' and n :: int where "Pg_Update P None j d = (if n = 0 then Some (Sentinel ErrNotFound) else None, d')" "up d'"
    "n = 0 \<longleftrightarrow> t_jobs (tbl d) (job_ID j) = None" "n = 0 \<longrightarrow> d' = d"
    "\<And>j0. t_jobs (tbl d) (job_ID j) = Some j0 \<Longrightarrow> same_row (stored_job np na j) j0 \<Longrightarrow>
      tbl d' = (tbl d)\<lparr>t_jobs := (t_jobs (tbl d))(job_ID j \<mapsto> stored_job np na j)\<rparr>"
proof -
  let ?args = "[SText (job_ID j), SText (job_Status j), SInt (job_RetryCount j), SText (job_ErrorMessage j),
    STime (job_UpdatedAt j), stamp_arg (job_ProcessedAt j)]"
  let ?as = "[(''status'', 2), (''retry_count'', 3), (''error_message'', 4), (''updated_at'', 5), (''processed_at'', 6)]"
  define y where "y = new_row np na ''jobs'' ?as ?args"
  define hit where "hit r \<longleftrightarrow> r ''id'' = Some (SText (job_ID j))" for r :: row
  have m: "matches [(''id'', 1)] ?args = hit" by (simp add: matches_def hit_def arg_def fun_eq_iff)
  have f: "fits oktext okjson ''jobs'' ((''id'', 1) # ?as) ?args"
    using assms(2) by (simp add: fits_def schema_def arg_def okjob_def int32_def)
  have y: "y = [''processed_at'' \<mapsto> stamp_arg (map_option na (job_ProcessedAt j)), ''updated_at'' \<mapsto> STime (na (job_UpdatedAt j)),
      ''error_message'' \<mapsto> SText (job_ErrorMessage j), ''retry_count'' \<mapsto> SInt (job_RetryCount j),
      ''status'' \<mapsto> SText (job_Status j)]"
    by (simp add: y_def new_row_def schema_def arg_def)
  have disj: "distinct (map fst ?as)" "set (map fst ?as) \<inter> (set (unique_columns ''jobs'') \<union> fst ` set (references ''jobs'')) = {}"
    by (simp_all add: unique_columns_def references_def)
  define n where "n = int (length (filter hit (ts d ''jobs'')))"
  from update [OF assms(1) read_update f disj] obtain d' where
    d': "pg_Exec P None update_job_sql ?args d = (Inr n, d')" "up d'"
    "ts d' = (ts d)(''jobs'' := map (\<lambda>r. if hit r then r ++ y else r) (ts d ''jobs''))" "n = 0 \<longrightarrow> d' = d"
    unfolding m y_def [symmetric] n_def [symmetric] by (simp add: n_def) blast
  have n: "n = 0 \<longleftrightarrow> t_jobs (tbl d) (job_ID j) = None"
    by (simp add: n_def pg_tables_def by_text_None hit_def filter_empty_conv)
  have keep: "(if hit r then r ++ y else r) ''id'' = r ''id''" for r by (simp add: y map_add_def)
  have t: "tbl d' = (tbl d)\<lparr>t_jobs := (t_jobs (tbl d))(job_ID j \<mapsto> stored_job np na j)\<rparr>"
    if j0: "t_jobs (tbl d) (job_ID j) = Some j0" "same_row (stored_job np na j) j0" for j0
  proof -
    have other: "map_option (\<lambda>r. if hit r then r ++ y else r) (by_text ''id'' rs i) = by_text ''id'' rs i"
      if "i \<noteq> job_ID j" for rs i
      using that by (cases "by_text ''id'' rs i") (auto simp: hit_def dest: by_text_SomeD)
    obtain r where r: "by_text ''id'' (ts d ''jobs'') (job_ID j) = Some r" "j0 = row_job r" "hit r"
      using job_row_by_id [OF j0(1)] by (auto simp: hit_def)
    have "row_job (r ++ y) = stored_job np na j"
      using j0(2) unfolding r(2) by (simp add: y row_defs schema_def same_row_def stored_job_def map_add_def)
    with r show ?thesis
      by (auto simp: pg_tables_def d'(3) by_text_map [where f = "\<lambda>r. if hit r then r ++ y else r" and c = "''id''", OF keep] fun_eq_iff other)
  qed
  have upd: "Pg_Update P None j d = (if n = 0 then Some (Sentinel ErrNotFound) else None, d')"
    using d'(1) by (simp add: Pg_Update_def)
  show thesis by (rule that [OF upd d'(2) n d'(4)]) (rule t)
qed

lemma scans_job:
  assumes "typed_row ''jobs'' r"
  shows "scanJob P (Inr (map (\<lambda>c. column c r) (map fst (schema ''jobs'')))) = Inr (row_job r)"
proof -
  have "list_all2 scans job_dests (map (\<lambda>c. column c r) (map fst (schema ''jobs'')))"
    using assms by (auto simp: typed_row_def schema_def job_dests_def column_def)
  then show ?thesis by (simp add: scanJob_def scan row_job_def)
qed

lemma get_meets:
  assumes "up d" "oktext i"
  shows "Pg_GetByID P None i d = (case t_jobs (tbl d) i of None \<Rightarrow> Inl (Sentinel ErrNotFound) | Some j \<Rightarrow> Inr j, d)"
proof -
  let ?rs = "filter (\<lambda>r. r ''id'' = Some (SText i)) (ts d ''jobs'')"
  have m: "matches [(''id'', 1)] [SText i] = (\<lambda>r. r ''id'' = Some (SText i))" by (simp add: matches_def arg_def fun_eq_iff)
  have "fits oktext okjson ''jobs'' [(''id'', 1)] [SText i]" using assms(2) by (simp add: fits_def schema_def arg_def)
  from select_row [OF assms(1) read_get this] obtain sel where
    sel: "mset sel = mset ?rs" "pg_QueryRow P None get_job_sql [SText i] d =
      (case sel of [] \<Rightarrow> Inl (Sentinel pgx_ErrNoRows) | r # _ \<Rightarrow> Inr (map (\<lambda>c. column c r) (map fst (schema ''jobs''))), d)"
    unfolding m by auto
  show ?thesis
  proof (cases "by_text ''id'' (ts d ''jobs'') i")
    case None
    then have "sel = []" using sel(1) by (simp add: by_text_None filter_empty_conv)
    then show ?thesis using sel(2) None by (simp add: Pg_GetByID_def scanJob_def pg_tables_def)
  next
    case (Some r)
    have "?rs = [r]" by (rule by_text_filter [OF unique [OF assms(1)] Some]) (simp add: unique_columns_def)
    then have "sel = [r]" using sel(1) by simp
    moreover have "typed_row ''jobs'' r" using typed [OF assms(1)] by_text_SomeD [OF Some] by blast
    ultimately show ?thesis using sel(2) Some scans_job by (simp add: Pg_GetByID_def pg_tables_def)
  qed
qed

text \<open>A payment event updates the row of its order, or adds one.\<close>

lemma payment_meets:
  assumes "up d" "okpay oktext p" "fresh_payment (tbl d) p"
  shows "\<exists>d' e. Pg_UpsertPaymentEvent P None p d = (None, d') \<and> up d' \<and> same_payment e p \<and> payment_id (tbl d) p e \<and>
    tbl d' = (tbl d)\<lparr>t_pays := (t_pays (tbl d))(pe_GatewayOrderID p \<mapsto> e)\<rparr>"
proof -
  let ?t = "''payment_events''" and ?k = "''gateway_order_id''"
  let ?cs = "[''payment_id'', ''status'', ''amount_cents'', ''currency'', ''processed_at'']"
  let ?args = "[SText (pe_ID p), SText (pe_JobID p), SText (pe_GatewayOrderID p), SText (pe_PaymentID p), SText (pe_Status p),
    SInt (pe_AmountCents p), SText (pe_Currency p), stamp_arg (pe_ProcessedAt p), STime (pe_CreatedAt p)]"
  define x where "x = stored_row np na ?t ?args"
  define hit where "hit r \<longleftrightarrow> r ?k = Some (SText (pe_GatewayOrderID p))" for r :: row
  define y where "y = x |` set ?cs"
  define rs' where "rs' = (if list_all (\<lambda>r. \<not> hit r) (ts d ?t) then ts d ?t @ [x]
    else map (\<lambda>r. if hit r then r ++ y else r) (ts d ?t))"
  have xs: "x = map_of [(''id'', SText (pe_ID p)), (''job_id'', SText (pe_JobID p)), (?k, SText (pe_GatewayOrderID p)),
      (''payment_id'', SText (pe_PaymentID p)), (''status'', SText (pe_Status p)), (''amount_cents'', SInt (pe_AmountCents p)),
      (''currency'', SText (pe_Currency p)), (''processed_at'', stamp_arg (map_option na (pe_ProcessedAt p))),
      (''created_at'', STime (na (pe_CreatedAt p)))]"
    by (simp add: x_def stored_row_def schema_def)
  have xk: "x ?k = Some (SText (pe_GatewayOrderID p))" "x ''id'' = Some (SText (pe_ID p))" by (simp_all add: xs)
  have len: "length ?args = length (schema ?t)" by (simp add: schema_def)
  have f: "fits oktext okjson ?t (numbered ?t) ?args"
    using assms(2) by (simp add: fits_numbered [OF len] schema_def okpay_def)
  have uniq: "distinct (map (\<lambda>r. r ?k) (ts d ?t))" by (rule unique [OF assms(1)]) (simp add: unique_columns_def)
  have other: "r ''id'' \<noteq> x ''id''" if r: "r \<in> set (ts d ?t)" "\<not> hit r" for r
  proof
    assume i: "r ''id'' = x ''id''"
    obtain k where k: "r ?k = Some (SText k)" using typed [OF assms(1) r(1)] by (auto simp: typed_row_def schema_def)
    have "t_pays (tbl d) k = Some (row_payment r)" using by_text_in [OF uniq r(1) k] by (simp add: pg_tables_def)
    moreover have "pe_ID (row_payment r) = pe_ID p" using i by (simp add: xk row_defs)
    ultimately have "k = pe_GatewayOrderID p" using assms(3) by (auto simp: fresh_payment_def)
    with k r(2) show False by (simp add: hit_def)
  qed
  have clash: "no_clash (unique_columns ?t) x (filter (\<lambda>r. r ?k \<noteq> x ?k) (ts d ?t))"
    using other by (auto simp: no_clash_def unique_columns_def list_all_iff xk hit_def)
  have kcs: "?k \<in> set (unique_columns ?t)" "references ?t = []" "set ?cs \<subseteq> set (map fst (schema ?t)) - set (unique_columns ?t)"
    by (simp_all add: unique_columns_def references_def schema_def)
  have new: "x = new_row np na ?t (numbered ?t) ?args" by (simp only: x_def new_row_numbered [OF len])
  have hits: "(r ?k = x ?k) = hit r" for r by (simp add: hit_def xk)
  from upsert [OF assms(1) read_upsert f numbered_simps(1) new kcs(1) clash kcs(2,3), unfolded hits, folded y_def rs'_def]
  obtain d' where d': "pg_Exec P None upsert_payment_sql ?args d = (Inr 1, d')" "up d'" "ts d' = (ts d)(?t := rs')"
    by blast
  show ?thesis
  proof (cases "by_text ?k (ts d ?t) (pe_GatewayOrderID p)")
    case None
    then have "ts d' = (ts d)(?t := ts d ?t @ [x])" using d'(3) by (simp add: rs'_def by_text_None hit_def list_all_iff)
    then have "tbl d' = (tbl d)\<lparr>t_pays := (t_pays (tbl d))(pe_GatewayOrderID p \<mapsto> row_payment x)\<rparr>"
      using None by (auto simp: pg_tables_def by_text_append xk fun_eq_iff split: option.split)
    moreover have "same_payment (row_payment x) p" "payment_id (tbl d) p (row_payment x)"
      by (simp_all add: same_payment_def payment_id_def row_defs xs)
    ultimately show ?thesis using d'(1,2) by (auto simp: Pg_UpsertPaymentEvent_def)
  next
    case (Some r)
    then have r: "r \<in> set (ts d ?t)" "hit r" using by_text_SomeD by (auto simp: hit_def)
    have keep: "(if hit r then r ++ y else r) ?k = r ?k" for r by (simp add: y_def xs map_add_def restrict_map_def)
    have miss: "map_option (\<lambda>r. if hit r then r ++ y else r) (by_text ?k rs i) = by_text ?k rs i"
      if "i \<noteq> pe_GatewayOrderID p" for rs i
      using that by (cases "by_text ?k rs i") (auto simp: hit_def dest: by_text_SomeD)
    have "ts d' = (ts d)(?t := map (\<lambda>r. if hit r then r ++ y else r) (ts d ?t))"
      using d'(3) r by (auto simp: rs'_def list_all_iff)
    then have "tbl d' = (tbl d)\<lparr>t_pays := (t_pays (tbl d))(pe_GatewayOrderID p \<mapsto> row_payment (r ++ y))\<rparr>"
      using Some r(2) miss
      by (auto simp: pg_tables_def by_text_map [where f = "\<lambda>r. if hit r then r ++ y else r" and c = ?k, OF keep] fun_eq_iff)
    moreover have "same_payment (row_payment (r ++ y)) p" "payment_id (tbl d) p (row_payment (r ++ y))"
      using r(2) Some by (simp_all add: same_payment_def payment_id_def row_defs xs y_def hit_def pg_tables_def map_add_def restrict_map_def)
    ultimately show ?thesis using d'(1,2) by (auto simp: Pg_UpsertPaymentEvent_def)
  qed
qed

end

text \<open>The contract of the services and workers, from the laws of the driver.\<close>

sublocale pg_laws \<subseteq> pg: event_contract "PgStore_port P" "pg_tables ts" up oktext okjson np na
proof (unfold_locales, goal_cases)
  case (1 d j) then show ?case using create_meets by (fastforce simp: PgStore_port_def)
next
  case (2 d j) then show ?case using create_meets by (fastforce simp: PgStore_port_def)
next
  case (3 d j) then show ?case using create_meets by (fastforce simp: PgStore_port_def)
next
  case (4 d j j0) then show ?case by (rule_tac update_step [of d j]) (auto simp: PgStore_port_def)
next
  case (5 d j j0) then show ?case by (rule_tac update_step [of d j]) (auto simp: PgStore_port_def)
next
  case (6 d j j0) then show ?case by (rule_tac update_step [of d j]) (auto simp: PgStore_port_def)
next
  case (7 d j) then show ?case by (rule_tac update_step [of d j]) (auto simp: PgStore_port_def)
next
  case (8 d i) then show ?case using get_meets by (simp add: PgStore_port_def)
next
  case (9 d i) then show ?case using get_meets by (simp add: PgStore_port_def)
next
  case (10 d a) then show ?case using attempt_meets by (fastforce simp: PgStore_port_def)
next
  case (11 d a) then show ?case using attempt_meets by (fastforce simp: PgStore_port_def)
next
  case (12 d a) then show ?case using attempt_meets by (fastforce simp: PgStore_port_def)
next
  case (13 d p) then show ?case using payment_meets by (fastforce simp: PgStore_port_def)
next
  case (14 d e) then show ?case using scan_meets [of d e] by (auto simp: PgStore_port_def)
next
  case (15 d g) then show ?case using registration_meets [of d g] by (auto simp: PgStore_port_def)
next
  case (16 d n) then show ?case using notification_meets [of d n] by (auto simp: PgStore_port_def)
next
  case (17 d l) then show ?case using audit_meets [of d l] by (auto simp: PgStore_port_def)
qed


section \<open>Listing and counting\<close>

lemma list_sql_shape: "list_sql f = list_sql \<lparr> jf_Status = (if jf_Status f = '''' then '''' else ''x''),
    jf_JobType = (if jf_JobType f = '''' then '''' else ''x''), jf_Limit = 0, jf_Offset = 0 \<rparr>"
  by (simp add: list_sql_def filter_conds_def)

definition filter_where :: "JobFilter \<Rightarrow> (string \<times> nat) list" where
  "filter_where f = (if jf_Status f \<noteq> '''' then [(''status'', 1)] else []) @
     (if jf_JobType f \<noteq> '''' then [(''job_type'', if jf_Status f \<noteq> '''' then 2 else 1)] else [])"

lemma read_list:
  "parse_sql (list_sql f) = Some (Select (map fst (schema ''jobs'')) ''jobs'' (filter_where f)
     (Some (''created_at'', Suc (length (filter_where f)), Suc (Suc (length (filter_where f))))))"
proof -
  have shapes: "parse_sql (list_sql \<lparr> jf_Status = s, jf_JobType = t, jf_Limit = 0, jf_Offset = 0 \<rparr>) =
      Some (Select (map fst (schema ''jobs'')) ''jobs'' (filter_where \<lparr> jf_Status = s, jf_JobType = t, jf_Limit = 0, jf_Offset = 0 \<rparr>)
        (Some (''created_at'', n + 1, n + 2)))"
    if "(s, t, n) \<in> {('''', '''', 0), ('''', ''x'', 1), (''x'', '''', 1), (''x'', ''x'', 2)}" for s t n
  proof -
    have "(s = '''' \<and> t = '''' \<and> n = 0) \<or> (s = '''' \<and> t = ''x'' \<and> n = 1) \<or> (s = ''x'' \<and> t = '''' \<and> n = 1) \<or>
        (s = ''x'' \<and> t = ''x'' \<and> n = 2)" using that by auto
    then show ?thesis by (elim disjE conjE; hypsubst; code_simp)
  qed
  show ?thesis
    by (subst list_sql_shape, cases "jf_Status f = ''''"; cases "jf_JobType f = ''''")
      (simp_all add: shapes [of "''''" "''''" 0] shapes [of "''''" "''x''" 1] shapes [of "''x''" "''''" 1]
        shapes [of "''x''" "''x''" 2] filter_where_def)
qed

context pg_laws
begin

lemma job_ids_unique: "up d \<Longrightarrow> distinct (map (\<lambda>r. r ''id'') (ts d ''jobs''))"
  by (rule unique) (simp_all add: unique_columns_def)

lemma typed_job:
  assumes "up d" "r \<in> set (ts d ''jobs'')"
  shows "r ''id'' = Some (SText (job_ID (row_job r)))" "r ''status'' = Some (SText (job_Status (row_job r)))"
    "r ''job_type'' = Some (SText (job_JobType (row_job r)))"
    "stamp_of ''created_at'' r = job_CreatedAt (row_job r)" "stamp_of ''updated_at'' r = job_UpdatedAt (row_job r)"
  using typed [OF assms] by (auto simp: typed_row_def schema_def row_defs stamp_of_def)

lemma job_rows:
  assumes "up d"
  shows "ran (t_jobs (tbl d)) = row_job ` set (ts d ''jobs'')"
proof -
  have "row_job r \<in> ran (t_jobs (tbl d))" if "r \<in> set (ts d ''jobs'')" for r
    using by_text_in [OF job_ids_unique [OF assms] that typed_job(1) [OF assms that]]
    by (auto simp: pg_tables_def ran_def)
  then show ?thesis by (auto simp: ran_def elim!: job_row_by_id)
qed

lemma selected_jobs:
  assumes "up d" "mset sel = mset (filter p (ts d ''jobs''))" "ordered_by k sel"
    and "\<And>r. r \<in> set (ts d ''jobs'') \<Longrightarrow> p r = q (row_job r)"
    and "\<And>r. r \<in> set (ts d ''jobs'') \<Longrightarrow> stamp_of k r = at (row_job r)"
  shows "lists_jobs (tbl d) q at (map row_job sel)"
proof -
  have s: "set sel = {r \<in> set (ts d ''jobs''). p r}" using assms(2) by (metis mset_eq_setD set_filter)
  have "distinct (map (\<lambda>r. r ''id'') (filter p (ts d ''jobs'')))"
    by (rule distinct_map_filter) (rule job_ids_unique [OF assms(1)])
  then have "distinct (map (\<lambda>r. r ''id'') sel)"
    using assms(2) by (metis mset_eq_imp_distinct_iff mset_map)
  moreover have "map (\<lambda>r. r ''id'') sel = map (Some \<circ> SText) (map job_ID (map row_job sel))"
    using typed_job(1) [OF assms(1)] s by simp
  ultimately have "distinct (map job_ID (map row_job sel))" by (metis distinct_map)
  moreover have "sorted_wrt (\<lambda>a b. at b \<le> at a) (map row_job sel)"
    using assms(3) s assms(5) by (auto simp: ordered_by_def sorted_wrt_map elim!: sorted_wrt_mono_rel [rotated])
  ultimately show ?thesis using s assms(4) by (auto simp: lists_jobs_def job_rows [OF assms(1)])
qed

lemma scan_rows:
  assumes "\<forall>r \<in> set rs. typed_row ''jobs'' r"
  shows "scan_jobs P (map (\<lambda>r. map (\<lambda>c. column c r) (map fst (schema ''jobs''))) rs) = Inr (map row_job rs)"
  using assms by (induction rs) (auto simp: scans_job simp del: map_map)

lemma query_meets:
  assumes "up d" "parse_sql q = Some (Select (map fst (schema ''jobs'')) ''jobs'' as (Some (k, l, f)))"
    and "fits oktext okjson ''jobs'' as args" "k \<in> {''created_at'', ''updated_at''}"
    and "arg args l = SInt limit" "arg args f = SInt offset" "0 \<le> limit" "int64 limit" "0 \<le> offset" "int64 offset"
  obtains sel where "mset sel = mset (filter (matches as args) (ts d ''jobs''))" "ordered_by k sel"
    "queryJobs P None q args d = (Inr (result_page limit offset (map row_job sel)), d)"
proof -
  have "map_of (schema ''jobs'') k = Some (CStamp, True)" using assms(4) by (auto simp: schema_def)
  from select_page [OF assms(1-3) subset_refl this assms(5,6,8,10,7,9)] obtain sel where
    sel: "mset sel = mset (filter (matches as args) (ts d ''jobs''))" "ordered_by k sel" "pg_Query P None q args d =
      (Inr (map (\<lambda>r. map (\<lambda>c. column c r) (map fst (schema ''jobs''))) (result_page limit offset sel), None), d)" by blast
  have "set sel \<subseteq> set (ts d ''jobs'')" using sel(1) by (metis filter_is_subset mset_eq_setD)
  then have "set (result_page limit offset sel) \<subseteq> set (ts d ''jobs'')" by (rule subset_trans [OF result_page_subset])
  then have "\<forall>r \<in> set (result_page limit offset sel). typed_row ''jobs'' r"
    by (auto intro: typed [OF assms(1)])
  then have "queryJobs P None q args d = (Inr (result_page limit offset (map row_job sel)), d)"
    using sel(3) by (simp add: queryJobs_def scan_rows result_page_map del: map_map)
  with sel(1,2) that show thesis by blast
qed

lemma page_limit_range: "0 \<le> page_limit l" "int64 (page_limit l)"
  by (simp_all add: page_limit_def int64_def)

lemma list_meets:
  assumes "up d" "oktext (jf_Status f)" "oktext (jf_JobType f)" "0 \<le> jf_Offset f" "int64 (jf_Offset f)"
  shows "\<exists>js. Pg_List P None f d = (Inr (result_page (page_limit (jf_Limit f)) (jf_Offset f) js), d) \<and>
    lists_jobs (tbl d) (selected f) job_CreatedAt js"
proof -
  let ?args = "fst (snd (filter_conds f)) @ [SInt (page_limit (jf_Limit f)), SInt (jf_Offset f)]"
  let ?n = "length (filter_where f)"
  have fit: "fits oktext okjson ''jobs'' (filter_where f) ?args"
    using assms(2,3) by (auto simp: fits_def filter_where_def filter_conds_def schema_def arg_def)
  have lo: "arg ?args (Suc ?n) = SInt (page_limit (jf_Limit f))" "arg ?args (Suc (Suc ?n)) = SInt (jf_Offset f)"
    by (auto simp: filter_where_def filter_conds_def arg_def)
  from query_meets [OF assms(1) read_list fit _ lo page_limit_range assms(4,5)] obtain sel where
    sel: "mset sel = mset (filter (matches (filter_where f) ?args) (ts d ''jobs''))" "ordered_by ''created_at'' sel"
    "queryJobs P None (list_sql f) ?args d =
      (Inr (result_page (page_limit (jf_Limit f)) (jf_Offset f) (map row_job sel)), d)" by auto
  have "matches (filter_where f) ?args r = selected f (row_job r)" if "r \<in> set (ts d ''jobs'')" for r
    using typed_job(2,3) [OF assms(1) that]
    by (auto simp: matches_def filter_where_def filter_conds_def selected_def arg_def)
  from selected_jobs [OF assms(1) sel(1,2) this typed_job(4) [OF assms(1)]]
  show ?thesis using sel(3) unfolding Pg_List_def by blast
qed

lemma list_dead_meets:
  assumes "up d" "oktext JobStatusDeadLetter" "0 \<le> offset" "int64 offset"
  shows "\<exists>js. Pg_ListDeadLetter P None limit offset d = (Inr (result_page (page_limit limit) offset js), d) \<and>
    lists_jobs (tbl d) (\<lambda>j. job_Status j = JobStatusDeadLetter) job_UpdatedAt js"
proof -
  let ?args = "[SText JobStatusDeadLetter, SInt (page_limit limit), SInt offset]"
  have fit: "fits oktext okjson ''jobs'' [(''status'', 1)] ?args" using assms(2) by (simp add: fits_def schema_def arg_def)
  have lo: "arg ?args 2 = SInt (page_limit limit)" "arg ?args 3 = SInt offset" by (simp_all add: arg_def)
  from query_meets [OF assms(1) read_list_dead fit _ lo page_limit_range assms(3,4)] obtain sel where
    sel: "mset sel = mset (filter (matches [(''status'', 1)] ?args) (ts d ''jobs''))" "ordered_by ''updated_at'' sel"
    "queryJobs P None list_dead_sql ?args d = (Inr (result_page (page_limit limit) offset (map row_job sel)), d)" by auto
  have "matches [(''status'', 1)] ?args r = (job_Status (row_job r) = JobStatusDeadLetter)" if "r \<in> set (ts d ''jobs'')" for r
    using typed_job(2) [OF assms(1) that] by (auto simp: matches_def arg_def)
  from selected_jobs [OF assms(1) sel(1,2) this typed_job(5) [OF assms(1)]]
  show ?thesis using sel(3) unfolding Pg_ListDeadLetter_def by blast
qed

lemma negative_offset_error:
  assumes "up d" "jf_Offset f < 0"
  shows "\<exists>e. Pg_List P None f d = (Inl e, d)"
proof -
  let ?args = "fst (snd (filter_conds f)) @ [SInt (page_limit (jf_Limit f)), SInt (jf_Offset f)]"
  have "arg ?args (Suc (Suc (length (filter_where f)))) = SInt (jf_Offset f)"
    by (auto simp: filter_where_def filter_conds_def arg_def)
  from negative_offset [OF assms(1) read_list this assms(2)] show ?thesis by (auto simp: Pg_List_def queryJobs_def)
qed

text \<open>The counts of a column of names.\<close>

lemma scan_counts_rows:
  "scan_counts P out (map (\<lambda>s. [SText s, SInt (n s)]) ss) = Inr (fold (\<lambda>s. AList.update s (n s)) ss out)"
  by (induction ss arbitrary: out) (simp_all add: scan)

lemma jobs_dom_finite: "finite (dom (t_jobs (tbl d)))"
proof (rule finite_subset)
  show "dom (t_jobs (tbl d)) \<subseteq> (\<lambda>r. as_text (column ''id'' r)) ` set (ts d ''jobs'')"
  proof
    fix i assume "i \<in> dom (t_jobs (tbl d))"
    then obtain j where "t_jobs (tbl d) i = Some j" by blast
    then obtain r where "r \<in> set (ts d ''jobs'')" "r ''id'' = Some (SText i)" by (rule job_row_by_id)
    then show "i \<in> (\<lambda>r. as_text (column ''id'' r)) ` set (ts d ''jobs'')"
      by (intro image_eqI [of _ _ r]) (simp_all add: column_def)
  qed
qed simp

lemma finite_with_field: "finite (with_field (tbl d) g k)"
  by (rule finite_subset [OF _ jobs_dom_finite [of d]]) (auto simp: with_field_def)

lemma jobs_counted:
  assumes "up d"
  shows "length (filter (\<lambda>r. g (row_job r) = k) (ts d ''jobs'')) = card (with_field (tbl d) g k)"
proof -
  let ?rows = "ts d ''jobs''" and ?id = "\<lambda>r. job_ID (row_job r)"
  let ?F = "{r \<in> set ?rows. g (row_job r) = k}"
  have u: "distinct ?rows" "inj_on (\<lambda>r. r ''id'') (set ?rows)" using job_ids_unique [OF assms] by (auto simp: distinct_map)
  have inj: "inj_on ?id ?F"
  proof (rule inj_onI)
    fix x y assume x: "x \<in> ?F" "y \<in> ?F" "?id x = ?id y"
    then have "x ''id'' = y ''id''" using typed_job(1) [OF assms, of x] typed_job(1) [OF assms, of y] by simp
    then show "x = y" using inj_onD [OF u(2)] x(1,2) by blast
  qed
  have "length (filter (\<lambda>r. g (row_job r) = k) ?rows) = card ?F" using u(1) by (simp add: distinct_card [symmetric])
  also have "\<dots> = card (?id ` ?F)" by (simp add: card_image [OF inj])
  also have "?id ` ?F = with_field (tbl d) g k"
  proof (intro set_eqI iffI)
    fix i assume "i \<in> ?id ` ?F"
    then obtain r where r: "r \<in> set ?rows" "g (row_job r) = k" "i = ?id r" by blast
    then show "i \<in> with_field (tbl d) g k"
      using by_text_in [OF job_ids_unique [OF assms] r(1) typed_job(1) [OF assms r(1)]]
      by (simp add: pg_tables_def with_field_def)
  next
    fix i assume "i \<in> with_field (tbl d) g k"
    then obtain j where j: "t_jobs (tbl d) i = Some j" "g j = k" by (auto simp: with_field_def)
    from j(1) obtain r where "r \<in> set ?rows" "j = row_job r" "r ''id'' = Some (SText i)" by (rule job_row_by_id)
    then show "i \<in> ?id ` ?F" using j(2) typed_job(1) [OF assms, of r] by auto
  qed
  finally show ?thesis .
qed

lemma fold_update:
  fixes n :: "string \<Rightarrow> int"
  shows "map_of (fold (\<lambda>s. AList.update s (n s)) ss out) k = (if k \<in> set ss then Some (n k) else map_of out k)"
    "distinct (map fst out) \<Longrightarrow> distinct (map fst (fold (\<lambda>s. AList.update s (n s)) ss out))"
  by (induction ss arbitrary: out) (auto simp: update_conv' distinct_update)

lemma counts_meet:
  assumes "up d" "parse_sql q = Some (CountBy c ''jobs'')" "c \<in> set (map fst (schema ''jobs''))"
    and "\<And>r. r \<in> set (ts d ''jobs'') \<Longrightarrow> r c = Some (SText (g (row_job r)))"
  shows "\<exists>out. Pg_counts P None q what d = (Inr out, d) \<and> counts_jobs (tbl d) g out"
proof -
  let ?rows = "ts d ''jobs''"
  let ?n = "\<lambda>k. length (filter (\<lambda>r. column c r = k) ?rows)"
  from count_rows [OF assms(1-3)] obtain ks where ks: "set ks = column c ` set ?rows"
    "pg_Query P None q [] d = (Inr (map (\<lambda>k. [k, SInt (int (?n k))]) ks, None), d)" by blast
  have col: "column c r = SText (g (row_job r))" if "r \<in> set ?rows" for r using assms(4) [OF that] by (simp add: column_def)
  define ss where "ss = map as_text ks"
  have "map (SText \<circ> as_text) ks = ks" using ks(1) col by (intro map_idI) auto
  then have kss: "ks = map SText ss" by (simp add: ss_def)
  define out where "out = fold (\<lambda>s. AList.update s (int (?n (SText s)))) ss []"
  have "map (\<lambda>k. [k, SInt (int (?n k))]) ks = map (\<lambda>s. [SText s, SInt (int (?n (SText s)))]) ss"
    by (simp add: kss)
  then have res: "Pg_counts P None q what d = (Inr out, d)"
    using scan_counts_rows [of "[]" "\<lambda>s. int (?n (SText s))" ss]
    by (simp add: Pg_counts_def ks(2) out_def)
  have f: "filter (\<lambda>r. column c r = SText k) ?rows = filter (\<lambda>r. g (row_job r) = k) ?rows" for k
    by (rule filter_cong) (auto simp: col)
  have cnt: "?n (SText k) = card (with_field (tbl d) g k)" for k
    by (simp add: f jobs_counted [OF assms(1)])
  have "k \<in> set ss \<longleftrightarrow> with_field (tbl d) g k \<noteq> {}" for k
  proof -
    have "k \<in> set ss \<longleftrightarrow> SText k \<in> set ks" by (auto simp: kss)
    also have "\<dots> \<longleftrightarrow> ?n (SText k) \<noteq> 0" by (auto simp: ks(1) filter_empty_conv image_iff eq_commute [of "SText k"])
    finally show ?thesis by (simp add: cnt finite_with_field)
  qed
  then have "counts_jobs (tbl d) g out" by (simp add: counts_jobs_def out_def fold_update cnt)
  with res show ?thesis by blast
qed

end

lemma read_counts:
  "parse_sql ''SELECT status, COUNT(*) FROM jobs GROUP BY status'' = Some (CountBy ''status'' ''jobs'')"
  "parse_sql ''SELECT job_type, COUNT(*) FROM jobs GROUP BY job_type'' = Some (CountBy ''job_type'' ''jobs'')"
  by code_simp+

sublocale pg_laws \<subseteq> pgrep: report_contract "PgStore_port P" "pg_tables ts" up oktext
proof (unfold_locales, goal_cases)
  case (1 d)
  then show ?case by (simp add: jobs_dom_finite)
next
  case (2 d)
  then show ?case
    using counts_meet [OF 2 read_counts(1) _ typed_job(2) [OF 2]]
    by (simp add: PgStore_port_def Pg_CountByStatus_def schema_def)
next
  case (3 d)
  then show ?case
    using counts_meet [OF 3 read_counts(2) _ typed_job(3) [OF 3]]
    by (simp add: PgStore_port_def Pg_CountByType_def schema_def)
next
  case (4 d f)
  then have "page_limit (jf_Limit f) = jf_Limit f" by (simp add: page_limit_def)
  with 4 show ?case using list_meets [of d f] by (simp add: PgStore_port_def)
qed

context pg_laws
begin

lemma pg_event_contract: "event_contract S tbl up oktext okjson np na"
  by unfold_locales

lemma pg_store_contract: "store_contract S tbl up oktext okjson np na"
  by unfold_locales

lemma pg_report_contract: "report_contract S tbl up oktext"
  by unfold_locales

end

end
