(* ===== verification/Reference_Postgres.thy ===== *)
theory Reference_Postgres
  imports Postgres_Contract Reference_Instance
begin

text \<open>
  A database that carries out the statements of the repository on lists of rows: it shows that the
  laws of the driver can be met, and the theorems on the PostgreSQL store are applied to it. It
  keeps times to the microsecond, as \<open>TIMESTAMPTZ\<close> does, and takes any text and any non-empty JSON.
\<close>

type_synonym pg_db = "string \<Rightarrow> row list"

definition pg_json :: "string \<Rightarrow> bool" where
  "pg_json s \<longleftrightarrow> s \<noteq> ''''"

definition pg_micros :: "time \<Rightarrow> time" where
  "pg_micros t = t div 1000 * 1000"

definition pg_fails :: goerr where
  "pg_fails = ErrorString ''constraint violated''"

abbreviation "ref_fits \<equiv> fits (\<lambda>_. True) pg_json"
abbreviation "ref_row \<equiv> new_row (\<lambda>s. s) pg_micros"

definition ref_upsert :: "string \<Rightarrow> string list \<Rightarrow> row \<Rightarrow> row list \<Rightarrow> row list" where
  "ref_upsert k cs x rs = (if list_all (\<lambda>r. r k \<noteq> x k) rs then rs @ [x]
     else map (\<lambda>r. if r k = x k then r ++ x |` set cs else r) rs)"

definition ref_insert ::
  "string \<Rightarrow> (string \<times> nat) list \<Rightarrow> (string \<times> string list) option \<Rightarrow> sqlval list \<Rightarrow> pg_db \<Rightarrow> (goerr + int) \<times> pg_db" where
  "ref_insert t as conflict args d =
     (let x = ref_row t as args;
          others = (case conflict of None \<Rightarrow> d t | Some (k, _) \<Rightarrow> filter (\<lambda>r. r k \<noteq> x k) (d t))
      in if \<not> (ref_fits t as args \<and> map fst as = map fst (schema t) \<and> no_clash (unique_columns t) x others \<and> refers d t x)
         then (Inl pg_fails, d)
         else (Inr 1, d(t := (case conflict of None \<Rightarrow> d t @ [x] | Some (k, cs) \<Rightarrow> ref_upsert k cs x (d t)))))"

definition ref_update ::
  "string \<Rightarrow> (string \<times> nat) list \<Rightarrow> string \<times> nat \<Rightarrow> sqlval list \<Rightarrow> pg_db \<Rightarrow> (goerr + int) \<times> pg_db" where
  "ref_update t as w args d =
     (if \<not> ref_fits t (w # as) args then (Inl pg_fails, d)
      else (Inr (int (length (filter (matches [w] args) (d t)))),
            d(t := map (\<lambda>r. if matches [w] args r then r ++ ref_row t as args else r) (d t))))"

definition ref_exec :: "ctx \<Rightarrow> string \<Rightarrow> sqlval list \<Rightarrow> pg_db \<Rightarrow> (goerr + int) \<times> pg_db" where
  "ref_exec c q args d = (case parse_sql q of
     Some (Insert t as k) \<Rightarrow> ref_insert t as k args d
   | Some (Update t as w) \<Rightarrow> ref_update t as w args d
   | _ \<Rightarrow> (Inl pg_fails, d))"

definition ref_rows :: "string list \<Rightarrow> row list \<Rightarrow> sqlval list list" where
  "ref_rows cs rs = map (\<lambda>r. map (\<lambda>c. column c r) cs) rs"

definition ref_query ::
  "ctx \<Rightarrow> string \<Rightarrow> sqlval list \<Rightarrow> pg_db \<Rightarrow> (goerr + sqlval list list \<times> goerr option) \<times> pg_db" where
  "ref_query c q args d = (case parse_sql q of
     Some (Select cs t as (Some (k, l, f))) \<Rightarrow>
       (case (arg args l, arg args f) of
          (SInt limit, SInt offset) \<Rightarrow>
            if limit < 0 \<or> offset < 0 then (Inl pg_fails, d)
            else (Inr (ref_rows cs (result_page limit offset
                   (sort_key (\<lambda>r. - stamp_of k r) (filter (matches as args) (d t)))), None), d)
        | _ \<Rightarrow> (Inl pg_fails, d))
   | Some (CountBy c t) \<Rightarrow>
       (Inr (map (\<lambda>k. [k, SInt (int (length (filter (\<lambda>r. column c r = k) (d t))))]) (remdups (map (column c) (d t))), None), d)
   | _ \<Rightarrow> (Inl pg_fails, d))"

definition ref_queryrow :: "ctx \<Rightarrow> string \<Rightarrow> sqlval list \<Rightarrow> pg_db \<Rightarrow> (goerr + sqlval list) \<times> pg_db" where
  "ref_queryrow c q args d = (case parse_sql q of
     Some (Select cs t as None) \<Rightarrow>
       (case filter (matches as args) (d t) of [] \<Rightarrow> Inl (Sentinel pgx_ErrNoRows)
        | r # _ \<Rightarrow> Inr (map (\<lambda>c. column c r) cs), d)
   | _ \<Rightarrow> (Inl pg_fails, d))"

definition ref_pg :: "pg_db pgx" where
  "ref_pg = \<lparr> pg_Exec = ref_exec, pg_Query = ref_query, pg_QueryRow = ref_queryrow,
     pg_Scan = (\<lambda>ds vs. if list_all2 scans ds vs then Inr vs else Inl pg_fails), pg_Ping = (\<lambda>c d. (None, d)) \<rparr>"

section \<open>Its tables keep their types and keys\<close>

definition table_ok :: "string \<Rightarrow> row list \<Rightarrow> bool" where
  "table_ok t rs \<longleftrightarrow> list_all (typed_row t) rs \<and> list_all (\<lambda>c. distinct (map (\<lambda>r. r c) rs)) (unique_columns t)"

definition pg_ok :: "pg_db \<Rightarrow> bool" where
  "pg_ok d \<longleftrightarrow> (\<forall>t. table_ok t (d t))"

lemma pg_ok_upd: "pg_ok d \<Longrightarrow> table_ok t rs \<Longrightarrow> pg_ok (d(t := rs))"
  by (simp add: pg_ok_def)

text \<open>The columns an assignment sets have values of their type.\<close>

lemma new_row_values:
  assumes "fits oktext okjson t as args" "new_row np na t as args c = Some v" "map_of (schema t) c = Some (ty, nn)"
  shows "has_type ty nn v"
proof -
  from map_of_SomeD [OF assms(2) [unfolded new_row_def]] obtain n where
    n: "(c, n) \<in> set as" "v = keeps np na ty (arg args n)" using assms(3) by auto
  then have "accepts oktext okjson ty nn (arg args n)"
    using assms(1,3) by (auto simp: fits_def list_all_iff)
  then show ?thesis using n(2) accepts_has_type by blast
qed

lemma new_row_dom: "dom (new_row np na t as args) = fst ` set as"
  by (auto simp: new_row_def dom_map_of_conv_image_fst image_iff) force+

lemma typed_new_row:
  assumes "fits oktext okjson t as args" "map fst as = map fst (schema t)"
  shows "typed_row t (new_row np na t as args)"
proof -
  have "\<exists>v. new_row np na t as args c = Some v \<and> has_type ty nn v" if "(c, ty, nn) \<in> set (schema t)" for c ty nn
  proof -
    have "c \<in> set (map fst as)" using that assms(2) by force
    then have "c \<in> dom (new_row np na t as args)" by (simp add: new_row_dom)
    moreover have "map_of (schema t) c = Some (ty, nn)" using that schema_distinct [of t] by (simp add: map_of_is_SomeI)
    ultimately show ?thesis using new_row_values [OF assms(1)] by blast
  qed
  then show ?thesis by (auto simp: typed_row_def)
qed

lemma typed_add:
  assumes "typed_row t r" "\<And>c v ty nn. x c = Some v \<Longrightarrow> map_of (schema t) c = Some (ty, nn) \<Longrightarrow> has_type ty nn v"
  shows "typed_row t (r ++ x)"
proof -
  have "\<exists>v. (r ++ x) c = Some v \<and> has_type ty nn v" if "(c, ty, nn) \<in> set (schema t)" for c ty nn
  proof -
    have "map_of (schema t) c = Some (ty, nn)" using that schema_distinct [of t] by (simp add: map_of_is_SomeI)
    then show ?thesis using assms that by (cases "x c") (auto simp: typed_row_def map_add_def)
  qed
  then show ?thesis by (auto simp: typed_row_def)
qed

lemma table_ok_append:
  "table_ok t rs \<Longrightarrow> typed_row t x \<Longrightarrow> no_clash (unique_columns t) x rs \<Longrightarrow> table_ok t (rs @ [x])"
  by (auto simp: table_ok_def no_clash_def list_all_iff) metis

lemma table_ok_map:
  assumes "table_ok t rs" "\<And>r. r \<in> set rs \<Longrightarrow> typed_row t r \<Longrightarrow> typed_row t (f r)"
    and "\<And>r c. c \<in> set (unique_columns t) \<Longrightarrow> f r c = r c"
  shows "table_ok t (map f rs)"
  using assms by (auto simp: table_ok_def list_all_iff comp_def)

lemma table_ok_upsert:
  assumes "table_ok t rs" "typed_row t x" "k \<in> set (unique_columns t)" "no_clash (unique_columns t) x (filter (\<lambda>r. r k \<noteq> x k) rs)"
    and "set cs \<inter> set (unique_columns t) = {}"
    and "\<And>c v ty nn. x c = Some v \<Longrightarrow> map_of (schema t) c = Some (ty, nn) \<Longrightarrow> has_type ty nn v"
  shows "table_ok t (ref_upsert k cs x rs)"
proof (cases "list_all (\<lambda>r. r k \<noteq> x k) rs")
  case True
  then have "filter (\<lambda>r. r k \<noteq> x k) rs = rs" by (simp add: list_all_iff)
  then show ?thesis using True assms(1,2,4) by (simp add: ref_upsert_def table_ok_append)
next
  case False
  have "table_ok t (map (\<lambda>r. if r k = x k then r ++ x |` set cs else r) rs)"
  proof (rule table_ok_map [OF assms(1)])
    fix r assume "typed_row t r"
    then show "typed_row t (if r k = x k then r ++ x |` set cs else r)"
      by (auto intro!: typed_add intro: assms(6) simp: restrict_map_def split: if_splits)
  next
    fix r :: row and c assume "c \<in> set (unique_columns t)"
    then have "c \<notin> set cs" using assms(5) by blast
    then show "(if r k = x k then r ++ x |` set cs else r) c = r c" by (simp add: map_add_def)
  qed
  then show ?thesis by (simp add: ref_upsert_def False)
qed

lemma table_ok_update:
  assumes "table_ok t rs" "fits oktext okjson t as args" "set (map fst as) \<inter> set (unique_columns t) = {}"
  shows "table_ok t (map (\<lambda>r. if p r then r ++ new_row np na t as args else r) rs)"
proof (rule table_ok_map [OF assms(1)])
  fix r assume "typed_row t r"
  then show "typed_row t (if p r then r ++ new_row np na t as args else r)"
    by (auto intro!: typed_add intro: new_row_values [OF assms(2)])
next
  fix r :: row and c assume "c \<in> set (unique_columns t)"
  then have "c \<notin> dom (new_row np na t as args)" using assms(3) by (auto simp: new_row_dom)
  then show "(if p r then r ++ new_row np na t as args else r) c = r c" by (simp add: map_add_dom_app_simps)
qed

interpretation refpg: pg_laws ref_pg "\<lambda>d. d" pg_ok "\<lambda>_. True" pg_json "\<lambda>s. s" pg_micros
proof (unfold_locales, goal_cases)
  case (1 d r t)
  then show ?case by (auto simp: pg_ok_def table_ok_def list_all_iff)
next
  case (2 d c t)
  then show ?case by (auto simp: pg_ok_def table_ok_def list_all_iff)
next
  case (3 d q t as args x)
  then have "table_ok t (d t @ [x])" by (intro table_ok_append) (auto simp: pg_ok_def typed_new_row)
  then show ?case using 3 by (simp add: ref_pg_def ref_exec_def ref_insert_def pg_ok_upd)
next
  case (4 d q t as k cs args x)
  then have "table_ok t (ref_upsert k cs x (d t))"
    by (intro table_ok_upsert) (auto simp: pg_ok_def typed_new_row intro: new_row_values)
  then show ?case using 4(1-4,6-) unfolding 4(5) ref_upsert_def
    by (simp add: ref_pg_def ref_exec_def ref_insert_def ref_upsert_def pg_ok_upd refers_def Let_def)
next
  case (5 d q t as k n args)
  have fit: "ref_fits t as args" using 5(3) by (simp add: fits_def)
  have "table_ok t (map (\<lambda>r. if matches [(k, n)] args r then r ++ ref_row t as args else r) (d t))"
    by (rule table_ok_update [OF _ fit]) (use 5 in \<open>auto simp: pg_ok_def\<close>)
  moreover have "map (\<lambda>r. if matches [(k, n)] args r then r ++ ref_row t as args else r) (d t) = d t"
    if "filter (matches [(k, n)] args) (d t) = []" using that by (intro map_idI) (auto simp: filter_empty_conv)
  ultimately show ?case using 5 by (simp add: ref_pg_def ref_exec_def ref_update_def pg_ok_upd)
next
  case (6 d q cs t as args)
  then show ?case by (auto simp: ref_pg_def ref_queryrow_def intro!: exI [of _ "filter (matches as args) (d t)"])
next
  case (7 d q cs t as k l f args limit offset)
  let ?sel = "sort_key (\<lambda>r. - stamp_of k r) (filter (matches as args) (d t))"
  have "ordered_by k ?sel" using sorted_sort_key [of "\<lambda>r. - stamp_of k r" "filter (matches as args) (d t)"]
    by (simp add: ordered_by_def sorted_map)
  then show ?case using 7 by (auto simp: ref_pg_def ref_query_def ref_rows_def intro!: exI [of _ ?sel])
next
  case (8 d q cs t as k l f args offset)
  then show ?case by (auto simp: ref_pg_def ref_query_def split: sqlval.split)
next
  case (9 d q c t)
  then show ?case by (auto simp: ref_pg_def ref_query_def intro!: exI [of _ "remdups (map (column c) (d t))"])
next
  case 10
  then show ?case by (simp add: pg_json_def)
next
  case (11 ds vs)
  then show ?case by (simp add: ref_pg_def)
qed

section \<open>A deployment on it\<close>

definition ref_pg_world :: "(ref_redis, pg_db) world" where
  "ref_pg_world = \<lparr> redis = ref_empty, db = (\<lambda>_. []), metrics = Metrics_New, ticks = 0,
     uuids = 0, rands = 0, pending = [], retryBase = 0, retryMax = 0, crashed = False \<rparr>"

abbreviation ref_pg_gateway :: "(ref_redis, pg_db) GatewayService" where
  "ref_pg_gateway \<equiv> gateway ref_client ref_json 0 (PgStore_port ref_pg) ref_config ref_runtime"

lemma ref_pg_gateway_cfg [simp]: "gs_cfg ref_pg_gateway = \<lparr> gc_MaxRetries = 5, gc_IdempotencyTTL = 24 * hour \<rparr>"
  by (simp add: gateway_def NewGatewayService_def ref_config_def)

lemma ref_pg_admissible [simp]: "admissible ref_pg_gateway ref_request"
  by (simp add: admissible_def JobType_Valid_def)

lemma ref_pg_world_simps [simp]:
  "redis ref_pg_world = ref_empty" "db ref_pg_world = (\<lambda>_. [])" "ticks ref_pg_world = 0" "uuids ref_pg_world = 0"
  by (simp_all add: ref_pg_world_def)

lemma pg_ok_empty [simp]: "pg_ok (\<lambda>_. [])" "t_jobs (pg_tables (\<lambda>d. d) (\<lambda>_. [])) = Map.empty"
  by (auto simp: pg_ok_def table_ok_def list_all_iff pg_tables_def by_text_def)

interpretation refpggw: gateway_env ref_client rf_lists rf_ents rf_up ref_elapse ref_json 0
  "PgStore_port ref_pg" "pg_tables (\<lambda>d. d)" pg_ok "\<lambda>_. True" pg_json "\<lambda>s. s" pg_micros ref_config ref_runtime
  by unfold_locales (simp add: whole_ms_def)

text \<open>Two rows, the second created later.\<close>

definition ref_pg_row :: "string \<Rightarrow> time \<Rightarrow> row" where
  "ref_pg_row i at = stored_row (\<lambda>s. s) pg_micros ''jobs'' [SText i, SText JobTypeQRScan, SText ''{}'', SText JobStatusQueued,
     SInt 0, SInt 5, SText PriorityHigh, SText '''', SText '''', SText '''', STime at, STime at, SNull]"

definition ref_pg_two :: "(ref_redis, pg_db) world" where
  "ref_pg_two = ref_pg_world\<lparr>db := (\<lambda>_. [])(''jobs'' := [ref_pg_row ''a'' 0, ref_pg_row ''b'' second])\<rparr>"

lemma ref_pg_row_values:
  "ref_pg_row i at ''id'' = Some (SText i)" "row_job (ref_pg_row i at) = \<lparr> job_ID = i, job_JobType = JobTypeQRScan, job_Payload = ''{}'',
     job_Status = JobStatusQueued, job_RetryCount = 0, job_MaxRetries = 5, job_Priority = PriorityHigh,
     job_IdempotencyKey = '''', job_TraceID = '''', job_ErrorMessage = '''', job_CreatedAt = pg_micros at,
     job_UpdatedAt = pg_micros at, job_ProcessedAt = None \<rparr>" "typed_row ''jobs'' (ref_pg_row i at)"
  by (simp_all add: ref_pg_row_def row_simps typed_row_def)

lemma ref_pg_two_ok [simp]: "pg_ok (db ref_pg_two)"
  unfolding ref_pg_two_def
  by (simp add: pg_ok_upd table_ok_def unique_columns_def ref_pg_row_values)

lemma ref_pg_two_jobs: "ran (t_jobs (pg_tables (\<lambda>d. d) (db ref_pg_two))) =
    {row_job (ref_pg_row ''a'' 0), row_job (ref_pg_row ''b'' second)}"
  using refpg.job_rows [OF ref_pg_two_ok] by (simp add: ref_pg_two_def)

end
