(* ===== verification/Spec2Isabelle.thy ===== *)
theory Spec2Isabelle
  imports Api Rate_Limiter Pool_Machine Setup Config_File Reference_Postgres
begin

text \<open>
  \<^bold>\<open>The program.\<close> The repository is an ingress API gateway: HTTP requests (registrations, payment
  webhooks, QR scans, notifications) are validated, de-duplicated and turned into jobs that are
  stored in PostgreSQL and queued by priority in Redis; a pool of workers pops the jobs, runs the
  processor of their type, retries failures with exponential backoff and dead-letters what cannot
  succeed; an admin API behind JSON web tokens lists, counts and retries jobs.

  \<^bold>\<open>State.\<close> Everything the program changes is one record, the world of the theory Ports: the Redis
  server, the database, the metrics, the readings of clock, identifier and random sources so far,
  and the retry goroutines that wait. Errors are values (\<open>goerr\<close>), a panic is a flag, contexts are
  the reason they ended. A port of \<open>domain/ports.go\<close> is a record of functions over that state and
  its contract a locale; services and workers are verified against the contracts, the adapters
  interpret them, and every theorem below is about the composition.

  \<^bold>\<open>Theories.\<close>
  \<^item> Gateway-Prelude, Domain, Ports: errors, time, integers; \<open>internal/domain\<close>; the ports, the world
    and the contracts of cache, queue and store, with the abstract priority queue.
  \<^item> Redis-Client, Redis-Adapters: go-redis as a parameter with the laws of the commands used;
    \<open>internal/queue\<close> and \<open>internal/cache\<close> on it, and the proof that they meet the contracts.
  \<^item> Reports, Memory-Store: the contract of listing and counting; \<open>internal/testutil/store.go\<close>, shown
    to meet it and the store contracts.
  \<^item> Sql, Postgres-Store, Postgres-Contract: a reader for the SQL the repository writes and the schema
    of \<open>migrations\<close>; \<open>internal/repository\<close>, each operation as the text it sends, the parameters it
    binds and what it makes of the answer; the proof that it meets the same contracts, for any
    driver and database that do what a statement says (the locale \<open>pg_laws\<close>).
  \<^item> Crypto, Gateway-Service: SHA-256, HMAC and hexadecimal; \<open>internal/service/gateway_service.go\<close> and
    \<open>idempotency.go\<close>: claim of the idempotency key, row, queue, and what happens when a step fails.
  \<^item> Worker-Pool, Processors, Pipeline: \<open>internal/worker\<close>: one delivery of a job with lock, done
    marker, retry and dead letter; the four processors; runs of deliveries.
  \<^item> Pool-Machine: the goroutines of the pool as a step relation: dispatcher, workers, channel and
    retry goroutines in every interleaving, start, cancellation and shutdown.
  \<^item> Admin-Service: \<open>internal/service/admin_service.go\<close>.
  \<^item> Float64, Rate-Limiter: round-to-nearest binary64 on finite values; \<open>internal/ratelimiter\<close>: buckets,
    the global limiter and the per-key limiter with eviction, refined to a bucket per key.
  \<^item> Go-Json, Json-Roundtrip, Json-Times, Json-Job: \<open>encoding/json\<close> as far as the gateway uses it, on
    bytes; a job is decoded from its own encoding. The services take the library as a parameter \<open>J\<close>;
    \<open>go_json\<close> is the instance for the real format; the theorems that constrain what is serialised are
    applied to it, and \<open>ref_json\<close> is a small total one for the other witnesses.
  \<^item> Security: \<open>internal/security\<close>; golang-jwt is a parameter with its documented laws.
  \<^item> Http, Middleware, Handlers, Router, Api: \<open>internal/api\<close> and the request context of
    \<open>internal/logger\<close>: requests, responses, the middleware, the handlers, the route table; chi is a
    parameter with its documented laws. A handler maps request, writer and server state to a panic
    flag, writer and state.
  \<^item> Config, Config-File, Setup: \<open>internal/config\<close>: the environment, the \<open>.env\<close> file and the validation;
    that a written file is read back, with the values of \<open>.env.example\<close> for what it leaves out; what
    is built from the configuration: connection pool, Redis client, logger.
  \<^item> Reference-Json, Reference-Instance, Reference-Postgres: a concrete Redis, in-memory store, SQL
    database, clock and codec on which every environment locale is interpreted, so that each theorem is applied to a state that exists.

  \<^bold>\<open>What is shown.\<close> Ingestion: a fresh request is stored and queued, a replay is a duplicate until the
  key expires, failures roll the claim back. Queue: pushes and pops refine a stable sort by level.
  Workers: success, retry, dead letter and skipping, exhaustion of the retry budget after a bounded
  number of deliveries, end-to-end processing of each job type. Limiters: admission bounds up to
  rounding and isolation of keys. API: what is accepted, refused, shed, and that every response is
  correlated. Serialisation and tokens: round trips. Stores: both meet the contracts, so that the
  theorems stated for a store hold on PostgreSQL; an accepted job is read back, lists are pages of
  the selected jobs, newest first, statistics count the jobs. Pool: exclusive processing in every
  interleaving and a shutdown that ends. Configuration: the round trip through a file and the secrets
  of production.

  \<^bold>\<open>Bounds and fuel.\<close> The JSON scanner takes fuel; twice the length of the text plus two is enough
  (\<open>scan_enough_all\<close>) and the depth limit is that of the library, 10000. Every other function is total.
  Integers of the sources are 64 bits; where they can leave the range the wrap is written out, and
  the store's columns are 32 bits. Time stamps have to fit a \<open>TIMESTAMPTZ\<close> column (\<open>clock_ok\<close>). Delays are computed in \<open>float64\<close> up to 2^53 ns.

  \<^bold>\<open>Not modelled.\<close> Log output other than the access log, the latency histogram and the depth gauges
  (nothing reads them back); the metrics library that registers and serves the collectors, which are
  listed in Domain with their names, labels and buckets, and \<open>http.ServeFile\<close> (calls into libraries); \<open>testutil/redis.go\<close>, which starts a Redis for tests. The generated keys of the tables of
  attempts and audit entries, which no statement reads, are left out of the schema, and a database
  is one connection's view: transactions of other connections appear as states between calls. The
  repository has no \<open>main\<close> package.
\<close>

section \<open>Ingestion\<close>

text \<open>
  C1: a request under a key nobody holds is accepted. The result is the new job, not marked as a
  duplicate; the key is claimed for the configured time with the job's identifier; the row is
  stored as QUEUED with no retries used and the whole retry budget; the job is queued last at the
  level of its type; no other row, key, level or dead letter changes.
\<close>

theorem enqueue_accepts_fresh:
  assumes redis: "redis_laws R lst ents up elapse"
    and store: "store_contract S tab dok oktext okjson np na"
    and s: "s = gateway R J pt S cfg E" and ttl: "whole_ms (gc_IdempotencyTTL (gs_cfg s))"
    and req: "admissible s req" and ready: "server_ok J lst ents up (redis w)" "dok (db w)"
    and key: "ents (redis w) (enq_redisKey s req) = None"
    and job: "wire J (enq_job s req w)" "okjob oktext okjson (enq_job s req w)"
      "t_jobs (tab (db w)) (enq_id s req w) = None"
  shows "\<exists>w'. Enqueue s None req w = (Inr \<lparr> res_Job = enq_job s req w, res_Duplicate = False \<rparr>, w') \<and>
    ents (redis w') = (ents (redis w))(enq_redisKey s req \<mapsto>
      (enq_id s req w, Some (gc_IdempotencyTTL (gs_cfg s)))) \<and>
    queue_view J lst (redis w') = (queue_view J lst (redis w))(level (PriorityForType (er_JobType req)) :=
      queue_view J lst (redis w) (level (PriorityForType (er_JobType req))) @ [enq_job s req w]) \<and>
    dead_view J lst (redis w') = dead_view J lst (redis w) \<and>
    tab (db w') = (tab (db w))\<lparr>t_jobs := (t_jobs (tab (db w)))(enq_id s req w \<mapsto>
      stored_job np na (enq_job s req w))\<rparr> \<and>
    server_ok J lst ents up (redis w') \<and> dok (db w')"
  using gateway_env.redis_fresh [OF gateway_envI [OF redis store ttl [unfolded s]]] req ready key job
  unfolding s by fastforce

theorem enqueue_accepts_fresh_witness:
  "\<exists>w'. Enqueue ref_gateway None ref_request ref_world =
     (Inr \<lparr> res_Job = enq_job ref_gateway ref_request ref_world, res_Duplicate = False \<rparr>, w') \<and>
   queue_view ref_json rf_lists (redis w') 0 = [enq_job ref_gateway ref_request ref_world]"
  using enqueue_accepts_fresh [OF ref.redis_laws_axioms mem.store_contract_axioms refl, of ref_json 0
      ref_config ref_runtime ref_request ref_world]
  by (auto simp: whole_ms_def PriorityForType_def level_def)

text \<open>
  C2: a replay before the idempotency key expires, that is a second admissible request under the
  same type and key at most the time to live later, is answered with the stored job of the first
  request, marked as a duplicate; it stores nothing and queues nothing.
\<close>

theorem enqueue_replay_is_duplicate:
  assumes redis: "redis_laws R lst ents up elapse"
    and store: "store_contract S tab dok oktext okjson np na"
    and s: "s = gateway R J pt S cfg E" and ttl: "whole_ms (gc_IdempotencyTTL (gs_cfg s))"
    and req: "admissible s req" and ready: "server_ok J lst ents up (redis w)" "dok (db w)"
    and key: "ents (redis w) (enq_redisKey s req) = None"
    and job: "wire J (enq_job s req w)" "okjob oktext okjson (enq_job s req w)"
      "t_jobs (tab (db w)) (enq_id s req w) = None" "enq_id s req w \<noteq> ''''"
    and req2: "admissible s req2" "enq_redisKey s req2 = enq_redisKey s req"
    and d: "0 \<le> d" "d < gc_IdempotencyTTL (gs_cfg s)"
    and w2: "w1 = snd (Enqueue s None req w)" "w2 = w1\<lparr>redis := elapse d (redis w1)\<rparr>"
      "server_ok J lst ents up (redis w2)"
  shows "\<exists>w3. Enqueue s None req2 w2 =
      (Inr \<lparr> res_Job = stored_job np na (enq_job s req w), res_Duplicate = True \<rparr>, w3) \<and>
    db w3 = db w1 \<and> queue_view J lst (redis w3) = queue_view J lst (redis w1) \<and>
    dead_view J lst (redis w3) = dead_view J lst (redis w1)"
  using gateway_env.redis_replay_within [OF gateway_envI [OF redis store ttl [unfolded s]]]
    req ready key job req2 d w2 unfolding s by blast

theorem enqueue_replay_is_duplicate_witness:
  "\<exists>w3. Enqueue ref_gateway None ref_request
       ((snd (Enqueue ref_gateway None ref_request ref_world))\<lparr>redis :=
          ref_elapse hour (redis (snd (Enqueue ref_gateway None ref_request ref_world)))\<rparr>) =
     (Inr \<lparr> res_Job = enq_job ref_gateway ref_request ref_world, res_Duplicate = True \<rparr>, w3)"
proof -
  define w1 where "w1 = snd (Enqueue ref_gateway None ref_request ref_world)"
  define w2 where "w2 = w1\<lparr>redis := ref_elapse hour (redis w1)\<rparr>"
  have "server_ok ref_json rf_lists rf_ents rf_up (redis w1)"
    using refgw.redis_fresh [of ref_request ref_world] by (auto simp: w1_def)
  then have "server_ok ref_json rf_lists rf_ents rf_up (redis w2)"
    by (simp add: w2_def ref_elapse_def server_ok_def age_def)
  with enqueue_replay_is_duplicate [OF ref.redis_laws_axioms mem.store_contract_axioms refl, of ref_json 0
      ref_config ref_runtime ref_request ref_world ref_request hour w1 w2]
  show ?thesis
    by (simp add: whole_ms_def w1_def [symmetric] w2_def [symmetric])
      (auto simp: enq_id_def ref_runtime_def w2_def)
qed

text \<open>
  C14: once the time to live has passed the key is free again, and the same request is a new one:
  a second job is stored beside the first.
\<close>

theorem enqueue_after_expiry_is_fresh:
  assumes redis: "redis_laws R lst ents up elapse"
    and store: "store_contract S tab dok oktext okjson np na"
    and s: "s = gateway R J pt S cfg E" and ttl: "whole_ms (gc_IdempotencyTTL (gs_cfg s))"
    and req: "admissible s req" and ready: "server_ok J lst ents up (redis w)" "dok (db w)"
    and key: "ents (redis w) (enq_redisKey s req) = None"
    and job: "wire J (enq_job s req w)" "okjob oktext okjson (enq_job s req w)"
      "t_jobs (tab (db w)) (enq_id s req w) = None"
    and req2: "admissible s req2" "enq_redisKey s req2 = enq_redisKey s req"
    and d: "0 \<le> d" "gc_IdempotencyTTL (gs_cfg s) \<le> d"
    and w2: "w1 = snd (Enqueue s None req w)" "w2 = w1\<lparr>redis := elapse d (redis w1)\<rparr>"
      "server_ok J lst ents up (redis w2)"
    and job2: "wire J (enq_job s req2 w2)" "okjob oktext okjson (enq_job s req2 w2)"
      "t_jobs (tab (db w2)) (enq_id s req2 w2) = None"
  shows "\<exists>w3. Enqueue s None req2 w2 =
      (Inr \<lparr> res_Job = enq_job s req2 w2, res_Duplicate = False \<rparr>, w3) \<and>
    t_jobs (tab (db w3)) (enq_id s req w) = Some (stored_job np na (enq_job s req w)) \<and>
    t_jobs (tab (db w3)) (enq_id s req2 w2) = Some (stored_job np na (enq_job s req2 w2))"
  using gateway_env.redis_replay_after [OF gateway_envI [OF redis store ttl [unfolded s]]]
    req ready key job req2 d w2 job2 unfolding s by blast

theorem enqueue_after_expiry_is_fresh_witness:
  "\<exists>res w3. Enqueue ref_gateway None ref_request
       ((snd (Enqueue ref_gateway None ref_request ref_world))\<lparr>redis :=
          ref_elapse (25 * hour) (redis (snd (Enqueue ref_gateway None ref_request ref_world)))\<rparr>) =
     (Inr res, w3) \<and> \<not> res_Duplicate res"
proof -
  define w1 where "w1 = snd (Enqueue ref_gateway None ref_request ref_world)"
  define w2 where "w2 = w1\<lparr>redis := ref_elapse (25 * hour) (redis w1)\<rparr>"
  have w1: "server_ok ref_json rf_lists rf_ents rf_up (redis w1)" "uuids w1 = 2"
    "t_jobs (mem_tables (db w1)) =
       [enq_id ref_gateway ref_request ref_world \<mapsto> enq_job ref_gateway ref_request ref_world]"
    using refgw.redis_fresh [of ref_request ref_world]
    by (auto simp: w1_def Enqueue_uuids enq_drawn_def)
  then have ok: "server_ok ref_json rf_lists rf_ents rf_up (redis w2)" "uuids w2 = 2" "db w2 = db w1"
    by (simp_all add: w2_def ref_elapse_def server_ok_def age_def)
  have new: "t_jobs (mem_tables (db w2)) (enq_id ref_gateway ref_request w2) = None"
    using w1(3) ok by (simp add: enq_id_def ref_runtime_def numeral_2_eq_2)
  from enqueue_after_expiry_is_fresh [OF ref.redis_laws_axioms mem.store_contract_axioms refl, of ref_json 0
      ref_config ref_runtime ref_request ref_world ref_request "25 * hour" w1 w2] ok(1) new
  show ?thesis
    by (simp add: whole_ms_def w1_def [symmetric]) (auto simp: w2_def)
qed

text \<open>
  A request with an unknown type, an empty payload or a payload that is not JSON is refused
  with the matching sentinel error before anything is read or written.
\<close>

lemma enqueue_refuses_bad_request:
  assumes "\<not> admissible s req"
  shows "\<exists>e. Enqueue s c req w = (Inl e, w) \<and>
    errors_Is e (if JobType_Valid (er_JobType req) then ErrInvalidPayload else ErrUnknownJobType)"
  using assms by (auto simp: Enqueue_def admissible_def)

text \<open>
  C12: if the row cannot be stored the claim on the key is released, so that the client's next
  attempt is not taken for a duplicate, and nothing is queued.
\<close>

theorem enqueue_persist_failure_rolls_back:
  assumes redis: "redis_laws R lst ents up elapse"
    and store: "store_contract S tab dok oktext okjson np na"
    and s: "s = gateway R J pt S cfg E" and ttl: "whole_ms (gc_IdempotencyTTL (gs_cfg s))"
    and req: "admissible s req" and ready: "server_ok J lst ents up (redis w)"
    and key: "ents (redis w) (enq_redisKey s req) = None"
    and fails: "sCreate S None (enq_job s req w) (db w) = (Some e, d')"
  shows "\<exists>w'. Enqueue s None req w = (Inl (Wrap ''persist job: '' e ''''), w') \<and>
    server_ok J lst ents up (redis w') \<and> ents (redis w') = ents (redis w) \<and>
    queue_view J lst (redis w') = queue_view J lst (redis w) \<and> db w' = d'"
  using gateway_env.redis_persist_fails [OF gateway_envI [OF redis store ttl [unfolded s]]]
    req ready key fails unfolding s by blast

theorem enqueue_persist_failure_rolls_back_witness:
  "\<exists>w'. Enqueue ref_down_gateway None ref_request ref_world =
     (Inl (Wrap ''persist job: '' ref_refused ''''), w') \<and> rf_ents (redis w') = rf_ents ref_empty"
  using enqueue_persist_failure_rolls_back [OF ref.redis_laws_axioms ref_down_contract refl, of ref_json 0
      ref_config ref_runtime ref_request ref_world]
  by (auto simp: whole_ms_def)

text \<open>
  C13: if Redis refuses to queue the job after its row was stored, that is, all commands work but the
  \<open>LPUSH\<close> answers with an error and has no effect, the claim is released as well, but the row stays
  in the table as QUEUED although no queue holds the job.
\<close>

theorem enqueue_push_failure_leaves_row:
  assumes redis: "redis_laws R lst ents up elapse"
    and store: "store_contract S tab dok oktext okjson np na"
    and s: "s = gateway (R\<lparr>rLPush := push\<rparr>) J pt S cfg E" and ttl: "whole_ms (gc_IdempotencyTTL (gs_cfg s))"
    and req: "admissible s req" and ready: "server_ok J lst ents up (redis w)" "dok (db w)"
    and key: "ents (redis w) (enq_redisKey s req) = None"
    and job: "okjob oktext okjson (enq_job s req w)" "t_jobs (tab (db w)) (enq_id s req w) = None"
      "json_Marshal_Job J (enq_job s req w) = Inr b"
    and r1: "r1 = snd (RedisCache_SetNX R None (enq_redisKey s req) (enq_id s req w)
      (gc_IdempotencyTTL (gs_cfg s)) (redis w))"
    and fails: "push None (keyForPriority (PriorityForType (er_JobType req))) b r1 = (Inl e, r2)"
    and r2: "server_ok J lst ents up r2" "ents r2 = ents r1" "lst r2 = lst r1"
  shows "\<exists>w'. Enqueue s None req w = (Inl (Wrap ''queue job: '' e ''''), w') \<and>
    ents (redis w') = ents (redis w) \<and> queue_view J lst (redis w') = queue_view J lst (redis w) \<and>
    t_jobs (tab (db w')) (enq_id s req w) = Some (stored_job np na (enq_job s req w)) \<and>
    job_Status (enq_job s req w) = JobStatusQueued"
proof -
  have "gs_cfg s = gs_cfg (gateway R J pt S cfg E)" by (simp add: s gateway_def NewGatewayService_def Let_def)
  then have env: "gateway_env R lst ents up elapse J pt S tab dok oktext okjson np na cfg E"
    using gateway_envI [OF redis store] ttl by simp
  from gateway_env.redis_lpush_fails [OF env s req ready key job r1 _ r2] fails show ?thesis by auto
qed

theorem enqueue_push_failure_leaves_row_witness:
  "\<exists>w'. Enqueue json_busy_gateway None json_request ref_world =
     (Inl (Wrap ''queue job: '' ref_timeout ''''), w') \<and> rf_ents (redis w') = (\<lambda>_. None) \<and>
     t_jobs (mem_tables (db w')) (enq_id json_busy_gateway json_request ref_world) =
       Some (enq_job json_busy_gateway json_request ref_world)"
proof -
  let ?s = json_busy_gateway
  have cfg: "gs_cfg ?s = \<lparr> gc_MaxRetries = 5, gc_IdempotencyTTL = 24 * hour \<rparr>"
    by (simp add: gateway_def NewGatewayService_def ref_config_def)
  obtain b where b: "json_Marshal_Job (go_json id) (enq_job ?s json_request ref_world) = Inr b"
    using wire_clean_job [OF json_request_clean, of id] by (rule wireE)
  define r1 where "r1 = snd (RedisCache_SetNX ref_client None (enq_redisKey ?s json_request)
      (enq_id ?s json_request ref_world) (gc_IdempotencyTTL (gs_cfg ?s)) (redis ref_world))"
  have ok: "server_ok (go_json id) rf_lists rf_ents rf_up r1"
    using refenv.redis_setnx_up [of "go_json id" ref_empty] unfolding r1_def cfg by (simp add: whole_ms_def)
  from enqueue_push_failure_leaves_row [OF ref.redis_laws_axioms mem.store_contract_axioms refl _
      json_request_admissible _ _ _ _ _ b r1_def _ ok]
  show ?thesis by (auto simp: whole_ms_def cfg)
qed

text \<open>
  Idempotency keys never collide. For admitted types the key determines type and client key;
  it is none of the four list keys of the queue and no processing marker or lock of any job.
\<close>

lemma idempotency_keys_separate:
  assumes "JobType_Valid t" "JobType_Valid t'"
  shows "(idempotencyRedisKey t k = idempotencyRedisKey t' k' \<longleftrightarrow> t = t' \<and> k = k') \<and>
    idempotencyRedisKey t k \<notin> set list_keys \<and>
    idempotencyRedisKey t k \<noteq> done_key j \<and> idempotencyRedisKey t k \<noteq> lock_key j"
proof -
  have "idempotencyRedisKey t k = idempotencyRedisKey t' k' \<longleftrightarrow> t = t' \<and> k = k'"
    using append_separator_inj [OF JobType_Valid_no_colon [OF assms(1)]
        JobType_Valid_no_colon [OF assms(2)], of k k']
    by (auto simp: idempotencyRedisKey_def)
  then show ?thesis
    by (simp add: idempotencyRedisKey_def list_keys_def listkey_defs done_key_def lock_key_def)
qed

section \<open>The priority queue\<close>

text \<open>
  C8: on an empty queue, pushing any jobs and popping delivers them sorted by level (HIGH before
  MEDIUM before LOW), in the order of their pushes within a level, each exactly once; \<open>n\<close> pops
  deliver the first \<open>n\<close> of that order.
\<close>

theorem queue_serves_by_priority:
  assumes "redis_laws R lst ents up elapse" "server_ok J lst ents up r"
    and "queue_view J lst r = (\<lambda>_. [])" "\<And>j. j \<in> set js \<Longrightarrow> wire J j"
  shows "fst (pop_all (RedisQueue_port R J pt) n (push_all (RedisQueue_port R J pt) js r)) =
    take n (sort_key (\<lambda>j. level (job_Priority j)) js)"
  using redis_env.redis_priority_fifo [where R = R and lst = lst and ents = ents] assms
  by (fastforce simp: redis_env_def)

theorem queue_serves_by_priority_witness:
  "fst (pop_all (RedisQueue_port ref_client ref_json 0) 2 (push_all (RedisQueue_port ref_client ref_json 0)
     [ref_job\<lparr>job_Priority := PriorityLow\<rparr>, ref_job] ref_empty)) =
   [ref_job, ref_job\<lparr>job_Priority := PriorityLow\<rparr>]"
  using queue_serves_by_priority [OF ref.redis_laws_axioms, of ref_json ref_empty
      "[ref_job\<lparr>job_Priority := PriorityLow\<rparr>, ref_job]" 0 2]
  by (simp add: queue_view_def level_def fun_eq_iff)

section \<open>Workers\<close>

text \<open>
  C4: a free job whose processor succeeds ends as SUCCESS. The row holds no error message and
  the time of the end; the attempt is recorded; the done marker is set for 24 hours and the lock
  is gone; nothing is queued, dead-lettered or scheduled.
\<close>

theorem process_records_success:
  assumes redis: "redis_laws R lst ents up elapse"
    and store: "store_contract S tab dok oktext okjson np na" and sts: "text_statuses oktext" "clock_ok E"
    and p: "p = NewPool (RedisQueue_port R J pt) S (RedisCache_port R) procs workers E"
    and free: "free_job (server_ok J lst ents up) ents (redis w) j"
    and proc: "p_registry p (job_JobType j) = Some proc" "claimed p j w = (j', w2)"
      "proc None j' w2 = (None, w3)"
    and job: "job_ID j' = job_ID j" "server_ok J lst ents up (redis w3)"
      "takes_row tab dok oktext okjson np na (db w3) j'"
  shows "\<exists>w'. process p None j w = w' \<and>
    tab (db w') = (tab (db w3))\<lparr>
      t_jobs := (t_jobs (tab (db w3)))(job_ID j \<mapsto>
        stored_job np na (success_job j' (time_at E (Suc (Suc (ticks w3)))))),
      t_atts := t_atts (tab (db w3)) @
        [attempt_row E na j' (time_at E (ticks w)) JobStatusSuccess '''' w3]\<rparr> \<and>
    ents (redis w') = (ents (redis w3))(done_key j \<mapsto> (''1'', Some processedTTL), lock_key j := None) \<and>
    queue_view J lst (redis w') = queue_view J lst (redis w3) \<and>
    dead_view J lst (redis w') = dead_view J lst (redis w3) \<and>
    pending w' = pending w3 \<and> crashed w' = crashed w3"
proof -
  have "p_rt p = E" by (simp add: p NewPool_def)
  with pool_env.redis_success [where J = J and pt = pt and procs = procs and workers = workers and E = E,
      OF pool_envI [OF redis store sts], folded p, OF free proc job]
  show ?thesis by auto
qed

theorem process_records_success_witness:
  "\<exists>w'. process (ref_pool ref_works) None ref_job ref_loaded = w' \<and>
     rf_ents (redis w') (done_key ref_job) = Some (''1'', Some (24 * hour))"
proof -
  obtain j' w2 t where c: "claimed (ref_pool ref_works) ref_job ref_loaded = (j', w2)"
    "j' = ref_job\<lparr>job_Status := JobStatusProcessing, job_UpdatedAt := t\<rparr>"
    "server_ok ref_json rf_lists rf_ents rf_up (redis w2)"
    "takes_row mem_tables (\<lambda>_. True) (\<lambda>_. True) (\<lambda>_. True) (\<lambda>x. x) (\<lambda>t. t) (db w2) j'"
    "pending w2 = []" "retryBase w2 = 0" "retryMax w2 = 0"
    by (rule ref_claimed)
  from process_records_success [OF ref.redis_laws_axioms mem.store_contract_axioms ref_statuses ref_clock refl ref_free
      _ c(1), of ref_works w2] c(2-4)
  show ?thesis by (auto simp: ref_works_def processedTTL_def)
qed

text \<open>
  C5: a free job whose processor fails with a retryable error and with budget left goes back to
  QUEUED with one more retry counted and the error recorded, the attempt is recorded, the lock is
  released, and the job is scheduled after a delay that is not negative and exceeds neither the
  cap nor the exponential bound. It is not marked done, and the worker does not panic.
\<close>

theorem process_schedules_retry:
  assumes redis: "redis_laws R lst ents up elapse"
    and store: "store_contract S tab dok oktext okjson np na" and sts: "text_statuses oktext" "clock_ok E"
    and p: "p = NewPool (RedisQueue_port R J pt) S (RedisCache_port R) procs workers E"
    and free: "free_job (server_ok J lst ents up) ents (redis w) j"
    and proc: "p_registry p (job_JobType j) = Some proc" "claimed p j w = (j', w2)"
      "proc None j' w2 = (Some e, w3)"
    and job: "job_ID j' = job_ID j" "server_ok J lst ents up (redis w3)"
      "takes_row tab dok oktext okjson np na (db w3) j'" "oktext (Error e)"
    and retry: "\<not> errors_Is e ErrNonRetryable" "CanRetry j'" "0 \<le> job_RetryCount j'"
    and rand: "\<And>k n. 0 < n \<Longrightarrow> 0 \<le> rand_at E k n \<and> rand_at E k n < n"
    and delays: "eff_base w3 \<le> 2 ^ 53" "eff_max w3 \<le> 2 ^ 53"
  shows "\<exists>w' dl. process p None j w = w' \<and>
    tab (db w') = (tab (db w3))\<lparr>
      t_jobs := (t_jobs (tab (db w3)))(job_ID j \<mapsto>
        stored_job np na (retry_job j' e (time_at E (Suc (Suc (ticks w3)))))),
      t_atts := t_atts (tab (db w3)) @
        [attempt_row E na j' (time_at E (ticks w)) JobStatusFailed (Error e) w3]\<rparr> \<and>
    ents (redis w') = (ents (redis w3))(lock_key j := None) \<and>
    queue_view J lst (redis w') = queue_view J lst (redis w3) \<and>
    dead_view J lst (redis w') = dead_view J lst (redis w3) \<and>
    pending w' = pending w3 @ [(retry_job j' e (time_at E (Suc (Suc (ticks w3)))), dl)] \<and>
    0 \<le> dl \<and> dl \<le> eff_max w3 \<and> dl \<le> eff_base w3 * 2 ^ nat (job_RetryCount j') \<and>
    crashed w' = crashed w3"
proof -
  have rt: "p_rt p = E" by (simp add: p NewPool_def)
  from pool_env.redis_retry [where J = J and pt = pt and procs = procs and workers = workers and E = E,
      OF pool_envI [OF redis store sts], folded p, OF free proc job retry _ delays] rand
  show ?thesis unfolding rt by auto
qed

theorem process_schedules_retry_witness:
  "\<exists>w' job dl. process (ref_pool ref_fails) None ref_job ref_loaded = w' \<and> pending w' = [(job, dl)] \<and>
     job_RetryCount job = 1 \<and> 0 \<le> dl \<and> dl \<le> 500 * millisecond"
proof -
  obtain j' w2 t where c: "claimed (ref_pool ref_fails) ref_job ref_loaded = (j', w2)"
    "j' = ref_job\<lparr>job_Status := JobStatusProcessing, job_UpdatedAt := t\<rparr>"
    "server_ok ref_json rf_lists rf_ents rf_up (redis w2)"
    "takes_row mem_tables (\<lambda>_. True) (\<lambda>_. True) (\<lambda>_. True) (\<lambda>x. x) (\<lambda>t. t) (db w2) j'"
    "pending w2 = []" "retryBase w2 = 0" "retryMax w2 = 0"
    by (rule ref_claimed)
  from process_schedules_retry [OF ref.redis_laws_axioms mem.store_contract_axioms ref_statuses ref_clock refl ref_free
      _ c(1), of ref_fails "ErrorString ''provider down''" w2] c(2-7)
  show ?thesis by (auto simp: ref_fails_def CanRetry_def eff_base_def eff_max_def)
qed

text \<open>
  C6: a free job whose processor fails with a non-retryable error, or with no budget left, is
  dead-lettered: the row is DEAD_LETTER with the error, the attempt is recorded, the job heads the
  dead-letter list, the done marker is set and the lock released; nothing is queued or scheduled.
\<close>

theorem process_dead_letters:
  assumes redis: "redis_laws R lst ents up elapse"
    and store: "store_contract S tab dok oktext okjson np na" and sts: "text_statuses oktext" "clock_ok E"
    and p: "p = NewPool (RedisQueue_port R J pt) S (RedisCache_port R) procs workers E"
    and free: "free_job (server_ok J lst ents up) ents (redis w) j"
    and proc: "p_registry p (job_JobType j) = Some proc" "claimed p j w = (j', w2)"
      "proc None j' w2 = (Some e, w3)"
    and job: "job_ID j' = job_ID j" "server_ok J lst ents up (redis w3)"
      "takes_row tab dok oktext okjson np na (db w3) j'" "oktext (Error e)"
    and final: "errors_Is e ErrNonRetryable \<or> \<not> CanRetry j'"
    and wire: "wire J (dead_job j' (Error e) (time_at E (Suc (Suc (ticks w3)))))"
  shows "\<exists>w' dead. process p None j w = w' \<and>
    dead = dead_job j' (Error e) (time_at E (Suc (Suc (ticks w3)))) \<and>
    job_Status dead = JobStatusDeadLetter \<and> job_ErrorMessage dead = Error e \<and>
    tab (db w') = (tab (db w3))\<lparr>
      t_jobs := (t_jobs (tab (db w3)))(job_ID j \<mapsto> stored_job np na dead),
      t_atts := t_atts (tab (db w3)) @
        [attempt_row E na j' (time_at E (ticks w)) JobStatusFailed (Error e) w3]\<rparr> \<and>
    ents (redis w') = (ents (redis w3))(done_key j \<mapsto> (''1'', Some processedTTL), lock_key j := None) \<and>
    queue_view J lst (redis w') = queue_view J lst (redis w3) \<and>
    dead_view J lst (redis w') = dead # dead_view J lst (redis w3) \<and>
    pending w' = pending w3 \<and> crashed w' = crashed w3"
proof -
  have rt: "p_rt p = E" by (simp add: p NewPool_def)
  from pool_env.redis_dead [where J = J and pt = pt and procs = procs and workers = workers and E = E,
      OF pool_envI [OF redis store sts], folded p, OF free proc job final] wire
  show ?thesis unfolding rt by (auto simp: dead_job_def)
qed

theorem process_dead_letters_witness:
  "\<exists>w' dead. process (ref_pool (\<lambda>c j w. (Some (Sentinel ErrNonRetryable), w))) None ref_job ref_loaded = w' \<and>
     job_Status dead = JobStatusDeadLetter \<and> dead_view ref_json rf_lists (redis w') = [dead]"
proof -
  let ?pr = "\<lambda>c j w. (Some (Sentinel ErrNonRetryable), w)"
  obtain j' w2 t where c: "claimed (ref_pool ?pr) ref_job ref_loaded = (j', w2)"
    "j' = ref_job\<lparr>job_Status := JobStatusProcessing, job_UpdatedAt := t\<rparr>"
    "server_ok ref_json rf_lists rf_ents rf_up (redis w2)"
    "takes_row mem_tables (\<lambda>_. True) (\<lambda>_. True) (\<lambda>_. True) (\<lambda>x. x) (\<lambda>t. t) (db w2) j'"
    "dead_view ref_json rf_lists (redis w2) = []"
    by (rule ref_claimed)
  from process_dead_letters [OF ref.redis_laws_axioms mem.store_contract_axioms ref_statuses ref_clock refl ref_free
      _ c(1), of ?pr "Sentinel ErrNonRetryable" w2] c(2-5)
  show ?thesis by auto
qed

text \<open>
  C7: a job that finished before, or that another worker holds, is not processed again: the
  delivery changes no row, key, list or counter, whatever the processor is.
\<close>

theorem process_skips_handled_jobs:
  assumes redis: "redis_laws R lst ents up elapse"
    and store: "store_contract S tab dok oktext okjson np na" and sts: "text_statuses oktext" "clock_ok E"
    and p: "p = NewPool (RedisQueue_port R J pt) S (RedisCache_port R) procs workers E"
    and ready: "server_ok J lst ents up (redis w)" "p_registry p (job_JobType j) = Some proc"
    and handled: "(\<exists>v t. ents (redis w) (done_key j) = Some (v, t) \<and> v \<noteq> '''') \<or>
      (ents (redis w) (done_key j) = None \<and> ents (redis w) (lock_key j) = Some x)"
  shows "skipped_delivery ents (queue_view J lst) (dead_view J lst) w (process p None j w)"
proof -
  note env = pool_envI [OF redis store sts]
  note skips = pool_env.redis_skips_done [where J = J and pt = pt and procs = procs and workers = workers
      and E = E, OF env, folded p, OF ready]
    pool_env.redis_skips_locked [where J = J and pt = pt and procs = procs and workers = workers
      and E = E, OF env, folded p, OF ready]
  from handled skips show ?thesis by blast
qed

theorem process_skips_handled_jobs_witness:
  "skipped_delivery rf_ents (queue_view ref_json rf_lists) (dead_view ref_json rf_lists) ref_held
     (process (ref_pool ref_fails) None ref_job ref_held)"
  using process_skips_handled_jobs [OF ref.redis_laws_axioms mem.store_contract_axioms ref_statuses ref_clock refl, of
      ref_json ref_held 0 "[(JobTypeQRScan, ref_fails)]" 2 ref_job ref_fails
      "(''1'', Some minute)"]
  by simp

text \<open>
  C3: retries are bounded. A job alone in the queue whose processor always fails with a retryable
  error is delivered once more than it has retries left, then it is dead-lettered with the last
  error: its row says so, it heads the dead-letter list, every delivery left one attempt row, no
  copy is queued and no retry is scheduled. The forms in which the job is pushed again on the way,
  with a new status, count, error and time stamps, have to survive serialisation; under
  \<open>encoding/json\<close> they do if the job does, the error is valid UTF-8 and the clock is in the years
  0 to 9999.
\<close>

theorem retries_exhaust_to_dead_letter:
  assumes redis: "redis_laws R lst ents up elapse"
    and store: "store_contract S tab dok oktext okjson np na" and sts: "text_statuses oktext" "clock_ok E"
    and p: "p = NewPool (RedisQueue_port R J pt) S (RedisCache_port R) procs workers E"
    and waits: "waiting_job (server_ok J lst ents up) ents (queue_view J lst) tab dok oktext okjson np na j w"
    and proc: "p_registry p (job_JobType j) = Some proc" "\<And>c j w. proc c j w = (Some e, w)"
      "\<not> errors_Is e ErrNonRetryable" "oktext (Error e)"
    and wire: "\<And>j'. failed_form E (Error e) j j' \<Longrightarrow> wire J j'"
    and rand: "\<And>k n. 0 < n \<Longrightarrow> 0 \<le> rand_at E k n \<and> rand_at E k n < n"
    and n: "n = Suc (nat (job_MaxRetries j - job_RetryCount j))"
  shows "\<exists>dead w'. deliveries n p w = w' \<and> dead_view J lst (redis w') = dead # dead_view J lst (redis w) \<and>
    job_ID dead = job_ID j \<and> job_Status dead = JobStatusDeadLetter \<and> job_ErrorMessage dead = Error e \<and>
    t_jobs (tab (db w')) (job_ID j) = Some (stored_job np na dead) \<and>
    queue_view J lst (redis w') = (\<lambda>_. []) \<and> pending w' = [] \<and>
    length (t_atts (tab (db w'))) = length (t_atts (tab (db w))) + n"
proof -
  have pE: "p_rt p = E" by (simp add: p NewPool_def)
  then have rt: "rand_at (p_rt p) = rand_at E" by simp
  have r: "\<And>k n. 0 < n \<Longrightarrow> 0 \<le> rand_at (p_rt p) k n \<and> rand_at (p_rt p) k n < n"
    unfolding rt by (rule rand)
  show ?thesis
    using pool_env.redis_exhaust [where J = J and pt = pt and procs = procs and workers = workers and E = E,
        OF pool_envI [OF redis store sts], folded p, unfolded pE, OF waits proc wire r [unfolded pE] refl] n by simp
qed

theorem retries_exhaust_to_dead_letter_witness:
  "\<exists>dead. dead_view (go_json id) rf_lists (redis (deliveries 4 (json_pool ref_fails) json_loaded)) = [dead] \<and>
     job_ID dead = ''j1'' \<and> job_ErrorMessage dead = ''provider down'' \<and>
     length (t_atts (mem_tables (db (deliveries 4 (json_pool ref_fails) json_loaded)))) = 4"
proof -
  have "utf8_Valid (Error (ErrorString ''provider down''))" by (simp add: ascii_utf8 byte_of_def)
  then have wire: "wire (go_json id) j'" if "failed_form ref_runtime (Error (ErrorString ''provider down'')) json_job j'" for j'
    using wire_clean_job [OF failed_form_clean [OF json_job_clean _ ref_clock_years that]] by blast
  have four: "4 = Suc (nat (job_MaxRetries json_job - job_RetryCount json_job))" by simp
  from retries_exhaust_to_dead_letter [OF ref.redis_laws_axioms mem.store_contract_axioms ref_statuses ref_clock refl
      json_loaded_waiting _ _ _ _ wire ref_rand four, of 0 "[(JobTypeQRScan, ref_fails)]" 2 ref_fails]
  show ?thesis by (auto simp: ref_fails_def NewPool_def)
qed

section \<open>Processors\<close>

text \<open>
  C15: end to end. An admissible QR scan request in a state where nothing is in its way is
  accepted, and the next delivery of the pool stores exactly one scan row that carries the job's
  identifier and the scanned code, counts it for its event, and leaves the job's row SUCCESS, the
  queue empty and no retry scheduled.
\<close>

theorem qr_scan_end_to_end:
  assumes redis: "redis_laws R lst ents up elapse"
    and store: "event_contract S tab dok oktext okjson np na" and sts: "text_statuses oktext" "clock_ok E"
    and s: "s = gateway R J pt S cfg E" and ttl: "whole_ms (gc_IdempotencyTTL (gs_cfg s))"
    and p: "p = NewPool (RedisQueue_port R J pt) S (RedisCache_port R) procs workers E"
    and req: "admissible s req" "er_JobType req = JobTypeQRScan"
      "accepted_scan J (er_Payload req) = Some inp"
    and qp: "p_registry p JobTypeQRScan = Some (QRScanProcessor_Process J E qp)"
      "qp = NewQRScanProcessor S S (RedisCache_port R) dedup" "whole_ms (qrp_dedupTTL qp)"
    and w: "server_ok J lst ents up (redis w)" "dok (db w)" "queue_view J lst (redis w) = (\<lambda>_. [])"
      "pending w = []" "\<not> crashed w" "eff_base w \<le> 2 ^ 53" "eff_max w \<le> 2 ^ 53"
    and ready: "scan_ready (ents (redis w)) (tab (db w)) E s req inp w"
    and job: "j = enq_job s req w" "wire J j" "okjob oktext okjson j"
    and txts: "\<And>i. i \<in> range (uuid_at E) \<Longrightarrow> scan_text oktext okjson i j inp"
    and n: "ents (redis w) (attendance_key (qp_EventID inp)) = counter n" "int n + 1 < 2 ^ 63"
  shows "\<exists>w1 w2 row scan. Enqueue s None req w = (Inr \<lparr> res_Job = j, res_Duplicate = False \<rparr>, w1) \<and>
    delivery p w1 = w2 \<and> t_jobs (tab (db w2)) (job_ID j) = Some row \<and> job_Status row = JobStatusSuccess \<and>
    t_scans (tab (db w2)) = t_scans (tab (db w)) @ [scan] \<and> qs_JobID scan = job_ID j \<and>
    qs_QRCode scan = qp_QRCode inp \<and> qs_EventID scan = qp_EventID inp \<and>
    (qp_EventID inp \<noteq> '''' \<longrightarrow> ents (redis w2) (attendance_key (qp_EventID inp)) = counter (Suc n)) \<and>
    queue_view J lst (redis w2) = (\<lambda>_. []) \<and> pending w2 = []"
  by (rule scan_env.scan_end_to_end [where procs = procs and workers = workers,
        OF scan_envI [OF redis store ttl [unfolded s] sts], folded s p,
        OF req qp(1) qp(2) qp(3) w ready job txts n])

theorem qr_scan_end_to_end_witness:
  "\<exists>w1 w2 row scan. Enqueue ref_gateway None ref_request ref_world =
     (Inr \<lparr> res_Job = enq_job ref_gateway ref_request ref_world, res_Duplicate = False \<rparr>, w1) \<and>
   delivery ref_full_pool w1 = w2 \<and>
   t_jobs (mem_tables (db w2)) (enq_id ref_gateway ref_request ref_world) = Some row \<and>
   job_Status row = JobStatusSuccess \<and> t_scans (mem_tables (db w2)) = [scan] \<and> qs_QRCode scan = ''code-7''"
  using qr_scan_end_to_end [OF ref.redis_laws_axioms mem.event_contract_axioms ref_statuses ref_clock refl, of ref_json 0
      ref_config ref_full_pool ref_procs 2 ref_request ref_scan ref_qr 0 ref_world
      "enq_job ref_gateway ref_request ref_world" 0]
  by (simp add: scan_ready_def eff_base_def eff_max_def counter_def) blast

text \<open>
  C22: what can never succeed is never retried. Each processor answers a payload that does not
  decode or that lacks a required value, an unknown payment status or channel included, with an
  error that wraps \<open>ErrNonRetryable\<close>, before it touches a table or a key.
\<close>

theorem processors_refuse_bad_payloads:
  "(accepted_registration J (job_Payload job) = None \<longrightarrow>
      refused (RegistrationProcessor_Process J E rp c job w) w) \<and>
   (accepted_payment J (job_Payload job) = None \<longrightarrow> refused (PaymentProcessor_Process J E pp c job w) w) \<and>
   (accepted_scan J (job_Payload job) = None \<longrightarrow> refused (QRScanProcessor_Process J E qp c job w) w) \<and>
   (accepted_notification J (job_Payload job) = None \<longrightarrow>
      refused (NotificationProcessor_Process J E np c job w) w)"
  by (simp add: process_refuses)

theorem processors_refuse_bad_payloads_witness:
  "refused (QRScanProcessor_Process ref_json ref_runtime ref_qr None
     (ref_job\<lparr>job_Payload := enc_fields ['''', ''event-1'', '''', '''']\<rparr>) ref_loaded) ref_loaded"
  using processors_refuse_bad_payloads [of ref_json "ref_job\<lparr>job_Payload := enc_fields ['''', ''event-1'', '''', '''']\<rparr>"
      ref_runtime _ None ref_loaded _ ref_qr]
  by simp

text \<open>
  C19: the attendance counters agree with the stored scans. If the counter of every event equals
  the number of its rows, then processing a scan keeps it so; a row is added exactly when the code
  was not seen within the window, and the delivery succeeds either way.
\<close>

theorem scans_keep_attendance:
  assumes redis: "redis_laws R lst ents up elapse"
    and store: "event_contract S tab dok oktext okjson np na" "clock_ok E"
    and inp: "accepted_scan J (job_Payload job) = Some inp"
    and qp: "qp = NewQRScanProcessor S S (RedisCache_port R) dedup" "whole_ms (qrp_dedupTTL qp)"
    and w: "server_ok J lst ents up (redis w)" "dok (db w)"
    and i: "i = uuid_at E (uuids w)" "i \<notin> qs_ID ` set (t_scans (tab (db w)))"
    and txts: "scan_text oktext okjson i job inp"
    and att: "attendance_ok (ents (redis w)) (tab (db w))" "ents (redis w) (attendance_key '''') = None"
      "int (length (t_scans (tab (db w)))) + 1 < 2 ^ 63"
  shows "\<exists>w'. QRScanProcessor_Process J E qp None job w = (None, w') \<and>
    attendance_ok (ents (redis w')) (tab (db w')) \<and>
    length (t_scans (tab (db w'))) = length (t_scans (tab (db w))) +
      (if ents (redis w) (dedupKey inp) = None then 1 else 0)"
  by (rule processing_env.redis_scan_keeps_attendance [OF processing_envI [OF redis store] inp qp w i txts att])

theorem scans_keep_attendance_witness:
  "\<exists>w'. QRScanProcessor_Process ref_json ref_runtime ref_qr None ref_job ref_loaded = (None, w') \<and>
     length (t_scans (mem_tables (db w'))) = 1"
  using scans_keep_attendance [OF ref.redis_laws_axioms mem.event_contract_axioms ref_clock, of ref_json ref_job
      ref_scan ref_qr 0 ref_loaded "uuid_at ref_runtime (uuids ref_loaded)"]
  by (auto simp: scans_of_def)

text \<open>
  C23: a scan can be lost. The duplicate-scan key is claimed before the row is stored; if storing
  fails, the delivery ends with a retryable error, but a retry within the window takes its own key
  for a duplicate and succeeds without a row.
\<close>

theorem scan_lost_after_store_failure:
  assumes redis: "redis_laws R lst ents up elapse"
    and store: "event_contract S tab dok oktext okjson np na" "clock_ok E"
    and inp: "accepted_scan J (job_Payload job) = Some inp"
    and qp: "qp = NewQRScanProcessor S' S' (RedisCache_port R) dedup" "whole_ms (qrp_dedupTTL qp)"
    and w: "server_ok J lst ents up (redis w)" "ents (redis w) (dedupKey inp) = None"
    and fails: "sCreateQRScanEvent S' None (new_scan job inp (uuid_at E (uuids w)) (time_at E (ticks w))) (db w) =
      (Some e, d)"
    and job2: "job_Payload job2 = job_Payload job"
    and w1: "w1 = snd (QRScanProcessor_Process J E qp None job w)"
    and w2: "server_ok J lst ents up (redis w2)"
      "ents (redis w2) (dedupKey inp) = age t (ents (redis w1) (dedupKey inp))" "t < qrp_dedupTTL qp"
  shows "fst (QRScanProcessor_Process J E qp None job w) = Some (Wrap ''store qr scan: '' e '''') \<and>
    (\<exists>w3. QRScanProcessor_Process J E qp None job2 w2 = (None, w3) \<and> db w3 = db w2)"
  by (rule processing_env.redis_scan_lost [OF processing_envI [OF redis store] inp qp w fails job2 w1 w2])

theorem scan_lost_after_store_failure_witness:
  "\<exists>w1 w3. QRScanProcessor_Process ref_json ref_runtime ref_full_qr None ref_job ref_loaded =
       (Some (Wrap ''store qr scan: '' ref_refused ''''), w1) \<and>
     QRScanProcessor_Process ref_json ref_runtime ref_full_qr None ref_job w1 = (None, w3) \<and> db w3 = db w1"
proof -
  define w1 where "w1 = snd (QRScanProcessor_Process ref_json ref_runtime ref_full_qr None ref_job ref_loaded)"
  have "cSetNX (RedisCache_port ref_client) None (dedupKey ref_scan) ''1'' 10000000000 (redis ref_loaded) =
      (Inr True, redis w1)"
    using refenv.setnx_port(1) [of ref_json "redis ref_loaded" "dedupKey ref_scan" 10000000000 "''1''"]
      process_accepts(3) [of ref_json "job_Payload ref_job" ref_scan]
    by (simp add: w1_def QRScanProcessor_Process_def world_simps NewQRScanProcessor_def prod_eq_iff
        ref_scan_cache_key)
  then have ok: "server_ok ref_json rf_lists rf_ents rf_up (redis w1)"
    "rf_ents (redis w1) (dedupKey ref_scan) = Some (''1'', Some 10000000000)"
    using refenv.setnx_port(2,3) [of ref_json "redis ref_loaded" "dedupKey ref_scan" 10000000000 "''1''"]
    by (simp_all add: ref_scan_cache_key)
  from scan_lost_after_store_failure [OF ref.redis_laws_axioms mem.event_contract_axioms ref_clock, of ref_json ref_job
      ref_scan ref_full_qr ref_full 0 ref_loaded ref_refused "db ref_loaded" ref_job w1 w1 0] ok
  show ?thesis
    by (simp add: age_def w1_def prod_eq_iff)
qed

text \<open>
  C18: re-delivered and out-of-date webhooks do no harm. After any run of payment jobs, refused
  ones included, the row of an order holds the data of the last accepted webhook for that order,
  and an order without an accepted webhook keeps its row. The identifiers drawn for the rows have
  to be new: a row whose identifier another order has is refused by the table.
\<close>

theorem payments_last_webhook_wins:
  assumes redis: "redis_laws R lst ents up elapse"
    and store: "event_contract S tab dok oktext okjson np na" "clock_ok E"
    and pp: "pp = NewPaymentProcessor S S" and w: "dok (db w)"
    and txts: "\<And>job inp n. job \<in> set jobs \<Longrightarrow> accepted_payment J (job_Payload job) = Some inp \<Longrightarrow>
      payment_text oktext okjson (uuid_at E n) job inp"
    and ids: "inj (uuid_at E)" "new_payment_ids E (uuids w) (tab (db w))"
  shows "case last_payment J jobs k of
       None \<Rightarrow> t_pays (tab (db (run_all (PaymentProcessor_Process J E pp) jobs w))) k = t_pays (tab (db w)) k
     | Some inp \<Rightarrow> \<exists>e. t_pays (tab (db (run_all (PaymentProcessor_Process J E pp) jobs w))) k = Some e \<and>
         holds_payment inp e"
  using processing_env.redis_payments_last_wins [OF processing_envI [OF redis store] pp w txts ids, where J = J and k = k]
  by simp

theorem payments_last_webhook_wins_witness:
  "\<exists>e. t_pays (mem_tables (db (run_all (PaymentProcessor_Process ref_json ref_runtime
       (NewPaymentProcessor MemStore_port MemStore_port))
       [ref_webhook ''AUTHORIZED'', ref_webhook ''CAPTURED'', ref_webhook ''STOLEN''] ref_world))) ''order-1'' = Some e \<and>
     pe_Status e = ''CAPTURED'' \<and> pe_Currency e = ''INR''"
proof -
  let ?jobs = "[ref_webhook ''AUTHORIZED'', ref_webhook ''CAPTURED'', ref_webhook ''STOLEN'']"
  have "last_payment ref_json ?jobs ''order-1'' = Some \<lparr> pw_GatewayOrderID = ''order-1'',
      pw_PaymentID = ''pay-1'', pw_PaymentStatus = ''CAPTURED'', pw_AmountCents = 4200, pw_Currency = '''' \<rparr>"
    by (simp add: last_payment_def map_filter_simps validPaymentStatuses_def)
  moreover have "int64 (pw_AmountCents inp)"
    if "job \<in> set ?jobs" "accepted_payment ref_json (job_Payload job) = Some inp" for job inp
    using that by (auto simp: int64_def split: if_splits)
  moreover have "new_payment_ids ref_runtime 0 (mem_tables NewInMemoryStore)" by (simp add: new_payment_ids_def)
  moreover note payments_last_webhook_wins [OF ref.redis_laws_axioms mem.event_contract_axioms ref_clock refl, where w = ref_world
      and jobs = ?jobs and J = ref_json and k = "''order-1''"]
  ultimately show ?thesis by (auto simp: holds_payment_def defaultStr_def)
qed

text \<open>
  C21: a notification's delivery result is always recorded. A row says SENT with the time, or
  FAILED without one, and counts the attempt; a failed send is passed on as an error that wraps
  the provider's own, so that a provider error that is not marked non-retryable is retried.
\<close>

theorem notification_result_recorded:
  assumes redis: "redis_laws R lst ents up elapse"
    and store: "event_contract S tab dok oktext okjson np na" "clock_ok E"
    and inp: "accepted_notification J (job_Payload job) = Some inp"
    and p: "ntp = NewNotificationProcessor S S sender" and w1: "w1 = w\<lparr>ticks := Suc (ticks w)\<rparr>"
    and send: "ntp_sender ntp None (np_Channel inp) (np_Recipient inp) (np_Subject inp) (np_Body inp) w1 = (res, w2)"
    and w2: "dok (db w2)" "i = uuid_at E (uuids w2)" "i \<notin> ne_ID ` set (t_notes (tab (db w2)))"
    and txts: "notification_text oktext okjson i job inp"
  shows "\<exists>w' l row. NotificationProcessor_Process J E ntp None job w =
      (map_option (\<lambda>e. Wrap (''send '' @ np_Channel inp @ '' notification: '') e '''') res, w') \<and>
    tab (db w') = (tab (db w2))\<lparr>t_notes := t_notes (tab (db w2)) @ [row],
      t_audits := t_audits (tab (db w2)) @ (if res = None then [l] else [])\<rparr> \<and>
    ne_JobID row = job_ID job \<and> ne_Attempts row = job_RetryCount job + 1 \<and>
    ne_Status row = (if res = None then ''SENT'' else ''FAILED'') \<and>
    ne_SentAt row = (if res = None then Some (na (time_at E (ticks w))) else None)"
proof -
  from processing_env.redis_notification_recorded [OF processing_envI [OF redis store] inp p w1 send w2 txts]
  obtain w' l where w': "NotificationProcessor_Process J E ntp None job w =
      (map_option (\<lambda>e. Wrap (''send '' @ np_Channel inp @ '' notification: '') e '''') res, w')"
    "tab (db w') = (tab (db w2))\<lparr>
      t_notes := t_notes (tab (db w2)) @
        [(new_notification job inp i res (time_at E (ticks w)))
           \<lparr>ne_SentAt := map_option na (sentAtPtr (time_at E (ticks w)) (res = None)),
            ne_CreatedAt := na (time_at E (ticks w))\<rparr>],
      t_audits := t_audits (tab (db w2)) @ (if res = None then [l] else [])\<rparr>"
    by blast
  let ?row = "(new_notification job inp i res (time_at E (ticks w)))
      \<lparr>ne_SentAt := map_option na (sentAtPtr (time_at E (ticks w)) (res = None)),
       ne_CreatedAt := na (time_at E (ticks w))\<rparr>"
  have "ne_JobID ?row = job_ID job" "ne_Attempts ?row = job_RetryCount job + 1"
    "ne_Status ?row = (if res = None then ''SENT'' else ''FAILED'')"
    "ne_SentAt ?row = (if res = None then Some (na (time_at E (ticks w))) else None)"
    using txts by (simp_all add: new_notification_def sentAtPtr_def notification_text_def wrap64_int32)
  with w' show ?thesis by blast
qed

theorem notification_result_recorded_witness:
  "\<exists>w' row e. NotificationProcessor_Process ref_json ref_runtime
       (NewNotificationProcessor MemStore_port MemStore_port (Some ref_bad_sender)) None ref_message ref_world =
       (Some e, w') \<and> \<not> errors_Is e ErrNonRetryable \<and>
     t_notes (mem_tables (db w')) = [row] \<and> ne_Status row = ''FAILED''"
  using notification_result_recorded [OF ref.redis_laws_axioms mem.event_contract_axioms
      ref_clock ref_message_accepted refl refl, where sender = "Some ref_bad_sender" and w = ref_world]
  by (fastforce simp: NewNotificationProcessor_def)

text \<open>
  C20: a processed registration fans out. The registration row and the audit row are stored, and
  one welcome notification goes through the gateway service: its own QUEUED row, queued last at
  the LOW level, with the encoded message as payload; nothing else changes in tables and lists.
\<close>

theorem registration_enqueues_welcome:
  assumes redis: "redis_laws R lst ents up elapse"
    and store: "event_contract S tab dok oktext okjson np na" "clock_ok E"
    and s: "s = gateway R J pt S cfg E" and ttl: "whole_ms (gc_IdempotencyTTL (gs_cfg s))"
    and inp: "accepted_registration J (job_Payload job) = Some inp"
    and rp: "rp = NewRegistrationProcessor S S (Enqueue s)"
    and w: "server_ok J lst ents up (redis w)" "dok (db w)"
    and i: "i = uuid_at E (uuids w)" "i \<notin> reg_ID ` set (t_regs (tab (db w)))"
    and txts: "registration_text oktext okjson i job inp"
    and b: "json_Marshal_Notification J
        (welcome_payload (new_registration job inp i (time_at E (ticks w)))) = Inr b" "b \<noteq> []" "json_Valid J b"
    and req: "req = welcome_request b i (job_TraceID job)"
    and free: "ents (redis w) (enq_redisKey s req) = None"
    and msg: "msg = enq_job s req (w\<lparr>uuids := Suc (uuids w), ticks := Suc (ticks w)\<rparr>)"
      "wire J msg" "okjob oktext okjson msg" "t_jobs (tab (db w)) (job_ID msg) = None"
  shows "\<exists>w' l. RegistrationProcessor_Process J E rp None job w = (None, w') \<and>
    tab (db w') = (tab (db w))\<lparr>
      t_regs := t_regs (tab (db w)) @ [new_registration job inp i (na (time_at E (ticks w)))],
      t_jobs := (t_jobs (tab (db w)))(job_ID msg \<mapsto> stored_job np na msg),
      t_audits := t_audits (tab (db w)) @ [l]\<rparr> \<and>
    queue_view J lst (redis w') = (queue_view J lst (redis w))(2 := queue_view J lst (redis w) 2 @ [msg]) \<and>
    dead_view J lst (redis w') = dead_view J lst (redis w) \<and>
    job_JobType msg = JobTypeNotification \<and> job_Payload msg = b \<and> job_Status msg = JobStatusQueued"
  by (rule pipeline_env.registration_fans_out [OF pipeline_envI [OF redis store ttl [unfolded s]], folded s,
        OF inp rp w i txts b req free msg])

theorem registration_enqueues_welcome_witness:
  "\<exists>w' msg. RegistrationProcessor_Process ref_json ref_runtime
       (NewRegistrationProcessor MemStore_port MemStore_port (Enqueue ref_gateway)) None ref_signup ref_world =
       (None, w') \<and> queue_view ref_json rf_lists (redis w') 2 = [msg] \<and> job_JobType msg = JobTypeNotification"
proof -
  define b where "b = projr (json_Marshal_Notification ref_json
      (welcome_payload (new_registration ref_signup ref_attendee (uuid_at ref_runtime 0) (time_at ref_runtime 0))))"
  let ?req = "welcome_request b (uuid_at ref_runtime 0) ''t3''"
  show ?thesis
    using registration_enqueues_welcome [OF ref.redis_laws_axioms mem.event_contract_axioms ref_clock refl _
        ref_signup_accepted(1) refl, where pt = 0 and cfg = ref_config
        and w = ref_world and i = "uuid_at ref_runtime 0" and b = b and req = ?req
        and msg = "enq_job ref_gateway ?req (ref_world\<lparr>uuids := Suc 0, ticks := Suc 0\<rparr>)"]
    by (fastforce simp: b_def)
qed


section \<open>Administration\<close>

text \<open>
  C24: a manual retry of a FAILED or DEAD_LETTER job starts a fresh life. The row is QUEUED with no
  retries used, no error and no processing time, and the job is queued last at its level; markers,
  locks and dead letters stay.
\<close>

theorem admin_retry_requeues:
  assumes redis: "redis_laws R lst ents up elapse"
    and store: "store_contract S tab dok oktext okjson np na"
    and s: "s = NewAdminService (RedisQueue_port R J pt) S E"
    and w: "server_ok J lst ents up (redis w)" "dok (db w)" "oktext i"
    and j: "t_jobs (tab (db w)) i = Some j" "job_ID j = i"
      "job_Status j \<in> {JobStatusFailed, JobStatusDeadLetter}"
    and job: "j' = reset_job j (time_at E (ticks w))" "wire J j'" "okjob oktext okjson j'"
      "same_row (stored_job np na j') j"
  shows "\<exists>w'. RetryJob s None i w = (Inr j', w') \<and>
    job_Status j' = JobStatusQueued \<and> job_RetryCount j' = 0 \<and> job_ErrorMessage j' = '''' \<and>
    tab (db w') = (tab (db w))\<lparr>t_jobs := (t_jobs (tab (db w)))(i \<mapsto> stored_job np na j')\<rparr> \<and>
    queue_view J lst (redis w') = (queue_view J lst (redis w))(level (job_Priority j) :=
      queue_view J lst (redis w) (level (job_Priority j)) @ [j']) \<and>
    ents (redis w') = ents (redis w) \<and> dead_view J lst (redis w') = dead_view J lst (redis w)"
proof -
  have rt: "as_rt s = E" by (simp add: s NewAdminService_def)
  from administration_env.redis_retry_requeues [OF administration_envI [OF redis store], of J w i j j' pt E,
      folded s, OF w j _ job(2-4)] job(1) rt
  show ?thesis by (auto simp: reset_job_def)
qed

theorem admin_retry_requeues_witness:
  "\<exists>j' w'. RetryJob (NewAdminService (RedisQueue_port ref_client ref_json 0) MemStore_port ref_runtime)
     None ''j1'' ref_dead_world = (Inr j', w') \<and> job_Status j' = JobStatusQueued \<and>
   queue_view ref_json rf_lists (redis w') 0 = [j']"
  using admin_retry_requeues [OF ref.redis_laws_axioms mem.store_contract_axioms refl, of ref_json
      ref_dead_world "''j1''" ref_dead_job "reset_job ref_dead_job (time_at ref_runtime 0)" ref_runtime 0]
  by (auto simp: same_row_def reset_job_def level_def)

text \<open>
  A retry of a job that does not exist or whose status does not allow it is refused, with
  \<open>ErrNotFound\<close> or \<open>ErrInvalidPayload\<close>, and changes nothing.
\<close>

lemma admin_retry_refused:
  assumes redis: "redis_laws R lst ents up elapse"
    and store: "store_contract S tab dok oktext okjson np na"
    and s: "s = NewAdminService (RedisQueue_port R J pt) S E"
    and w: "dok (db w)" "oktext i"
    and j: "case t_jobs (tab (db w)) i of None \<Rightarrow> True
            | Some j \<Rightarrow> job_Status j \<notin> {JobStatusFailed, JobStatusDeadLetter}"
  shows "\<exists>e. RetryJob s None i w = (Inl e, w) \<and> errors_Is e
    (if t_jobs (tab (db w)) i = None then ErrNotFound else ErrInvalidPayload)"
  using administration_env.redis_retry_refused [OF administration_envI [OF redis store] w j] unfolding s by blast

text \<open>
  C25: a manual retry of a dead-lettered job is not executed while the done marker of its first
  life lasts (24 hours): the worker that receives it takes it for finished and skips it, so that
  the row stays QUEUED with no copy of the job queued and no retry scheduled.
\<close>

theorem admin_retry_skipped_while_done:
  assumes redis: "redis_laws R lst ents up elapse"
    and store: "store_contract S tab dok oktext okjson np na" and sts: "text_statuses oktext" "clock_ok E"
    and s: "s = NewAdminService (RedisQueue_port R J pt) S E"
    and p: "p = NewPool (RedisQueue_port R J pt) S (RedisCache_port R) procs workers E"
      "p_registry p (job_JobType j) = Some proc"
    and w: "server_ok J lst ents up (redis w)" "dok (db w)" "oktext i"
      "queue_view J lst (redis w) = (\<lambda>_. [])" "pending w = []"
    and j: "t_jobs (tab (db w)) i = Some j" "job_ID j = i" "job_Status j = JobStatusDeadLetter"
      "ents (redis w) (done_key j) = Some (''1'', t)"
    and job: "j' = reset_job j (time_at E (ticks w))" "wire J j'" "okjob oktext okjson j'"
      "same_row (stored_job np na j') j"
  shows "\<exists>w1 w2. RetryJob s None i w = (Inr j', w1) \<and> delivery p w1 = w2 \<and>
    t_jobs (tab (db w2)) i = Some (stored_job np na j') \<and> job_Status j' = JobStatusQueued \<and>
    queue_view J lst (redis w2) = (\<lambda>_. []) \<and> pending w2 = []"
  by (rule retried_job_skipped [OF redis store sts s p w j job])

theorem admin_retry_skipped_while_done_witness:
  "\<exists>w1 w2 j'. RetryJob (NewAdminService (RedisQueue_port ref_client ref_json 0) MemStore_port ref_runtime)
     None ''j1'' ref_dead_world = (Inr j', w1) \<and> delivery (ref_pool ref_works) w1 = w2 \<and>
   t_jobs (mem_tables (db w2)) ''j1'' = Some j' \<and> job_Status j' = JobStatusQueued \<and>
   queue_view ref_json rf_lists (redis w2) = (\<lambda>_. [])"
  using admin_retry_skipped_while_done [OF ref.redis_laws_axioms mem.store_contract_axioms ref_statuses ref_clock refl refl,
      where procs = "[(JobTypeQRScan, ref_works)]" and workers = 2 and j = ref_dead_job and proc = ref_works
      and J = ref_json and w = ref_dead_world and i = "''j1''" and t = "Some hour" and pt = 0
      and j' = "reset_job ref_dead_job (time_at ref_runtime 0)"]
  by (fastforce simp: same_row_def reset_job_def)

text \<open>
  C26: the statistics are what the store and the queue hold, for either store. The counts by status
  and by type are the numbers of jobs with each value, the sum is the number of jobs, and the depths
  are the lengths of the levels and of the dead-letter list; nothing but the clock is touched.
\<close>

theorem stats_count_the_rows:
  assumes redis: "redis_laws R lst ents up elapse" and store: "report_contract S tab dok oktext"
    and s: "s = NewAdminService (RedisQueue_port R J pt) S E"
    and w: "server_ok J lst ents up (redis w)" "dok (db w)" "int (card (dom (t_jobs (tab (db w))))) < 2 ^ 63"
  shows "\<exists>st. Stats s None w = (Inr st, w\<lparr>ticks := Suc (ticks w)\<rparr>) \<and>
    js_Total st = int (card (dom (t_jobs (tab (db w))))) \<and>
    counts_jobs (tab (db w)) job_Status (js_ByStatus st) \<and>
    counts_jobs (tab (db w)) job_JobType (js_ByType st) \<and>
    js_DeadLetter st = int (length (dead_view J lst (redis w))) \<and>
    js_QueueDepths st = [(PriorityHigh, int (length (queue_view J lst (redis w) 0))),
      (PriorityMedium, int (length (queue_view J lst (redis w) 1))),
      (PriorityLow, int (length (queue_view J lst (redis w) 2)))]"
  using Stats_counted [OF redis store s w] by auto

theorem stats_count_the_rows_witness:
  "\<exists>st w'. Stats (NewAdminService (RedisQueue_port ref_client ref_json 0) MemStore_port ref_runtime)
     None ref_dead_world = (Inr st, w') \<and> js_Total st = 1 \<and>
   map_of (js_ByStatus st) ''DEAD_LETTER'' = Some 1"
proof -
  have one: "with_field (mem_tables (db ref_dead_world)) job_Status ''DEAD_LETTER'' = {''j1''}"
    by (auto simp: with_field_def JobStatusDeadLetter_def split: if_splits)
  have "mem_keyed (db ref_dead_world)" by (simp add: mem_keyed_def)
  from stats_count_the_rows [OF ref.redis_laws_axioms memrep.report_contract_axioms refl ref_dead_ok [of ref_json] this]
  show ?thesis by (fastforce simp: counts_jobs_def one)
qed


section \<open>On PostgreSQL\<close>

text \<open>
  C9: the store on PostgreSQL keeps the contract the services and workers are verified against.
  Whatever driver and database carry out the statements they are given, the operations of the store,
  as the SQL they send and what they make of the answers, create, update, find, count and list
  jobs, add attempts and events and upsert payments as the contracts ask.
\<close>

theorem postgres_meets_contract:
  assumes "pg_laws P ts up oktext okjson np na"
  shows "event_contract (PgStore_port P) (pg_tables ts) up oktext okjson np na \<and>
    report_contract (PgStore_port P) (pg_tables ts) up oktext"
  using pg_laws.pg_event_contract [OF assms] pg_laws.pg_report_contract [OF assms] by blast

theorem postgres_meets_contract_witness:
  "event_contract (PgStore_port ref_pg) (pg_tables (\<lambda>d. d)) pg_ok (\<lambda>_. True) pg_json (\<lambda>s. s) pg_micros \<and>
   report_contract (PgStore_port ref_pg) (pg_tables (\<lambda>d. d)) pg_ok (\<lambda>_. True)"
  by (rule postgres_meets_contract [OF refpg.pg_laws_axioms])

text \<open>
  C10: what was accepted can be read back. After a fresh request on a deployment with Redis and
  PostgreSQL, the admin service finds the job under the identifier the client was given: the job
  that was queued, with its payload and times as the database keeps them.
\<close>

theorem enqueued_job_reads_back:
  assumes redis: "redis_laws R lst ents up elapse"
    and pg: "pg_laws P ts pgup oktext okjson np na"
    and s: "s = gateway R J pt (PgStore_port P) cfg E" and ttl: "whole_ms (gc_IdempotencyTTL (gs_cfg s))"
    and adm: "a = NewAdminService (RedisQueue_port R J pt) (PgStore_port P) E"
    and req: "admissible s req" and ready: "server_ok J lst ents up (redis w)" "pgup (db w)"
    and key: "ents (redis w) (enq_redisKey s req) = None"
    and job: "wire J (enq_job s req w)" "okjob oktext okjson (enq_job s req w)"
      "t_jobs (pg_tables ts (db w)) (enq_id s req w) = None"
  shows "\<exists>w'. Enqueue s None req w = (Inr \<lparr> res_Job = enq_job s req w, res_Duplicate = False \<rparr>, w') \<and>
    GetJob a None (job_ID (enq_job s req w)) w' = (Inr (stored_job np na (enq_job s req w)), w')"
proof -
  note store = pg_laws.pg_store_contract [OF pg]
  from gateway_env.redis_fresh [OF gateway_envI [OF redis store ttl [unfolded s]]] req ready key job
  obtain w' where w': "Enqueue s None req w = (Inr \<lparr> res_Job = enq_job s req w, res_Duplicate = False \<rparr>, w')"
    "t_jobs (pg_tables ts (db w')) (enq_id s req w) = Some (stored_job np na (enq_job s req w))" "pgup (db w')"
    unfolding s by fastforce
  have i: "job_ID (enq_job s req w) = enq_id s req w" by (simp add: enq_job_def NewJob_def)
  have "oktext (enq_id s req w)" using job(2) i by (simp add: okjob_def)
  from pg_laws.get_meets [OF pg w'(3) this] w'(2)
  have "GetJob a None (enq_id s req w) w' = (Inr (stored_job np na (enq_job s req w)), w')"
    by (simp add: adm GetJob_def NewAdminService_def PgStore_port_def on_db_def)
  with w'(1) i show ?thesis by auto
qed

theorem enqueued_job_reads_back_witness:
  "\<exists>w' j. Enqueue ref_pg_gateway None ref_request ref_pg_world = (Inr \<lparr> res_Job = j, res_Duplicate = False \<rparr>, w') \<and>
    GetJob (NewAdminService (RedisQueue_port ref_client ref_json 0) (PgStore_port ref_pg) ref_runtime) None (job_ID j) w' =
      (Inr (stored_job (\<lambda>s. s) pg_micros j), w')"
proof -
  have ok: "okjob (\<lambda>_. True) pg_json (enq_job ref_pg_gateway ref_request ref_pg_world)"
    by (simp add: okjob_def enq_job_def NewJob_def pg_json_def)
  from enqueued_job_reads_back [OF ref.redis_laws_axioms refpg.pg_laws_axioms refl _ refl ref_pg_admissible _ _ _ _ ok]
  show ?thesis by (fastforce simp: whole_ms_def)
qed

text \<open>
  C11: the admin service lists jobs newest first. A list is the page of the asked size, or of 50
  where the size is not between 1 and 500, from the asked position on, of all jobs that have the
  asked status and type, each once and in descending order of creation; a negative position is an
  error. A read changes nothing.
\<close>

theorem admin_lists_newest_first:
  assumes pg: "pg_laws P ts up oktext okjson np na" and s: "s = NewAdminService Q (PgStore_port P) E"
    and w: "up (db w)" and f: "oktext (jf_Status f)" "oktext (jf_JobType f)" "int64 (jf_Offset f)"
  shows "if jf_Offset f < 0 then \<exists>e. ListJobs s None f w = (Inl e, w)
    else \<exists>js. ListJobs s None f w = (Inr (result_page (page_limit (jf_Limit f)) (jf_Offset f) js), w) \<and>
      lists_jobs (pg_tables ts (db w)) (selected f) job_CreatedAt js"
proof (cases "jf_Offset f < 0")
  case True
  then show ?thesis using pg_laws.negative_offset_error [OF pg w True]
    by (auto simp: s ListJobs_def NewAdminService_def PgStore_port_def on_db_def)
next
  case False
  then show ?thesis using pg_laws.list_meets [OF pg w f(1,2) _ f(3)]
    by (auto simp: s ListJobs_def NewAdminService_def PgStore_port_def on_db_def)
qed

theorem admin_lists_newest_first_witness:
  "ListJobs (NewAdminService (RedisQueue_port ref_client ref_json 0) (PgStore_port ref_pg) ref_runtime) None
     \<lparr> jf_Status = JobStatusQueued, jf_JobType = '''', jf_Limit = 1, jf_Offset = 0 \<rparr> ref_pg_two =
   (Inr [row_job (ref_pg_row ''b'' second)], ref_pg_two)"
proof -
  let ?f = "\<lparr> jf_Status = JobStatusQueued, jf_JobType = '''', jf_Limit = 1, jf_Offset = 0 \<rparr>"
  let ?a = "row_job (ref_pg_row ''a'' 0)" and ?b = "row_job (ref_pg_row ''b'' second)"
  have t: "job_CreatedAt ?a < job_CreatedAt ?b" by (simp add: ref_pg_row_values pg_micros_def)
  have sel: "{j \<in> ran (t_jobs (pg_tables (\<lambda>d. d) (db ref_pg_two))). selected ?f j} = {?a, ?b}"
    by (auto simp: ref_pg_two_jobs selected_def ref_pg_row_values)
  have "lists_jobs (pg_tables (\<lambda>d. d) (db ref_pg_two)) (selected ?f) job_CreatedAt [?b, ?a]"
    using t unfolding lists_jobs_def sel by (auto simp: ref_pg_row_values)
  moreover have "inj_on job_CreatedAt {j \<in> ran (t_jobs (pg_tables (\<lambda>d. d) (db ref_pg_two))). selected ?f j}"
    using t unfolding sel by (simp add: inj_on_def)
  ultimately have "js = [?b, ?a]"
    if "lists_jobs (pg_tables (\<lambda>d. d) (db ref_pg_two)) (selected ?f) job_CreatedAt js" for js
    using that by (blast intro: lists_jobs_unique)
  then show ?thesis
    using admin_lists_newest_first [OF refpg.pg_laws_axioms refl, of ref_pg_two ?f
        "RedisQueue_port ref_client ref_json 0" ref_runtime]
    by (fastforce simp: int64_def page_limit_def result_page_def)
qed

text \<open>
  Both stores answer alike: on the same jobs, with distinct times of creation, a page of at most 500
  jobs is the same from PostgreSQL and from the in-memory store the tests use.
\<close>

lemma stores_list_alike:
  assumes "report_contract S tab dok oktext" "report_contract S' tab' dok' oktext'" "dok d" "dok' d'" "tab d = tab' d'"
    and "oktext (jf_Status f)" "oktext (jf_JobType f)" "oktext' (jf_Status f)" "oktext' (jf_JobType f)"
    and "0 < jf_Limit f" "jf_Limit f \<le> 500" "0 \<le> jf_Offset f" "int64 (jf_Offset f)"
    and "inj_on job_CreatedAt {j \<in> ran (t_jobs (tab d)). selected f j}"
  shows "fst (sList S None f d) = fst (sList S' None f d')"
proof -
  obtain js where js: "sList S None f d = (Inr (result_page (jf_Limit f) (jf_Offset f) js), d)"
    "lists_jobs (tab d) (selected f) job_CreatedAt js"
    using report_contract.list_page [OF assms(1,3,6,7,10-13)] by blast
  obtain js' where js': "sList S' None f d' = (Inr (result_page (jf_Limit f) (jf_Offset f) js'), d')"
    "lists_jobs (tab d) (selected f) job_CreatedAt js'"
    using report_contract.list_page [OF assms(2,4,8,9,10-13)] assms(5) by auto
  show ?thesis using lists_jobs_unique [OF js(2) js'(2) assms(14)] js(1) js'(1) by simp
qed


section \<open>The queue over JSON\<close>

text \<open>
  C27: no job changes on its way through Redis. A job with valid UTF-8 texts, 64-bit counters,
  times of the years 0 to 9999 and a compact JSON payload that is pushed on an empty queue is
  popped as the same job, field by field, with the serialisation that \<open>encoding/json\<close> performs.
\<close>

theorem queued_job_survives_json:
  assumes redis: "redis_laws R lst ents up elapse" and r: "server_ok (go_json msg) lst ents up r"
    and empty: "queue_view (go_json msg) lst r = (\<lambda>_. [])" and job: "clean_job j"
  shows "\<exists>r1 r2. RedisQueue_Push R (go_json msg) None j r = (None, r1) \<and>
    RedisQueue_Pop R (go_json msg) pt None r1 = (Inr (Some j), r2) \<and>
    queue_view (go_json msg) lst r2 = (\<lambda>_. []) \<and> ents r2 = ents r"
  using redis_env.json_roundtrip [OF redis_envI [OF redis] r wire_clean_job [OF job] empty] by blast

theorem queued_job_survives_json_witness:
  "\<exists>r1 r2. RedisQueue_Push ref_client (go_json id) None json_job ref_empty = (None, r1) \<and>
    RedisQueue_Pop ref_client (go_json id) 0 None r1 = (Inr (Some json_job), r2)"
  using queued_job_survives_json [OF ref.redis_laws_axioms _ _ json_job_clean, of id ref_empty 0]
  by (auto simp: queue_view_def)

end
